(* ===== verification/Go_Prelude.thy ===== *)
theory Go_Prelude
  imports Main "HOL-Library.Word" "HOL-Library.State_Monad" "HOL-Library.Multiset"
begin

text \<open>
  The prelude of the development: what the other theories use of the Go language and of its
  standard library.

  \<^item> Integers: \<open>int32\<close> and \<open>int\<close> (64 bit) are words; their signed readings are \<open>sint\<close>.
  \<^item> Strings: a Go string is a sequence of bytes, a HOL \<open>string\<close>. \<open>show_int\<close> is the verb
    \<^verbatim>\<open>%d\<close> of \<^verbatim>\<open>fmt.Sprintf\<close> and \<^verbatim>\<open>strconv.Itoa\<close>.
  \<^item> Errors: \<open>gerror\<close>. An error return is a value \<open>gerror option\<close> (\<open>None\<close> is \<^verbatim>\<open>nil\<close>), and a
    pair \<open>(value, error)\<close> of which Go code uses one half only is a sum \<open>gerror + 'a\<close>. A panic
    is an error value too: nothing between a panic and the end of the reconciliation recovers,
    so it leaves every function the way an error return does. \<open>NoResult\<close> is no value of the program:
    it stands for a loop that has not returned within the fuel of its definition, and the theory
    of that loop shows that it does not occur.
  \<^item> Effects: code that calls the API server runs in the state monad of
    \<open>HOL-Library.State_Monad\<close>. \<open>keeps ob m\<close> says that \<open>m\<close> leaves what \<open>ob\<close>
    observes of the state as it is, with its rules collected in \<open>keeps_intros\<close>.
\<close>

section \<open>Machine integers and their text\<close>

type_synonym int32 = "32 word"
type_synonym goint = "64 word"
type_synonym byte = "8 word"

named_theorems go_simps \<open>unfolding rules for Go library functions\<close>

fun show_nat :: "nat \<Rightarrow> string" where
  "show_nat n = (if n < 10 then [char_of (48 + n)] else show_nat (n div 10) @ [char_of (48 + n mod 10)])"

declare show_nat.simps [simp del]

definition show_int :: "int \<Rightarrow> string" where
  "show_int i = (if i < 0 then ''-'' @ show_nat (nat (- i)) else show_nat (nat i))"

definition is_digit :: "char \<Rightarrow> bool" where
  "is_digit c \<longleftrightarrow> (48::nat) \<le> of_char c \<and> of_char c \<le> (57::nat)"

definition digit_val :: "char \<Rightarrow> nat" where
  "digit_val c = of_char c - 48"

lemma of_char_digit [simp]: "(n::nat) < 10 \<Longrightarrow> of_char (char_of (48 + n)) = (48 + n :: nat)"
  by (simp add: of_char_of)

lemma is_digit_char_of [simp]: "(n::nat) < 10 \<Longrightarrow> is_digit (char_of (48 + n))"
  by (simp add: is_digit_def)

lemma digit_val_char_of [simp]: "(n::nat) < 10 \<Longrightarrow> digit_val (char_of (48 + n)) = n"
  by (simp add: digit_val_def)

lemma show_nat_digits: "\<forall>c \<in> set (show_nat n). is_digit c"
proof (induction n rule: show_nat.induct)
  case (1 n)
  then show ?case by (cases "n < 10") (simp_all add: show_nat.simps [of n])
qed

lemma show_nat_not_Nil [simp]: "show_nat n \<noteq> []"
  by (subst show_nat.simps) simp

text \<open>Reading a digit string back, the inverse of \<open>show_nat\<close>.\<close>

definition read_nat :: "string \<Rightarrow> nat" where
  "read_nat s = foldl (\<lambda>n c. n * 10 + digit_val c) 0 s"

lemma read_show_nat [simp]: "read_nat (show_nat n) = n"
proof (induction n rule: show_nat.induct)
  case (1 n)
  show ?case
  proof (cases "n < 10")
    case True
    then show ?thesis by (simp add: read_nat_def show_nat.simps [of n])
  next
    case False
    with 1 have "read_nat (show_nat (n div 10)) = n div 10" by simp
    with False show ?thesis by (simp add: read_nat_def show_nat.simps [of n])
  qed
qed

lemma show_nat_inject [simp]: "show_nat m = show_nat n \<longleftrightarrow> m = n"
  by (metis read_show_nat)

lemma minus_not_digit: "CHR ''-'' \<notin> set (show_nat n)"
  using show_nat_digits [of n] by (auto simp: is_digit_def)

lemma show_int_inject [simp]: "show_int i = show_int j \<longleftrightarrow> i = j"
proof -
  have neg: "show_nat m \<noteq> CHR ''-'' # xs" for m xs
    using minus_not_digit [of m] by (metis list.set_intros(1))
  show ?thesis
    using neg neg [symmetric] by (auto simp: show_int_def)
qed

section \<open>Strings\<close>

text \<open>\<^verbatim>\<open>len(s)\<close>, slices and prefixes are the list functions; \<^verbatim>\<open>strings\<close>-free code of the
  repository loops over the bytes itself.\<close>

definition has_prefix :: "string \<Rightarrow> string \<Rightarrow> bool" where
  "has_prefix p s \<longleftrightarrow> take (length p) s = p"

lemma has_prefix_append [simp]: "has_prefix p (p @ s)"
  by (simp add: has_prefix_def)

section \<open>Errors\<close>

text \<open>
  An API status error carries its reason; \<^verbatim>\<open>fmt.Errorf("...: %w", err)\<close> keeps the reason of the
  error it wraps, because \<^verbatim>\<open>apierrors.IsNotFound\<close> unwraps, and prefixes its text.
\<close>

datatype reason = ReasonNotFound | ReasonAlreadyExists | ReasonOther

datatype gerror = ApiError reason string | Panic string | NoResult

fun errText :: "gerror \<Rightarrow> string" where
  "errText (ApiError r m) = m"
| "errText (Panic m) = m"
| "errText NoResult = ''''"

fun errReason :: "gerror \<Rightarrow> reason" where
  "errReason (ApiError r m) = r"
| "errReason (Panic m) = ReasonOther"
| "errReason NoResult = ReasonOther"

definition IsNotFound :: "gerror \<Rightarrow> bool" where
  "IsNotFound e \<longleftrightarrow> errReason e = ReasonNotFound"

definition IsAlreadyExists :: "gerror \<Rightarrow> bool" where
  "IsAlreadyExists e \<longleftrightarrow> errReason e = ReasonAlreadyExists"

definition Errorf :: "string \<Rightarrow> gerror" where
  "Errorf m = ApiError ReasonOther m"

fun wrapErr :: "string \<Rightarrow> gerror \<Rightarrow> gerror" where
  "wrapErr p (ApiError r m) = ApiError r (p @ '': '' @ m)"
| "wrapErr p (Panic m) = Panic m"
| "wrapErr p NoResult = NoResult"

text \<open>\<^verbatim>\<open>client.IgnoreNotFound\<close>\<close>

definition IgnoreNotFound :: "gerror option \<Rightarrow> gerror option" where
  "IgnoreNotFound e = (case e of None \<Rightarrow> None | Some x \<Rightarrow> if IsNotFound x then None else Some x)"

lemma IsNotFound_wrapErr [simp]: "IsNotFound (wrapErr p e) = IsNotFound e"
  by (cases e) (simp_all add: IsNotFound_def)

lemma IgnoreNotFound_None [simp]: "IgnoreNotFound None = None"
  by (simp add: IgnoreNotFound_def)

text \<open>The error of a pair \<open>(value, error)\<close>.\<close>

fun err_of :: "gerror + 'a \<Rightarrow> gerror option" where
  "err_of (Inl e) = Some e"
| "err_of (Inr x) = None"

lemma err_of_None_iff [simp]: "err_of r = None \<longleftrightarrow> (\<exists>x. r = Inr x)"
  by (cases r) auto

section \<open>The state monad\<close>

text \<open>
  Sequencing of the two shapes Go code has: \<open>seq_err m k\<close> is
  \<^verbatim>\<open>if err := m(); err != nil { return err }; k()\<close>.
\<close>

definition seq_err ::
  "('s, gerror option) state \<Rightarrow> ('s, gerror option) state \<Rightarrow> ('s, gerror option) state" where
  "seq_err m k = do { e \<leftarrow> m; (case e of Some x \<Rightarrow> State_Monad.return (Some x) | None \<Rightarrow> k) }"

lemma run_seq_err [simp]:
  "run_state (seq_err m k) s =
     (case run_state m s of (Some x, s') \<Rightarrow> (Some x, s') | (None, s') \<Rightarrow> run_state k s')"
  by (auto simp: seq_err_def split: prod.splits option.splits)

subsection \<open>Computations that keep an observation of the state\<close>

definition keeps :: "('s \<Rightarrow> 'o) \<Rightarrow> ('s, 'a) state \<Rightarrow> bool" where
  "keeps ob m \<longleftrightarrow> (\<forall>s. ob (snd (run_state m s)) = ob s)"

named_theorems keeps_intros \<open>rules for computations that keep an observation\<close>

lemma keepsD: "keeps ob m \<Longrightarrow> run_state m s = (a, s') \<Longrightarrow> ob s' = ob s"
  unfolding keeps_def by (metis snd_conv)

lemma keeps_return [keeps_intros]: "keeps ob (State_Monad.return a)"
  by (simp add: keeps_def)

lemma keeps_bind [keeps_intros]: "keeps ob m \<Longrightarrow> (\<And>a. keeps ob (f a)) \<Longrightarrow> keeps ob (State_Monad.bind m f)"
  by (auto simp: keeps_def split: prod.split) (metis snd_conv)

lemma keeps_if [keeps_intros]: "keeps ob m \<Longrightarrow> keeps ob n \<Longrightarrow> keeps ob (if b then m else n)"
  by simp

lemma keeps_case_option [keeps_intros]:
  "keeps ob m \<Longrightarrow> (\<And>a. keeps ob (f a)) \<Longrightarrow> keeps ob (case x of None \<Rightarrow> m | Some a \<Rightarrow> f a)"
  by (cases x) simp_all

lemma keeps_case_sum [keeps_intros]:
  "(\<And>e. keeps ob (f e)) \<Longrightarrow> (\<And>a. keeps ob (g a)) \<Longrightarrow> keeps ob (case x of Inl e \<Rightarrow> f e | Inr a \<Rightarrow> g a)"
  by (cases x) simp_all

lemma keeps_case_prod [keeps_intros]: "(\<And>a b. keeps ob (f a b)) \<Longrightarrow> keeps ob (case x of (a, b) \<Rightarrow> f a b)"
  by (cases x) simp

section \<open>Sorting by a comparison function\<close>

text \<open>
  What \<^verbatim>\<open>sort.Slice\<close> asks of its function: a strict weak ordering. \<open>sort_by\<close> is one sort that keeps
  the promise of \<^verbatim>\<open>sort.Slice\<close>: no element of the result is less than one before it.
\<close>

definition strict_weak :: "('a \<Rightarrow> 'a \<Rightarrow> bool) \<Rightarrow> bool" where
  "strict_weak lt \<longleftrightarrow> (\<forall>a. \<not> lt a a) \<and> (\<forall>a b c. lt a b \<longrightarrow> lt b c \<longrightarrow> lt a c) \<and>
     (\<forall>a b c. \<not> lt a b \<longrightarrow> \<not> lt b c \<longrightarrow> \<not> lt a c)"

fun insert_by :: "('a \<Rightarrow> 'a \<Rightarrow> bool) \<Rightarrow> 'a \<Rightarrow> 'a list \<Rightarrow> 'a list" where
  "insert_by lt x [] = [x]"
| "insert_by lt x (y # ys) = (if lt y x then y # insert_by lt x ys else x # y # ys)"

fun sort_by :: "('a \<Rightarrow> 'a \<Rightarrow> bool) \<Rightarrow> 'a list \<Rightarrow> 'a list" where
  "sort_by lt [] = []"
| "sort_by lt (x # xs) = insert_by lt x (sort_by lt xs)"

lemma mset_insert_by [simp]: "mset (insert_by lt x xs) = add_mset x (mset xs)"
  by (induction xs) auto

lemma set_insert_by [simp]: "set (insert_by lt x xs) = insert x (set xs)"
  by (induction xs) auto

lemma mset_sort_by [simp]: "mset (sort_by lt xs) = mset xs"
  by (induction xs) simp_all

lemma sorted_insert_by:
  assumes "strict_weak lt" "sorted_wrt (\<lambda>a b. \<not> lt b a) xs"
  shows "sorted_wrt (\<lambda>a b. \<not> lt b a) (insert_by lt x xs)"
  using assms(2)
proof (induction xs)
  case (Cons y ys)
  have asym: "\<not> lt x y" if "lt y x" using assms(1) that unfolding strict_weak_def by blast
  have trans: "\<not> lt z x" if "\<not> lt z y" "\<not> lt y x" for z using assms(1) that unfolding strict_weak_def by blast
  from Cons asym trans show ?case by auto
qed simp

lemma sorted_sort_by: "strict_weak lt \<Longrightarrow> sorted_wrt (\<lambda>a b. \<not> lt b a) (sort_by lt xs)"
  by (induction xs) (simp_all add: sorted_insert_by)

lemma byte_positive: "(b :: byte) \<noteq> 0 \<Longrightarrow> 0 <s (ucast b :: int32)"
proof -
  assume "b \<noteq> 0"
  then have "0 < uint b" using uint_0_iff [of b] uint_ge_0 [of b] by linarith
  moreover have "uint b < 256" using unsigned_less [of b, where 'a=int] by simp
  with \<open>0 < uint b\<close> have "signed_take_bit 31 (uint b) = uint b" by (intro signed_take_bit_int_eq_self) simp_all
  then have "sint (ucast b :: int32) = uint b" by (simp add: sint_uint uint_up_ucast is_up)
  ultimately show ?thesis by (simp add: word_sless_alt)
qed

end
