(* ===== verification/Cron_Window.thy ===== *)
theory Cron_Window
  imports Go_Prelude
begin

text \<open>
  Maintenance windows: \<^verbatim>\<open>isInMaintenanceWindow\<close>, \<^verbatim>\<open>inWindow\<close> and the hand-written cron helpers of
  \<^verbatim>\<open>internal/controller/enshroudedserver_controller.go\<close>, then the printed form of a cron field
  with its meaning as a set of numbers, against which the helpers are verified.

  A \<^verbatim>\<open>time.Time\<close> is the number of nanoseconds since the epoch. A \<^verbatim>\<open>*time.Location\<close> is the
  offset from UTC in seconds as a function of the Unix time; \<^verbatim>\<open>time.LoadLocation\<close> reads the time
  zone database of the machine, so it is the parameter \<open>LoadLocation\<close> (\<open>None\<close> is an error). The
  expressions reach the code through the API server as JSON strings, so they are valid UTF-8;
  on such a string a loop over runes that only looks for ASCII characters is the loop over bytes
  written here. \<^verbatim>\<open>int\<close> is 64 bit wide and wraps.
\<close>

section \<open>Instants\<close>

type_synonym instant = int
type_synonym location = "int \<Rightarrow> int"

definition UTC :: location where
  "UTC = (\<lambda>_. 0)"

definition Unix :: "instant \<Rightarrow> int" where
  "Unix t = t div 1000000000"

definition local_seconds :: "location \<Rightarrow> instant \<Rightarrow> int" where
  "local_seconds loc t = Unix t + loc (Unix t)"

text \<open>\<^verbatim>\<open>t.In(loc).Hour()\<close> and \<^verbatim>\<open>t.In(loc).Weekday()\<close> (Sunday is 0; the epoch was a Thursday).\<close>

definition Hour :: "location \<Rightarrow> instant \<Rightarrow> int" where
  "Hour loc t = local_seconds loc t mod 86400 div 3600"

definition Weekday :: "location \<Rightarrow> instant \<Rightarrow> int" where
  "Weekday loc t = (local_seconds loc t div 86400 + 4) mod 7"

section \<open>The code\<close>

fun atoi_loop :: "goint \<Rightarrow> string \<Rightarrow> goint" where
  "atoi_loop n [] = n"
| "atoi_loop n (c # cs) =
     (if is_digit c then atoi_loop (n * 10 + of_nat (digit_val c)) cs else atoi_loop n cs)"

definition atoi :: "string \<Rightarrow> goint" where
  "atoi s = atoi_loop 0 s"

fun matchRange_loop :: "string \<Rightarrow> nat \<Rightarrow> string \<Rightarrow> goint \<Rightarrow> bool" where
  "matchRange_loop part i [] value = (atoi part = value)"
| "matchRange_loop part i (c # cs) value =
     (if c = CHR ''-'' then
        (let lo = atoi (take i part); hi = atoi (drop (i + 1) part)
         in sint lo \<le> sint value \<and> sint value \<le> sint hi)
      else matchRange_loop part (i + 1) cs value)"

definition matchRange :: "string \<Rightarrow> goint \<Rightarrow> bool" where
  "matchRange part value = matchRange_loop part 0 part value"

fun splitByComma_loop :: "string list \<Rightarrow> string \<Rightarrow> string \<Rightarrow> string list" where
  "splitByComma_loop out cur [] = out @ [cur]"
| "splitByComma_loop out cur (c # cs) =
     (if c = CHR '','' then splitByComma_loop (out @ [cur]) [] cs
      else splitByComma_loop out (cur @ [c]) cs)"

definition splitByComma :: "string \<Rightarrow> string list" where
  "splitByComma s = splitByComma_loop [] [] s"

definition matchCronField :: "string \<Rightarrow> goint \<Rightarrow> bool" where
  "matchCronField field value =
     (if field = ''*'' then True
      else list_ex (\<lambda>part. matchRange part value) (splitByComma field))"

definition is_blank :: "char \<Rightarrow> bool" where
  "is_blank c \<longleftrightarrow> c = CHR '' '' \<or> c = CHR 0x09"

fun splitFields_loop :: "string list \<Rightarrow> string \<Rightarrow> string \<Rightarrow> string list" where
  "splitFields_loop fields cur [] = (if cur \<noteq> [] then fields @ [cur] else fields)"
| "splitFields_loop fields cur (c # cs) =
     (if is_blank c then
        (if cur \<noteq> [] then splitFields_loop (fields @ [cur]) [] cs
         else splitFields_loop fields cur cs)
      else splitFields_loop fields (cur @ [c]) cs)"

definition splitFields :: "string \<Rightarrow> string list" where
  "splitFields s = splitFields_loop [] [] s"

text \<open>The scan for the end of the time zone name.\<close>

function scan_tz :: "string \<Rightarrow> nat \<Rightarrow> nat" where
  "scan_tz expr end =
     (if end < length expr \<and> expr ! end \<noteq> CHR '' '' then scan_tz expr (end + 1) else end)"
  by pat_completeness auto
termination
  by (relation "measure (\<lambda>(expr, end). length expr - end)") auto

declare scan_tz.simps [simp del]

definition inWindow :: "(string \<Rightarrow> location option) \<Rightarrow> instant \<Rightarrow> string \<Rightarrow> bool" where
  "inWindow LoadLocation t expr =
     (let (loc, rest) =
        (if length expr > 3 \<and> take 3 expr = ''TZ='' then
           (let end = scan_tz expr 3;
                tzName = drop 3 (take end expr);
                loc = (case LoadLocation tzName of Some l \<Rightarrow> l | None \<Rightarrow> UTC);
                rest = (if end < length expr then drop (end + 1) expr else expr)
            in (loc, rest))
         else (UTC, expr));
        fields = splitFields rest
      in if length fields \<noteq> 5 then False
         else if \<not> matchCronField (fields ! 1) (word_of_int (Hour loc t)) then False
         else if \<not> matchCronField (fields ! 4) (word_of_int (Weekday loc t)) then False
         else True)"

definition isInMaintenanceWindow ::
  "(string \<Rightarrow> location option) \<Rightarrow> instant \<Rightarrow> string list \<Rightarrow> bool" where
  "isInMaintenanceWindow LoadLocation now windows =
     (if windows = [] then False else list_ex (inWindow LoadLocation now) windows)"

section \<open>The meaning of a cron field\<close>

text \<open>
  What the comment of \<^verbatim>\<open>matchCronField\<close> promises: a star, or a list of values and ranges.
\<close>

datatype cron_item = Single nat | Range nat nat

datatype cron_field = Star | Items cron_item "cron_item list"

fun print_item :: "cron_item \<Rightarrow> string" where
  "print_item (Single n) = show_nat n"
| "print_item (Range lo hi) = show_nat lo @ ''-'' @ show_nat hi"

fun print_field :: "cron_field \<Rightarrow> string" where
  "print_field Star = ''*''"
| "print_field (Items i is) = print_item i @ concat (map (\<lambda>j. '','' @ print_item j) is)"

fun item_denotes :: "cron_item \<Rightarrow> int set" where
  "item_denotes (Single n) = {int n}"
| "item_denotes (Range lo hi) = {int lo..int hi}"

fun field_denotes :: "cron_field \<Rightarrow> int set" where
  "field_denotes Star = UNIV"
| "field_denotes (Items i is) = (\<Union>j \<in> set (i # is). item_denotes j)"

fun item_bounded :: "cron_item \<Rightarrow> bool" where
  "item_bounded (Single n) = (n < 2 ^ 63)"
| "item_bounded (Range lo hi) = (lo < 2 ^ 63 \<and> hi < 2 ^ 63)"

fun field_bounded :: "cron_field \<Rightarrow> bool" where
  "field_bounded Star = True"
| "field_bounded (Items i is) = list_all item_bounded (i # is)"

definition is_token :: "string \<Rightarrow> bool" where
  "is_token s \<longleftrightarrow> s \<noteq> [] \<and> list_all (\<lambda>c. \<not> is_blank c) s"

definition print_window :: "string option \<Rightarrow> string \<Rightarrow> cron_field \<Rightarrow> string \<Rightarrow> string \<Rightarrow> cron_field \<Rightarrow> string"
  where
  "print_window tz mn hr dm mon dow =
     (case tz of Some z \<Rightarrow> ''TZ='' @ z @ '' '' | None \<Rightarrow> []) @
     mn @ '' '' @ print_field hr @ '' ''  @ dm @ '' '' @ mon @ '' '' @ print_field dow"

definition zone :: "(string \<Rightarrow> location option) \<Rightarrow> string option \<Rightarrow> location" where
  "zone LoadLocation tz =
     (case tz of None \<Rightarrow> UTC | Some z \<Rightarrow> (case LoadLocation z of Some l \<Rightarrow> l | None \<Rightarrow> UTC))"

section \<open>Numbers\<close>

lemma atoi_loop_read:
  "atoi_loop n s = foldl (\<lambda>m c. m * 10 + of_nat (digit_val c)) n (filter is_digit s)"
  by (induction s arbitrary: n) auto

lemma foldl_of_nat:
  "foldl (\<lambda>m c. m * 10 + of_nat (digit_val c)) (of_nat n) s =
     (of_nat (foldl (\<lambda>m c. m * 10 + digit_val c) n s) :: goint)"
proof (induction s arbitrary: n)
  case Nil
  then show ?case by simp
next
  case (Cons c s)
  have "(of_nat n * 10 + of_nat (digit_val c) :: goint) = of_nat (n * 10 + digit_val c)"
    by simp
  then show ?case by (simp only: foldl_Cons Cons.IH)
qed

lemma atoi_of_nat: "atoi s = of_nat (read_nat (filter is_digit s))"
  using foldl_of_nat [of 0 "filter is_digit s"]
  by (simp add: atoi_def atoi_loop_read read_nat_def)

lemma filter_digits_show_nat [simp]: "filter is_digit (show_nat n) = show_nat n"
  using show_nat_digits [of n] by (simp add: filter_id_conv)

lemma atoi_show_nat [simp]: "atoi (show_nat n) = of_nat n"
  by (simp add: atoi_of_nat)

lemma sint_of_nat_goint: "n < 2 ^ 63 \<Longrightarrow> sint (of_nat n :: goint) = int n"
  by (simp add: signed_of_nat signed_take_bit_int_eq_self)

lemma sint_word_of_int_goint:
  "- (2 ^ 63) \<le> i \<Longrightarrow> i < 2 ^ 63 \<Longrightarrow> sint (word_of_int i :: goint) = i"
  by (simp add: signed_of_int signed_take_bit_int_eq_self)

lemma goint_eq_iff_sint: "(a :: goint) = b \<longleftrightarrow> sint a = sint b"
  by (simp add: word_eq_iff_signed)

section \<open>Fields\<close>

lemma matchRange_loop_no_dash:
  "CHR ''-'' \<notin> set cs \<Longrightarrow> matchRange_loop part i cs v = (atoi part = v)"
  by (induction cs arbitrary: i) auto

lemma matchRange_loop_dash:
  "CHR ''-'' \<notin> set xs \<Longrightarrow>
   matchRange_loop part i (xs @ ''-'' @ ys) v =
     (sint (atoi (take (i + length xs) part)) \<le> sint v \<and>
      sint v \<le> sint (atoi (drop (i + length xs + 1) part)))"
  by (induction xs arbitrary: i) (auto simp: Let_def)

lemma matchRange_single: "matchRange (show_nat n) v \<longleftrightarrow> of_nat n = v"
  by (simp add: matchRange_def matchRange_loop_no_dash minus_not_digit)

lemma matchRange_range:
  "matchRange (show_nat lo @ ''-'' @ show_nat hi) v \<longleftrightarrow>
     sint (of_nat lo :: goint) \<le> sint v \<and> sint v \<le> sint (of_nat hi :: goint)"
  by (simp add: matchRange_def matchRange_loop_dash [simplified] minus_not_digit)

lemma matchRange_print_item:
  "item_bounded it \<Longrightarrow> matchRange (print_item it) v \<longleftrightarrow> sint v \<in> item_denotes it"
  by (cases it)
     (auto simp: matchRange_single matchRange_range [simplified] sint_of_nat_goint goint_eq_iff_sint)

lemma splitByComma_loop_token:
  "CHR '','' \<notin> set xs \<Longrightarrow> splitByComma_loop out cur xs = out @ [cur @ xs]"
  by (induction xs arbitrary: cur) auto

lemma splitByComma_loop_comma:
  "CHR '','' \<notin> set xs \<Longrightarrow>
   splitByComma_loop out cur (xs @ '','' @ ys) = splitByComma_loop (out @ [cur @ xs]) [] ys"
  by (induction xs arbitrary: cur) auto

lemma comma_not_in_item [simp]: "CHR '','' \<notin> set (print_item it)"
proof -
  have "CHR '','' \<notin> set (show_nat n)" for n
    using show_nat_digits [of n] by (auto simp: is_digit_def)
  then show ?thesis by (cases it) auto
qed

lemma splitByComma_loop_items:
  "splitByComma_loop out [] (print_item i @ concat (map (\<lambda>j. '','' @ print_item j) is)) =
     out @ map print_item (i # is)"
proof (induction "is" arbitrary: i out)
  case Nil
  then show ?case by (simp add: splitByComma_loop_token)
next
  case (Cons j js)
  have "splitByComma_loop out [] (print_item i @ '','' @
          (print_item j @ concat (map (\<lambda>j. '','' @ print_item j) js))) =
        splitByComma_loop (out @ [print_item i]) []
          (print_item j @ concat (map (\<lambda>j. '','' @ print_item j) js))"
    by (subst splitByComma_loop_comma) simp_all
  also have "\<dots> = out @ map print_item (i # j # js)"
    by (subst Cons.IH) simp
  finally show ?case by simp
qed

lemma splitByComma_print_field:
  "splitByComma (print_field (Items i is)) = map print_item (i # is)"
  by (simp add: splitByComma_def splitByComma_loop_items [of "[]", simplified])

lemma show_nat_not_star [simp]: "show_nat n @ xs \<noteq> CHR ''*'' # ys"
proof
  assume "show_nat n @ xs = CHR ''*'' # ys"
  then have "CHR ''*'' \<in> set (show_nat n)"
    by (cases "show_nat n") auto
  then show False using show_nat_digits [of n] by (auto simp: is_digit_def)
qed

lemma print_items_not_star: "print_field (Items i is) \<noteq> ''*''"
  by (cases i) simp_all

lemma matchCronField_print:
  assumes "field_bounded f"
  shows "matchCronField (print_field f) v \<longleftrightarrow> sint v \<in> field_denotes f"
proof (cases f)
  case Star
  then show ?thesis by (simp add: matchCronField_def)
next
  case (Items i "is")
  have "matchCronField (print_field f) v \<longleftrightarrow> (\<exists>j \<in> set (i # is). matchRange (print_item j) v)"
    using print_items_not_star [of i "is"]
    by (simp add: Items matchCronField_def splitByComma_print_field list_ex_iff
             del: print_field.simps)
  also have "\<dots> \<longleftrightarrow> (\<exists>j \<in> set (i # is). sint v \<in> item_denotes j)"
    using assms Items by (auto simp: matchRange_print_item list_all_iff)
  finally show ?thesis by (simp add: Items)
qed

section \<open>Splitting an expression\<close>

lemma splitFields_loop_token:
  "list_all (\<lambda>c. \<not> is_blank c) xs \<Longrightarrow> splitFields_loop fs cur (xs @ ys) = splitFields_loop fs (cur @ xs) ys"
  by (induction xs arbitrary: cur) auto

lemma splitFields_loop_sep:
  assumes "is_token xs"
  shows "splitFields_loop fs [] (xs @ '' '' @ ys) = splitFields_loop (fs @ [xs]) [] ys"
proof -
  have "splitFields_loop fs [] (xs @ '' '' @ ys) = splitFields_loop fs xs ('' '' @ ys)"
    using assms by (subst splitFields_loop_token) (simp_all add: is_token_def)
  then show ?thesis using assms by (simp add: is_token_def is_blank_def)
qed

lemma splitFields_loop_last: "is_token xs \<Longrightarrow> splitFields_loop fs [] xs = fs @ [xs]"
  using splitFields_loop_token [of xs fs "[]" "[]"] by (simp add: is_token_def)

lemma splitFields_five:
  assumes "is_token a" "is_token b" "is_token c" "is_token d" "is_token e"
  shows "splitFields (a @ '' '' @ b @ '' '' @ c @ '' '' @ d @ '' '' @ e) = [a, b, c, d, e]"
  using assms by (simp only: splitFields_def splitFields_loop_sep splitFields_loop_last) simp

text \<open>In general: the fields are tokens, and they are the text without its blanks.\<close>

lemma splitFields_loop_tokens:
  assumes "list_all (\<lambda>c. \<not> is_blank c) cur" "list_all is_token fs"
  shows "list_all is_token (splitFields_loop fs cur s)"
  using assms
  by (induction s arbitrary: fs cur) (auto simp: is_token_def)

lemma splitFields_loop_concat:
  "concat (splitFields_loop fs cur s) = concat fs @ cur @ filter (\<lambda>c. \<not> is_blank c) s"
  by (induction s arbitrary: fs cur) auto

lemma is_token_show_nat: "is_token (show_nat n)"
  using show_nat_digits [of n]
  by (auto simp: is_token_def list_all_iff is_blank_def is_digit_def)

lemma is_token_append: "is_token xs \<Longrightarrow> list_all (\<lambda>c. \<not> is_blank c) ys \<Longrightarrow> is_token (xs @ ys)"
  by (simp add: is_token_def)

lemma is_token_item: "is_token (print_item it)"
proof (cases it)
  case (Single n)
  then show ?thesis by (simp add: is_token_show_nat)
next
  case (Range lo hi)
  have "list_all (\<lambda>c. \<not> is_blank c) (''-'' @ show_nat hi)"
    using is_token_show_nat [of hi] by (simp add: is_token_def is_blank_def)
  with is_token_append [OF is_token_show_nat [of lo] this] Range show ?thesis by simp
qed

lemma is_token_field: "is_token (print_field f)"
proof (cases f)
  case Star
  then show ?thesis by (simp add: is_token_def is_blank_def)
next
  case (Items i "is")
  have "list_all (\<lambda>c. \<not> is_blank c) (concat (map (\<lambda>j. '','' @ print_item j) is))"
    using is_token_item by (auto simp: list_all_iff is_token_def is_blank_def)
  with is_token_item [of i] Items show ?thesis by (simp add: is_token_append)
qed

section \<open>The time zone prefix\<close>

lemma scan_tz_token:
  assumes "CHR '' '' \<notin> set z"
  shows "scan_tz (p @ z @ '' '' @ ys) (length p) = length p + length z"
  using assms
proof (induction z arbitrary: p)
  case Nil
  then show ?case by (simp add: scan_tz.simps)
next
  case (Cons c z)
  have "scan_tz ((p @ [c]) @ z @ '' '' @ ys) (length (p @ [c])) = length (p @ [c]) + length z"
    using Cons by (intro Cons.IH) simp
  with Cons.prems show ?case
    by (subst scan_tz.simps) (auto simp: nth_append)
qed

lemma inWindow_tz:
  assumes "CHR '' '' \<notin> set z"
  shows "inWindow LoadLocation t (''TZ='' @ z @ '' '' @ rest) =
    (let fields = splitFields rest; loc = zone LoadLocation (Some z) in
       length fields = 5 \<and> matchCronField (fields ! 1) (word_of_int (Hour loc t)) \<and>
       matchCronField (fields ! 4) (word_of_int (Weekday loc t)))"
proof -
  have "scan_tz (''TZ='' @ z @ '' '' @ rest) 3 = 3 + length z"
    using scan_tz_token [OF assms, of "''TZ=''" rest] by (simp add: numeral_3_eq_3)
  moreover have "drop 3 (take (3 + length z) (''TZ='' @ z @ '' '' @ rest)) = z"
    by (simp add: drop_take)
  moreover have "drop (3 + length z + 1) (''TZ='' @ z @ '' '' @ rest) = rest"
    by (simp add: eval_nat_numeral)
  ultimately show ?thesis
    by (simp add: inWindow_def zone_def Let_def del: append_Cons)
qed

lemma inWindow_no_tz:
  assumes "take 3 expr \<noteq> ''TZ=''"
  shows "inWindow LoadLocation t expr =
    (let fields = splitFields expr in
       length fields = 5 \<and> matchCronField (fields ! 1) (word_of_int (Hour UTC t)) \<and>
       matchCronField (fields ! 4) (word_of_int (Weekday UTC t)))"
  using assms by (simp add: inWindow_def Let_def)

lemma take3_not_TZ:
  assumes "is_token mn" "take 3 mn \<noteq> ''TZ=''"
  shows "take 3 (mn @ '' '' @ xs) \<noteq> ''TZ=''"
proof -
  consider a where "mn = [a]" | a b where "mn = [a, b]" | a b c cs where "mn = a # b # c # cs"
    using assms(1) by (metis is_token_def list.exhaust)
  then show ?thesis using assms(2) by cases auto
qed

section \<open>Hours and weekdays\<close>

lemma Hour_range: "0 \<le> Hour loc t" "Hour loc t < 24"
proof -
  show "0 \<le> Hour loc t" by (simp add: Hour_def pos_imp_zdiv_nonneg_iff)
  show "Hour loc t < 24"
    using pos_mod_bound [of 86400 "local_seconds loc t"] by (simp add: Hour_def)
qed

lemma Weekday_range: "0 \<le> Weekday loc t" "Weekday loc t < 7"
  by (simp_all add: Weekday_def)

lemma sint_Hour [simp]: "sint (word_of_int (Hour loc t) :: goint) = Hour loc t"
  using Hour_range [of loc t] by (intro sint_word_of_int_goint) simp_all

lemma sint_Weekday [simp]: "sint (word_of_int (Weekday loc t) :: goint) = Weekday loc t"
  using Weekday_range [of loc t] by (intro sint_word_of_int_goint) simp_all

lemma isInMaintenanceWindow_iff:
  "isInMaintenanceWindow LoadLocation now ws \<longleftrightarrow> (\<exists>w \<in> set ws. inWindow LoadLocation now w)"
  by (auto simp: isInMaintenanceWindow_def list_ex_iff)

section \<open>Properties\<close>

text \<open>
  C25. A maintenance window written as the API documents it (an optional time zone, then five
  fields whose hour and weekday fields are a star or a list of values and ranges) is open exactly
  when the hour and the weekday of the zone's local time belong to the sets these fields denote.
  Minute, day of month and month are ignored, and an unknown time zone is UTC.
\<close>

theorem inWindow_print_window:
  assumes "field_bounded hr" "field_bounded dow"
    and "is_token mn" "is_token dm" "is_token mon"
    and "case tz of Some z \<Rightarrow> CHR '' '' \<notin> set z | None \<Rightarrow> take 3 mn \<noteq> ''TZ=''"
  shows "inWindow LoadLocation t (print_window tz mn hr dm mon dow) \<longleftrightarrow>
           Hour (zone LoadLocation tz) t \<in> field_denotes hr \<and>
           Weekday (zone LoadLocation tz) t \<in> field_denotes dow"
proof -
  have fields: "splitFields (mn @ '' '' @ print_field hr @ '' '' @ dm @ '' '' @ mon @ '' '' @ print_field dow)
      = [mn, print_field hr, dm, mon, print_field dow]"
    using assms by (intro splitFields_five is_token_field)
  show ?thesis
  proof (cases tz)
    case None
    have "take 3 (mn @ '' '' @ print_field hr @ '' '' @ dm @ '' '' @ mon @ '' '' @ print_field dow)
        \<noteq> ''TZ=''"
      using assms(3,6) None by (rule_tac take3_not_TZ) simp_all
    from inWindow_no_tz [OF this] None assms(1,2) fields show ?thesis
      by (simp only: print_window_def zone_def option.case append_Nil Let_def)
         (simp add: matchCronField_print)
  next
    case (Some z)
    with assms fields show ?thesis
      by (simp add: print_window_def inWindow_tz matchCronField_print Let_def
               del: append_Cons)
  qed
qed

theorem inWindow_print_window_witness:
  "inWindow (\<lambda>z. if z = ''Etc/GMT-2'' then Some (\<lambda>_. 7200) else None) (1 * 3600 * 1000000000)
     (print_window (Some ''Etc/GMT-2'') ''0'' (Items (Range 2 4) []) ''*'' ''*'' Star)"
  by (subst inWindow_print_window)
     (simp_all add: is_token_def is_blank_def zone_def Hour_def local_seconds_def Unix_def)

end
