(* ===== verification/Api_Types.thy ===== *)
theory Api_Types
  imports Cron_Window
begin

text \<open>
  The data of the program. First the custom resource of \<^verbatim>\<open>api/v1alpha1/enshroudedserver_types.go\<close>,
  one record per Go struct with the struct's fields in its order. Then the Kubernetes objects the
  operator reads and writes, with the fields its code names; the fields of an object that it
  never names are kept together in one opaque field (\<open>..._other\<close>), so that what an update keeps
  can be stated. The unstructured \<^verbatim>\<open>VolumeSnapshot\<close> and \<^verbatim>\<open>VerticalPodAutoscaler\<close> objects are
  records over the nested fields the code accesses: \<open>None\<close> where a nested accessor finds nothing
  of the expected type.

  A pointer is an option (\<open>None\<close> is \<^verbatim>\<open>nil\<close>), a Go map is a HOL map, a string-typed enum stays a
  string because the code compares it with the empty string as well. \<^verbatim>\<open>resource.Quantity\<close> is
  code of another module: it is the type parameter \<open>'q\<close>.
\<close>

type_synonym labels = "string \<rightharpoonup> string"
type_synonym 'q ResourceList = "string \<rightharpoonup> 'q"

text \<open>Fields of an object that the operator does not name: (path, value) pairs.\<close>

type_synonym raw = "(string \<times> string) list"

section \<open>The custom resource\<close>

record OwnerReference =
  or_Kind :: string
  or_Name :: string
  or_UID :: string
  or_Controller :: bool

record ObjectMeta =
  om_Name :: string
  om_Namespace :: string
  om_Labels :: labels
  om_Finalizers :: "string list"
  om_OwnerReferences :: "OwnerReference list"
  om_DeletionTimestamp :: "instant option"
  om_CreationTimestamp :: instant
  om_Generation :: int
  om_UID :: string

record SecretKeySelector =
  skr_Name :: string
  skr_Key :: string

record ImageSpec =
  Repository :: string
  Tag :: string
  PullPolicy :: string

record 'q StorageSpec =
  Size :: 'q
  StorageClassName :: "string option"
  RetainOnDelete :: "bool option"

record UserGroup =
  ug_Name :: string
  ug_PasswordSecretRef :: "SecretKeySelector option"
  ug_CanKickBan :: bool
  ug_CanAccessInventories :: bool
  ug_CanEditWorld :: bool
  ug_CanEditBase :: bool
  ug_CanExtendBase :: bool
  ug_ReservedSlots :: int32

record 'q VerticalScalingSpec =
  vsc_Enabled :: bool
  vsc_UpdateMode :: string
  vsc_MinAllowed :: "'q ResourceList"
  vsc_MaxAllowed :: "'q ResourceList"

record MetricsSidecarSpec =
  ms_Enabled :: bool
  ms_Image :: string
  ms_MetricsPort :: int32
  ms_ScrapeIntervalSeconds :: int32

record VolumeSnapshotBackupSpec =
  vsb_Enabled :: bool
  vsb_Schedule :: string
  vsb_RetainCount :: int32
  vsb_VolumeSnapshotClassName :: "string option"

record S3BackupSpec =
  s3_BucketURL :: string
  s3_CredentialsSecretRef :: string
  s3_Schedule :: string
  s3_Image :: string

record BackupSpec =
  bk_VolumeSnapshot :: VolumeSnapshotBackupSpec
  bk_S3 :: "S3BackupSpec option"

record UpdatePolicySpec =
  DeferWhilePlaying :: bool
  MaintenanceWindows :: "string list"
  UpgradeStrategy :: string

record 'q ResourceRequirements =
  Requests :: "'q ResourceList"
  Limits :: "'q ResourceList"

record 'q EnshroudedServerSpec =
  ServerName :: string
  ServerPasswordSecretRef :: "SecretKeySelector option"
  Port :: int32
  SteamPort :: int32
  ServerSlots :: int32
  ServerIP :: string
  Image :: ImageSpec
  Resources :: "'q ResourceRequirements"
  Storage :: "'q StorageSpec"
  UserGroups :: "UserGroup list"
  UpdatePolicy :: UpdatePolicySpec
  Backup :: BackupSpec
  MetricsSidecar :: MetricsSidecarSpec
  VerticalScaling :: "'q VerticalScalingSpec"

definition VPAUpdateModeOff :: string where "VPAUpdateModeOff = ''Off''"
definition VPAUpdateModeWhenIdle :: string where "VPAUpdateModeWhenIdle = ''WhenIdle''"
definition VPAUpdateModeInPlace :: string where "VPAUpdateModeInPlace = ''InPlace''"

definition UpgradeStrategyNoSnapshot :: string where
  "UpgradeStrategyNoSnapshot = ''NoSnapshot''"
definition UpgradeStrategySnapshotBeforeUpdate :: string where
  "UpgradeStrategySnapshotBeforeUpdate = ''SnapshotBeforeUpdate''"
definition UpgradeStrategyStrictSnapshotBeforeUpdate :: string where
  "UpgradeStrategyStrictSnapshotBeforeUpdate = ''StrictSnapshotBeforeUpdate''"

definition EnshroudedServerPhasePending :: string where
  "EnshroudedServerPhasePending = ''Pending''"
definition EnshroudedServerPhaseRunning :: string where
  "EnshroudedServerPhaseRunning = ''Running''"
definition EnshroudedServerPhaseUpdating :: string where
  "EnshroudedServerPhaseUpdating = ''Updating''"
definition EnshroudedServerPhaseError :: string where
  "EnshroudedServerPhaseError = ''Error''"
definition ConditionReady :: string where "ConditionReady = ''Ready''"
definition ConditionUpdateDeferred :: string where "ConditionUpdateDeferred = ''UpdateDeferred''"

lemmas api_consts [go_simps] =
  VPAUpdateModeOff_def VPAUpdateModeWhenIdle_def VPAUpdateModeInPlace_def
  UpgradeStrategyNoSnapshot_def UpgradeStrategySnapshotBeforeUpdate_def
  UpgradeStrategyStrictSnapshotBeforeUpdate_def EnshroudedServerPhasePending_def
  EnshroudedServerPhaseRunning_def EnshroudedServerPhaseUpdating_def
  EnshroudedServerPhaseError_def ConditionReady_def ConditionUpdateDeferred_def

record Condition =
  cd_Type :: string
  cd_Status :: string
  cd_Reason :: string
  cd_Message :: string
  cd_ObservedGeneration :: int

record EnshroudedServerStatus =
  Phase :: string
  ReadyReplicas :: int32
  ActivePlayers :: int32
  GameVersion :: string
  UpdateDeferred :: bool
  Conditions :: "Condition list"

record 'q EnshroudedServer =
  es_Meta :: ObjectMeta
  Spec :: "'q EnshroudedServerSpec"
  Status :: EnshroudedServerStatus

section \<open>Kubernetes objects\<close>

datatype EnvVarSource = FieldRef string | SecretKeyRef SecretKeySelector

record EnvVar =
  ev_Name :: string
  ev_Value :: string
  ev_ValueFrom :: "EnvVarSource option"

datatype Protocol = UDP | TCP

record ContainerPort =
  cp_Name :: string
  cp_ContainerPort :: int32
  cp_Protocol :: Protocol

record Probe =
  pr_Path :: string
  pr_Port :: int32
  pr_InitialDelaySeconds :: int32
  pr_PeriodSeconds :: int32
  pr_FailureThreshold :: int32
  pr_SuccessThreshold :: int32

record VolumeMount =
  vm_Name :: string
  vm_MountPath :: string
  vm_ReadOnly :: bool

datatype VolumeSource = PersistentVolumeClaimSource string | SecretSource string

record Volume =
  vol_Name :: string
  vol_Source :: VolumeSource

record SecurityContext =
  sc_AllowPrivilegeEscalation :: "bool option"
  sc_ReadOnlyRootFilesystem :: "bool option"
  sc_RunAsNonRoot :: "bool option"
  sc_CapabilitiesDrop :: "string list"

record 'q Container =
  ct_Name :: string
  ct_Image :: string
  ct_ImagePullPolicy :: string
  ct_Command :: "string list"
  ct_Env :: "EnvVar list"
  ct_EnvFrom :: "string list"
  ct_Ports :: "ContainerPort list"
  ct_Resources :: "'q ResourceRequirements"
  ct_VolumeMounts :: "VolumeMount list"
  ct_ReadinessProbe :: "Probe option"
  ct_LivenessProbe :: "Probe option"
  ct_SecurityContext :: "SecurityContext option"

record 'q PodTemplateSpec =
  pt_Labels :: labels
  pt_Annotations :: "string \<rightharpoonup> string"
  pt_ServiceAccountName :: string
  pt_RunAsUser :: "int option"
  pt_RunAsGroup :: "int option"
  pt_FSGroup :: "int option"
  pt_Containers :: "'q Container list"
  pt_Volumes :: "Volume list"

record 'q StatefulSet =
  sts_Meta :: ObjectMeta
  sts_Replicas :: "int32 option"
  sts_ServiceName :: string
  sts_Selector :: labels
  sts_Template :: "'q PodTemplateSpec"
  sts_ReadyReplicas :: int32
  sts_CurrentRevision :: string
  sts_UpdateRevision :: string
  sts_other :: raw

record ServicePort =
  sp_Name :: string
  sp_Port :: int32
  sp_Protocol :: Protocol

record Service =
  svc_Meta :: ObjectMeta
  svc_Type :: string
  svc_Selector :: labels
  svc_Ports :: "ServicePort list"
  svc_other :: raw

record 'q PersistentVolumeClaim =
  pvc_Meta :: ObjectMeta
  pvc_AccessModes :: "string list"
  pvc_Storage :: 'q
  pvc_StorageClassName :: "string option"

record Secret =
  sec_Meta :: ObjectMeta
  sec_Data :: "string \<rightharpoonup> string"

record NetworkPolicyPort =
  npp_Protocol :: Protocol
  npp_Port :: int32

record IPBlock =
  ipb_CIDR :: string
  ipb_Except :: "string list"

record NetworkPolicyIngressRule =
  npi_Ports :: "NetworkPolicyPort list"

record NetworkPolicyEgressRule =
  npe_Ports :: "NetworkPolicyPort list"
  npe_To :: "IPBlock list"

datatype PolicyType = PolicyTypeIngress | PolicyTypeEgress

record NetworkPolicySpec =
  nps_PodSelector :: labels
  nps_PolicyTypes :: "PolicyType list"
  nps_Ingress :: "NetworkPolicyIngressRule list"
  nps_Egress :: "NetworkPolicyEgressRule list"

record NetworkPolicy =
  np_Meta :: ObjectMeta
  np_Spec :: NetworkPolicySpec

record ServiceAccount =
  sa_Meta :: ObjectMeta

record PolicyRule =
  rule_APIGroups :: "string list"
  rule_Resources :: "string list"
  rule_Verbs :: "string list"

record Role =
  role_Meta :: ObjectMeta
  role_Rules :: "PolicyRule list"

record RoleBinding =
  rb_Meta :: ObjectMeta
  rb_SubjectKind :: string
  rb_SubjectName :: string
  rb_SubjectNamespace :: string
  rb_RoleRefAPIGroup :: string
  rb_RoleRefKind :: string
  rb_RoleRefName :: string

datatype IntOrString = FromInt int32 | FromString string

fun intstr_String :: "IntOrString \<Rightarrow> string" where
  "intstr_String (FromInt i) = show_int (sint i)"
| "intstr_String (FromString s) = s"

record PodDisruptionBudget =
  pdb_Meta :: ObjectMeta
  pdb_MaxUnavailable :: "IntOrString option"
  pdb_Selector :: labels
  pdb_other :: raw

record ContainerPolicy =
  cpol_ContainerName :: string
  cpol_MinAllowed :: "(string \<rightharpoonup> string) option"
  cpol_MaxAllowed :: "(string \<rightharpoonup> string) option"

datatype Recommendation = RecMap "string option" "string option" "string option" | RecOther

record VerticalPodAutoscaler =
  vpa_Meta :: ObjectMeta
  vpa_TargetKind :: string
  vpa_TargetName :: string
  vpa_UpdateMode :: "string option"
  vpa_ContainerPolicies :: "ContainerPolicy list"
  vpa_Recommendations :: "Recommendation list option"
  vpa_other :: raw

record VolumeSnapshot =
  vsn_Meta :: ObjectMeta
  vsn_PersistentVolumeClaimName :: string
  vsn_VolumeSnapshotClassName :: "string option"
  vsn_ErrorMessage :: "string option"
  vsn_ReadyToUse :: "bool option"

datatype kind = KServer | KStatefulSet | KService | KPersistentVolumeClaim | KSecret
  | KNetworkPolicy | KServiceAccount | KRole | KRoleBinding | KPodDisruptionBudget
  | KVerticalPodAutoscaler | KVolumeSnapshot

datatype 'q kobj =
    OServer "'q EnshroudedServer"
  | OStatefulSet "'q StatefulSet"
  | OService Service
  | OPersistentVolumeClaim "'q PersistentVolumeClaim"
  | OSecret Secret
  | ONetworkPolicy NetworkPolicy
  | OServiceAccount ServiceAccount
  | ORole Role
  | ORoleBinding RoleBinding
  | OPodDisruptionBudget PodDisruptionBudget
  | OVerticalPodAutoscaler VerticalPodAutoscaler
  | OVolumeSnapshot VolumeSnapshot

fun kind_of :: "'q kobj \<Rightarrow> kind" where
  "kind_of (OServer x) = KServer"
| "kind_of (OStatefulSet x) = KStatefulSet"
| "kind_of (OService x) = KService"
| "kind_of (OPersistentVolumeClaim x) = KPersistentVolumeClaim"
| "kind_of (OSecret x) = KSecret"
| "kind_of (ONetworkPolicy x) = KNetworkPolicy"
| "kind_of (OServiceAccount x) = KServiceAccount"
| "kind_of (ORole x) = KRole"
| "kind_of (ORoleBinding x) = KRoleBinding"
| "kind_of (OPodDisruptionBudget x) = KPodDisruptionBudget"
| "kind_of (OVerticalPodAutoscaler x) = KVerticalPodAutoscaler"
| "kind_of (OVolumeSnapshot x) = KVolumeSnapshot"

fun meta_of :: "'q kobj \<Rightarrow> ObjectMeta" where
  "meta_of (OServer x) = es_Meta x"
| "meta_of (OStatefulSet x) = sts_Meta x"
| "meta_of (OService x) = svc_Meta x"
| "meta_of (OPersistentVolumeClaim x) = pvc_Meta x"
| "meta_of (OSecret x) = sec_Meta x"
| "meta_of (ONetworkPolicy x) = np_Meta x"
| "meta_of (OServiceAccount x) = sa_Meta x"
| "meta_of (ORole x) = role_Meta x"
| "meta_of (ORoleBinding x) = rb_Meta x"
| "meta_of (OPodDisruptionBudget x) = pdb_Meta x"
| "meta_of (OVerticalPodAutoscaler x) = vpa_Meta x"
| "meta_of (OVolumeSnapshot x) = vsn_Meta x"

text \<open>The identity of an object: its kind, namespace and name.\<close>

type_synonym okey = "kind \<times> string \<times> string"

definition key_of :: "'q kobj \<Rightarrow> okey" where
  "key_of x = (kind_of x, om_Namespace (meta_of x), om_Name (meta_of x))"

section \<open>Names and labels\<close>

definition sname :: "'q EnshroudedServer \<Rightarrow> string" where
  "sname server = om_Name (es_Meta server)"

definition snamespace :: "'q EnshroudedServer \<Rightarrow> string" where
  "snamespace server = om_Namespace (es_Meta server)"

definition labelsForServer :: "string \<Rightarrow> labels" where
  "labelsForServer name = [''app.kubernetes.io/name'' \<mapsto> ''enshrouded-server'',
     ''app.kubernetes.io/instance'' \<mapsto> name,
     ''app.kubernetes.io/managed-by'' \<mapsto> ''enshrouded-operator'']"

text \<open>The metadata of a freshly built object: a name, a namespace and labels.\<close>

definition new_meta :: "string \<Rightarrow> string \<Rightarrow> labels \<Rightarrow> ObjectMeta" where
  "new_meta name ns ls = \<lparr>om_Name = name, om_Namespace = ns, om_Labels = ls, om_Finalizers = [],
     om_OwnerReferences = [], om_DeletionTimestamp = None, om_CreationTimestamp = 0,
     om_Generation = 0, om_UID = []\<rparr>"

lemma new_meta_simps [simp]:
  "om_Name (new_meta n ns ls) = n" "om_Namespace (new_meta n ns ls) = ns"
  "om_Labels (new_meta n ns ls) = ls" "om_OwnerReferences (new_meta n ns ls) = []"
  "om_Finalizers (new_meta n ns ls) = []"
  by (simp_all add: new_meta_def)

definition finalizerName :: string where
  "finalizerName = ''enshrouded.enshrouded.io/finalizer''"

definition configSecretKey :: string where
  "configSecretKey = ''enshrouded_server.json''"

definition configMountPath :: string where
  "configMountPath = ''/config''"

end
