(* ===== verification/Kube_Client.thy ===== *)
theory Kube_Client
  imports Api_Types
begin

text \<open>
  What the operator calls that is not its own code: the API server behind \<^verbatim>\<open>client.Client\<close>, the
  clock, the Prometheus gauges, and helper functions of controller-runtime and apimachinery. They
  are the parameters of the development, collected in the record \<open>platform\<close>; every definition
  that uses one takes the platform as its first argument. The environment behind them is a value
  of an arbitrary type \<open>'w\<close> that every call may change, so nothing is assumed about failures,
  about other clients of the API server or about time, unless a theorem says so.

  The state of the reconciler's monad is a \<open>world\<close>: the environment and the sequence of calls made
  so far with their answers (the trace, which no definition reads). \<open>emits \<phi> m\<close> says that every
  call \<open>m\<close> makes satisfies \<open>\<phi>\<close>, whatever the answers are; \<open>emits_intros\<close> collects its rules.

  The locale \<open>kube_api\<close> states what the Kubernetes API promises to a client that is alone: an
  object that was written is read back, an error of a read means the object is not there. It is
  interpreted on the reference store of \<open>Mem_Cluster\<close>.
\<close>

section \<open>The platform\<close>

datatype gauge = GReadyReplicas | GUpdateDeferred | GPhase | GMaintenanceWindowActive
  | GServerUp | GActivePlayers | GMaxPlayers | GServerInfo

record ('w, 'q) platform =
  cl_Get :: "kind \<Rightarrow> string \<Rightarrow> string \<Rightarrow> 'w \<Rightarrow> (gerror + 'q kobj) \<times> 'w"
  cl_List :: "kind \<Rightarrow> string \<Rightarrow> labels \<Rightarrow> 'w \<Rightarrow> (gerror + 'q kobj list) \<times> 'w"
  cl_ListByField :: "kind \<Rightarrow> string \<Rightarrow> ('q kobj \<Rightarrow> string list) \<Rightarrow> string \<Rightarrow> 'w \<Rightarrow> (gerror + 'q kobj list) \<times> 'w"
  cl_Create :: "'q kobj \<Rightarrow> 'w \<Rightarrow> gerror option \<times> 'w"
  cl_Update :: "'q kobj \<Rightarrow> 'w \<Rightarrow> (gerror + 'q kobj) \<times> 'w"
  cl_Delete :: "'q kobj \<Rightarrow> 'w \<Rightarrow> gerror option \<times> 'w"
  cl_StatusUpdate :: "'q kobj \<Rightarrow> 'w \<Rightarrow> (gerror + 'q kobj) \<times> 'w"
  cl_StatusPatch :: "'q kobj \<Rightarrow> 'q kobj \<Rightarrow> 'w \<Rightarrow> gerror option \<times> 'w"
  tm_Now :: "'w \<Rightarrow> instant \<times> 'w"
  tm_Sleep :: "int \<Rightarrow> 'w \<Rightarrow> 'w"
  tm_LoadLocation :: "string \<Rightarrow> location option"
  pm_Set :: "gauge \<Rightarrow> string list \<Rightarrow> int \<Rightarrow> 'w \<Rightarrow> 'w"
  pm_Delete :: "gauge \<Rightarrow> string list \<Rightarrow> 'w \<Rightarrow> 'w"
  cu_SetControllerReference :: "'q EnshroudedServer \<Rightarrow> ObjectMeta \<Rightarrow> gerror + ObjectMeta"
  cu_ContainsFinalizer :: "ObjectMeta \<Rightarrow> string \<Rightarrow> bool"
  cu_AddFinalizer :: "ObjectMeta \<Rightarrow> string \<Rightarrow> ObjectMeta"
  cu_RemoveFinalizer :: "ObjectMeta \<Rightarrow> string \<Rightarrow> ObjectMeta"
  am_SetStatusCondition :: "Condition list \<Rightarrow> Condition \<Rightarrow> Condition list"
  am_RemoveStatusCondition :: "Condition list \<Rightarrow> string \<Rightarrow> Condition list"
  q_IsZero :: "'q \<Rightarrow> bool"
  q_Cmp :: "'q \<Rightarrow> 'q \<Rightarrow> int"
  q_Sign :: "'q \<Rightarrow> int"
  q_Equal :: "'q \<Rightarrow> 'q \<Rightarrow> bool"
  q_String :: "'q \<Rightarrow> string"
  q_Parse :: "string \<Rightarrow> 'q option"
  so_Slice :: "(VolumeSnapshot \<Rightarrow> VolumeSnapshot \<Rightarrow> bool) \<Rightarrow> VolumeSnapshot list \<Rightarrow> VolumeSnapshot list"

text \<open>\<^verbatim>\<open>resource.MustParse\<close> panics on a string that is no quantity.\<close>

definition MustParse :: "('w, 'q) platform \<Rightarrow> string \<Rightarrow> gerror + 'q" where
  "MustParse p s = (case q_Parse p s of Some q \<Rightarrow> Inr q | None \<Rightarrow> Inl (Panic s))"

section \<open>Calls and their trace\<close>

text \<open>The calls on the sidecar's UDP socket (\<open>Metrics_Sidecar\<close>), with the bytes and the peer.\<close>

datatype net_event =
    NetResolve string "gerror + string"
  | NetListen "gerror option"
  | NetDeadline int "gerror option"
  | NetSend "8 word list" string "gerror option"
  | NetReceive "gerror + 8 word list \<times> string"
  | NetClose

datatype 'q event =
    EvGet kind string string "gerror + 'q kobj"
  | EvList kind string "gerror + 'q kobj list"
  | EvCreate "'q kobj" "gerror option"
  | EvUpdate "'q kobj" "gerror + 'q kobj"
  | EvDelete "'q kobj" "gerror option"
  | EvStatusUpdate "'q kobj" "gerror + 'q kobj"
  | EvStatusPatch "'q kobj" "gerror option"
  | EvNow instant
  | EvSleep int
  | EvGaugeSet gauge "string list" int
  | EvGaugeDelete gauge "string list"
  | EvNet net_event

record ('w, 'q) world =
  env :: 'w
  trace :: "'q event list"

type_synonym ('w, 'q, 'a) M = "(('w, 'q) world, 'a) state"

definition call :: "('w \<Rightarrow> 'a \<times> 'w) \<Rightarrow> ('a \<Rightarrow> 'q event) \<Rightarrow> ('w, 'q, 'a) M" where
  "call f ev = State (\<lambda>s. case f (env s) of (a, w) \<Rightarrow> (a, s\<lparr>env := w, trace := trace s @ [ev a]\<rparr>))"

lemma run_call [simp]:
  "run_state (call f ev) s =
     (case f (env s) of (a, w) \<Rightarrow> (a, s\<lparr>env := w, trace := trace s @ [ev a]\<rparr>))"
  by (simp add: call_def)

definition r_Get :: "('w, 'q) platform \<Rightarrow> kind \<Rightarrow> string \<Rightarrow> string \<Rightarrow> ('w, 'q, gerror + 'q kobj) M" where
  "r_Get p k ns n = call (cl_Get p k ns n) (EvGet k ns n)"

definition r_List :: "('w, 'q) platform \<Rightarrow> kind \<Rightarrow> string \<Rightarrow> labels \<Rightarrow> ('w, 'q, gerror + 'q kobj list) M" where
  "r_List p k ns ls = call (cl_List p k ns ls) (EvList k ns)"

definition r_ListByField ::
  "('w, 'q) platform \<Rightarrow> kind \<Rightarrow> string \<Rightarrow> ('q kobj \<Rightarrow> string list) \<Rightarrow> string \<Rightarrow> ('w, 'q, gerror + 'q kobj list) M" where
  "r_ListByField p k ns ix v = call (cl_ListByField p k ns ix v) (EvList k ns)"

definition r_Create :: "('w, 'q) platform \<Rightarrow> 'q kobj \<Rightarrow> ('w, 'q, gerror option) M" where
  "r_Create p x = call (cl_Create p x) (EvCreate x)"

definition r_Update :: "('w, 'q) platform \<Rightarrow> 'q kobj \<Rightarrow> ('w, 'q, gerror + 'q kobj) M" where
  "r_Update p x = call (cl_Update p x) (EvUpdate x)"

definition r_Delete :: "('w, 'q) platform \<Rightarrow> 'q kobj \<Rightarrow> ('w, 'q, gerror option) M" where
  "r_Delete p x = call (cl_Delete p x) (EvDelete x)"

definition r_StatusUpdate :: "('w, 'q) platform \<Rightarrow> 'q kobj \<Rightarrow> ('w, 'q, gerror + 'q kobj) M" where
  "r_StatusUpdate p x = call (cl_StatusUpdate p x) (EvStatusUpdate x)"

definition r_StatusPatch :: "('w, 'q) platform \<Rightarrow> 'q kobj \<Rightarrow> 'q kobj \<Rightarrow> ('w, 'q, gerror option) M" where
  "r_StatusPatch p base x = call (cl_StatusPatch p base x) (EvStatusPatch x)"

definition time_Now :: "('w, 'q) platform \<Rightarrow> ('w, 'q, instant) M" where
  "time_Now p = call (tm_Now p) EvNow"

definition time_Sleep :: "('w, 'q) platform \<Rightarrow> int \<Rightarrow> ('w, 'q, unit) M" where
  "time_Sleep p d = call (\<lambda>w. ((), tm_Sleep p d w)) (\<lambda>_. EvSleep d)"

definition gauge_Set :: "('w, 'q) platform \<Rightarrow> gauge \<Rightarrow> string list \<Rightarrow> int \<Rightarrow> ('w, 'q, unit) M" where
  "gauge_Set p g ls v = call (\<lambda>w. ((), pm_Set p g ls v w)) (\<lambda>_. EvGaugeSet g ls v)"

definition gauge_Delete :: "('w, 'q) platform \<Rightarrow> gauge \<Rightarrow> string list \<Rightarrow> ('w, 'q, unit) M" where
  "gauge_Delete p g ls = call (\<lambda>w. ((), pm_Delete p g ls w)) (\<lambda>_. EvGaugeDelete g ls)"

lemmas client_defs =
  r_Get_def r_List_def r_ListByField_def r_Create_def r_Update_def r_Delete_def
  r_StatusUpdate_def r_StatusPatch_def time_Now_def time_Sleep_def gauge_Set_def gauge_Delete_def

text \<open>A typed read of an object of another kind than asked for cannot be decoded.\<close>

definition decodeErr :: gerror where
  "decodeErr = Errorf ''unexpected object kind''"

text \<open>
  The typed reads: \<^verbatim>\<open>r.Get\<close> with a pointer to a Secret, a StatefulSet, and so on. The answer is
  decoded into the given type.
\<close>

fun as_Server :: "gerror + 'q kobj \<Rightarrow> gerror + 'q EnshroudedServer" where
  "as_Server (Inl e) = Inl e" | "as_Server (Inr (OServer x)) = Inr x" | "as_Server _ = Inl decodeErr"

fun as_StatefulSet :: "gerror + 'q kobj \<Rightarrow> gerror + 'q StatefulSet" where
  "as_StatefulSet (Inl e) = Inl e" | "as_StatefulSet (Inr (OStatefulSet x)) = Inr x"
| "as_StatefulSet _ = Inl decodeErr"

fun as_Service :: "gerror + 'q kobj \<Rightarrow> gerror + Service" where
  "as_Service (Inl e) = Inl e" | "as_Service (Inr (OService x)) = Inr x"
| "as_Service _ = Inl decodeErr"

fun as_PersistentVolumeClaim :: "gerror + 'q kobj \<Rightarrow> gerror + 'q PersistentVolumeClaim" where
  "as_PersistentVolumeClaim (Inl e) = Inl e"
| "as_PersistentVolumeClaim (Inr (OPersistentVolumeClaim x)) = Inr x"
| "as_PersistentVolumeClaim _ = Inl decodeErr"

fun as_Secret :: "gerror + 'q kobj \<Rightarrow> gerror + Secret" where
  "as_Secret (Inl e) = Inl e" | "as_Secret (Inr (OSecret x)) = Inr x" | "as_Secret _ = Inl decodeErr"

fun as_NetworkPolicy :: "gerror + 'q kobj \<Rightarrow> gerror + NetworkPolicy" where
  "as_NetworkPolicy (Inl e) = Inl e" | "as_NetworkPolicy (Inr (ONetworkPolicy x)) = Inr x"
| "as_NetworkPolicy _ = Inl decodeErr"

fun as_Role :: "gerror + 'q kobj \<Rightarrow> gerror + Role" where
  "as_Role (Inl e) = Inl e" | "as_Role (Inr (ORole x)) = Inr x" | "as_Role _ = Inl decodeErr"

fun as_PodDisruptionBudget :: "gerror + 'q kobj \<Rightarrow> gerror + PodDisruptionBudget" where
  "as_PodDisruptionBudget (Inl e) = Inl e"
| "as_PodDisruptionBudget (Inr (OPodDisruptionBudget x)) = Inr x"
| "as_PodDisruptionBudget _ = Inl decodeErr"

fun as_VerticalPodAutoscaler :: "gerror + 'q kobj \<Rightarrow> gerror + VerticalPodAutoscaler" where
  "as_VerticalPodAutoscaler (Inl e) = Inl e"
| "as_VerticalPodAutoscaler (Inr (OVerticalPodAutoscaler x)) = Inr x"
| "as_VerticalPodAutoscaler _ = Inl decodeErr"

fun as_VolumeSnapshot :: "gerror + 'q kobj \<Rightarrow> gerror + VolumeSnapshot" where
  "as_VolumeSnapshot (Inl e) = Inl e" | "as_VolumeSnapshot (Inr (OVolumeSnapshot x)) = Inr x"
| "as_VolumeSnapshot _ = Inl decodeErr"

fun as_ServiceAccount :: "gerror + 'q kobj \<Rightarrow> gerror + ServiceAccount" where
  "as_ServiceAccount (Inl e) = Inl e" | "as_ServiceAccount (Inr (OServiceAccount x)) = Inr x"
| "as_ServiceAccount _ = Inl decodeErr"

fun as_RoleBinding :: "gerror + 'q kobj \<Rightarrow> gerror + RoleBinding" where
  "as_RoleBinding (Inl e) = Inl e" | "as_RoleBinding (Inr (ORoleBinding x)) = Inr x"
| "as_RoleBinding _ = Inl decodeErr"

lemma decodeErr_found [simp]: "\<not> IsNotFound decodeErr"
  by (simp add: decodeErr_def Errorf_def IsNotFound_def)

text \<open>What a typed read that succeeds, or one that finds nothing, says of the answer.\<close>

lemma as_Inr:
  "as_Server r = Inr a \<longleftrightarrow> r = Inr (OServer a)"
  "as_StatefulSet r = Inr b \<longleftrightarrow> r = Inr (OStatefulSet b)"
  "as_Service r = Inr c \<longleftrightarrow> r = Inr (OService c)"
  "as_PersistentVolumeClaim r = Inr d \<longleftrightarrow> r = Inr (OPersistentVolumeClaim d)"
  "as_Secret r = Inr f \<longleftrightarrow> r = Inr (OSecret f)"
  "as_NetworkPolicy r = Inr g \<longleftrightarrow> r = Inr (ONetworkPolicy g)"
  "as_Role r = Inr h \<longleftrightarrow> r = Inr (ORole h)"
  "as_PodDisruptionBudget r = Inr i \<longleftrightarrow> r = Inr (OPodDisruptionBudget i)"
  "as_VerticalPodAutoscaler r = Inr j \<longleftrightarrow> r = Inr (OVerticalPodAutoscaler j)"
  "as_VolumeSnapshot r = Inr k \<longleftrightarrow> r = Inr (OVolumeSnapshot k)"
  "as_ServiceAccount r = Inr l \<longleftrightarrow> r = Inr (OServiceAccount l)"
  "as_RoleBinding r = Inr m \<longleftrightarrow> r = Inr (ORoleBinding m)"
  by (cases r rule: as_Server.cases; auto; fail | cases r rule: as_StatefulSet.cases; auto; fail
    | cases r rule: as_Service.cases; auto; fail | cases r rule: as_PersistentVolumeClaim.cases; auto; fail
    | cases r rule: as_Secret.cases; auto; fail | cases r rule: as_NetworkPolicy.cases; auto; fail
    | cases r rule: as_Role.cases; auto; fail | cases r rule: as_PodDisruptionBudget.cases; auto; fail
    | cases r rule: as_VerticalPodAutoscaler.cases; auto; fail | cases r rule: as_VolumeSnapshot.cases; auto; fail
    | cases r rule: as_ServiceAccount.cases; auto; fail | cases r rule: as_RoleBinding.cases; auto; fail)+

lemma as_notfound:
  "as_Server r = Inl e \<Longrightarrow> IsNotFound e \<Longrightarrow> r = Inl e"
  "as_StatefulSet r = Inl e \<Longrightarrow> IsNotFound e \<Longrightarrow> r = Inl e"
  "as_Service r = Inl e \<Longrightarrow> IsNotFound e \<Longrightarrow> r = Inl e"
  "as_PersistentVolumeClaim r = Inl e \<Longrightarrow> IsNotFound e \<Longrightarrow> r = Inl e"
  "as_Secret r = Inl e \<Longrightarrow> IsNotFound e \<Longrightarrow> r = Inl e"
  "as_NetworkPolicy r = Inl e \<Longrightarrow> IsNotFound e \<Longrightarrow> r = Inl e"
  "as_Role r = Inl e \<Longrightarrow> IsNotFound e \<Longrightarrow> r = Inl e"
  "as_PodDisruptionBudget r = Inl e \<Longrightarrow> IsNotFound e \<Longrightarrow> r = Inl e"
  "as_VerticalPodAutoscaler r = Inl e \<Longrightarrow> IsNotFound e \<Longrightarrow> r = Inl e"
  "as_VolumeSnapshot r = Inl e \<Longrightarrow> IsNotFound e \<Longrightarrow> r = Inl e"
  "as_ServiceAccount r = Inl e \<Longrightarrow> IsNotFound e \<Longrightarrow> r = Inl e"
  "as_RoleBinding r = Inl e \<Longrightarrow> IsNotFound e \<Longrightarrow> r = Inl e"
  by (cases r; cases "projr r"; force simp: decodeErr_def Errorf_def IsNotFound_def)+

section \<open>Which calls a computation makes\<close>

definition emits :: "('q event \<Rightarrow> bool) \<Rightarrow> ('w, 'q, 'a) M \<Rightarrow> bool" where
  "emits \<phi> m \<longleftrightarrow>
     (\<forall>s. \<exists>es. trace (snd (run_state m s)) = trace s @ es \<and> list_all \<phi> es)"

named_theorems emits_intros \<open>rules for the calls of a computation\<close>

lemma emits_return [emits_intros]: "emits \<phi> (State_Monad.return a)"
  by (simp add: emits_def)

lemma emits_bind [emits_intros]:
  assumes "emits \<phi> m" "\<And>a. emits \<phi> (f a)"
  shows "emits \<phi> (State_Monad.bind m f)"
  unfolding emits_def
proof
  fix s
  obtain a s1 where m: "run_state m s = (a, s1)" by (cases "run_state m s")
  from assms(1) m obtain es where es: "trace s1 = trace s @ es" "list_all \<phi> es"
    unfolding emits_def by (metis snd_conv)
  from assms(2) [of a] obtain fs
    where fs: "trace (snd (run_state (f a) s1)) = trace s1 @ fs" "list_all \<phi> fs"
    unfolding emits_def by blast
  show "\<exists>es. trace (snd (run_state (m \<bind> f) s)) = trace s @ es \<and> list_all \<phi> es"
    using m es fs by (intro exI [of _ "es @ fs"]) simp
qed

lemma emits_seq_err [emits_intros]: "emits \<phi> m \<Longrightarrow> emits \<phi> k \<Longrightarrow> emits \<phi> (seq_err m k)"
  unfolding seq_err_def by (intro emits_bind) (auto intro: emits_return split: option.split)

lemma emits_if [emits_intros]:
  "(b \<Longrightarrow> emits \<phi> m) \<Longrightarrow> (\<not> b \<Longrightarrow> emits \<phi> n) \<Longrightarrow> emits \<phi> (if b then m else n)"
  by simp

lemma emits_case_option [emits_intros]:
  "(x = None \<Longrightarrow> emits \<phi> m) \<Longrightarrow> (\<And>a. x = Some a \<Longrightarrow> emits \<phi> (f a)) \<Longrightarrow>
   emits \<phi> (case x of None \<Rightarrow> m | Some a \<Rightarrow> f a)"
  by (cases x) simp_all

lemma emits_case_sum [emits_intros]:
  "(\<And>e. x = Inl e \<Longrightarrow> emits \<phi> (f e)) \<Longrightarrow> (\<And>a. x = Inr a \<Longrightarrow> emits \<phi> (g a)) \<Longrightarrow>
   emits \<phi> (case x of Inl e \<Rightarrow> f e | Inr a \<Rightarrow> g a)"
  by (cases x) simp_all

lemma emits_case_prod [emits_intros]:
  "(\<And>a b. x = (a, b) \<Longrightarrow> emits \<phi> (f a b)) \<Longrightarrow> emits \<phi> (case x of (a, b) \<Rightarrow> f a b)"
  by (cases x) simp

lemma emits_let [emits_intros]: "emits \<phi> (f x) \<Longrightarrow> emits \<phi> (Let x f)"
  by simp

lemma emits_call: "(\<And>a. \<phi> (ev a)) \<Longrightarrow> emits \<phi> (call f ev)"
  by (auto simp: emits_def split: prod.split)

lemma emits_client [emits_intros]:
  "(\<And>r. \<phi> (EvGet k ns n r)) \<Longrightarrow> emits \<phi> (r_Get p k ns n)"
  "(\<And>r. \<phi> (EvList k ns r)) \<Longrightarrow> emits \<phi> (r_List p k ns ls)"
  "(\<And>r. \<phi> (EvList k ns r)) \<Longrightarrow> emits \<phi> (r_ListByField p k ns ix v)"
  "(\<And>r. \<phi> (EvCreate x r)) \<Longrightarrow> emits \<phi> (r_Create p x)"
  "(\<And>r. \<phi> (EvUpdate x r)) \<Longrightarrow> emits \<phi> (r_Update p x)"
  "(\<And>r. \<phi> (EvDelete x r)) \<Longrightarrow> emits \<phi> (r_Delete p x)"
  "(\<And>r. \<phi> (EvStatusUpdate x r)) \<Longrightarrow> emits \<phi> (r_StatusUpdate p x)"
  "(\<And>r. \<phi> (EvStatusPatch x r)) \<Longrightarrow> emits \<phi> (r_StatusPatch p b x)"
  "(\<And>t. \<phi> (EvNow t)) \<Longrightarrow> emits \<phi> (time_Now p)"
  "\<phi> (EvSleep d) \<Longrightarrow> emits \<phi> (time_Sleep p d)"
  "\<phi> (EvGaugeSet g l i) \<Longrightarrow> emits \<phi> (gauge_Set p g l i)"
  "\<phi> (EvGaugeDelete g l) \<Longrightarrow> emits \<phi> (gauge_Delete p g l)"
  by (simp_all add: client_defs emits_call)

lemma emits_mono: "emits \<phi> m \<Longrightarrow> (\<And>e. \<phi> e \<Longrightarrow> \<psi> e) \<Longrightarrow> emits \<psi> m"
  by (fastforce simp: emits_def list_all_iff)

lemma emitsD:
  "emits \<phi> m \<Longrightarrow> run_state m s = (a, s') \<Longrightarrow> \<exists>es. trace s' = trace s @ es \<and> list_all \<phi> es"
  unfolding emits_def by (metis snd_conv)

text \<open>The object an event writes, and the events that write nothing outside a set of keys.\<close>

fun written :: "'q event \<Rightarrow> 'q kobj option" where
  "written (EvCreate x _) = Some x"
| "written (EvUpdate x _) = Some x"
| "written (EvDelete x _) = Some x"
| "written (EvStatusUpdate x _) = Some x"
| "written (EvStatusPatch x _) = Some x"
| "written _ = None"

definition within :: "okey set \<Rightarrow> 'q event \<Rightarrow> bool" where
  "within K e \<longleftrightarrow> (\<forall>x. written e = Some x \<longrightarrow> key_of x \<in> K)"

lemma within_mono: "within K e \<Longrightarrow> K \<subseteq> K' \<Longrightarrow> within K' e"
  by (auto simp: within_def)

section \<open>What the API server promises\<close>

text \<open>
  The least the code relies on: \<^verbatim>\<open>SetControllerReference\<close> changes nothing but the owner references
  and leaves one that names the owner as controller; the finalizer helpers treat the finalizers as
  a set; a read answers with the object that was asked for.
\<close>

definition owned_by :: "'q EnshroudedServer \<Rightarrow> ObjectMeta \<Rightarrow> bool" where
  "owned_by server m \<longleftrightarrow>
     (\<exists>r \<in> set (om_OwnerReferences m). or_Controller r \<and> or_UID r = om_UID (es_Meta server))"

locale owner_refs =
  fixes p :: "('w, 'q) platform"
  assumes set_owner: "cu_SetControllerReference p server m = Inr m' \<Longrightarrow>
      owned_by server m' \<and> m' = m\<lparr>om_OwnerReferences := om_OwnerReferences m'\<rparr>"
    and contains_finalizer: "cu_ContainsFinalizer p m f \<longleftrightarrow> f \<in> set (om_Finalizers m)"
    and add_finalizer: "\<exists>fs. cu_AddFinalizer p m f = m\<lparr>om_Finalizers := fs\<rparr> \<and> set fs = insert f (set (om_Finalizers m))"
    and remove_finalizer: "cu_RemoveFinalizer p m f = m\<lparr>om_Finalizers := filter (\<lambda>g. g \<noteq> f) (om_Finalizers m)\<rparr>"
begin

lemma add_finalizer_fields:
  "om_Name (cu_AddFinalizer p m f) = om_Name m" "om_Namespace (cu_AddFinalizer p m f) = om_Namespace m"
  "om_DeletionTimestamp (cu_AddFinalizer p m f) = om_DeletionTimestamp m"
  using add_finalizer [of m f] by auto

lemma set_owner_fields:
  assumes "cu_SetControllerReference p server m = Inr m'"
  shows "om_Name m' = om_Name m" "om_Namespace m' = om_Namespace m" "om_Labels m' = om_Labels m"
    "om_Finalizers m' = om_Finalizers m" "owned_by server m'"
  using set_owner [OF assms] by (cases m; cases m'; simp)+

end

locale kube_reads = owner_refs p for p :: "('w, 'q) platform" +
  assumes get_key: "cl_Get p k ns n w = (Inr x, w') \<Longrightarrow> key_of x = (k, ns, n)"
    and update_key: "cl_Update p z w = (Inr x, w') \<Longrightarrow> key_of x = key_of z"
    and list_key: "cl_List p k ns ls w = (Inr xs, w') \<Longrightarrow> x \<in> set xs \<Longrightarrow>
      kind_of x = k \<and> om_Namespace (meta_of x) = ns \<and> ls \<subseteq>\<^sub>m om_Labels (meta_of x)"
begin

lemma emits_List_bind [emits_intros]:
  assumes "\<And>r. \<phi> (EvList k ns r)" "\<And>e. emits \<phi> (f (Inl e))"
    and "\<And>xs. (\<And>x. x \<in> set xs \<Longrightarrow> kind_of x = k \<and> om_Namespace (meta_of x) = ns \<and> ls \<subseteq>\<^sub>m om_Labels (meta_of x)) \<Longrightarrow>
      emits \<phi> (f (Inr xs))"
  shows "emits \<phi> (State_Monad.bind (r_List p k ns ls) f)"
  unfolding emits_def
proof
  fix s :: "('w, 'q) world"
  obtain r w where g: "cl_List p k ns ls (env s) = (r, w)" by (cases "cl_List p k ns ls (env s)")
  define s1 where "s1 = s\<lparr>env := w, trace := trace s @ [EvList k ns r]\<rparr>"
  have "emits \<phi> (f r)" using assms(2,3) list_key g by (cases r) auto
  then obtain es where "trace (snd (run_state (f r) s1)) = trace s1 @ es" "list_all \<phi> es"
    unfolding emits_def by blast
  with assms(1) show "\<exists>es. trace (snd (run_state (r_List p k ns ls \<bind> f) s)) = trace s @ es \<and> list_all \<phi> es"
    by (intro exI [of _ "EvList k ns r # es"]) (simp add: r_List_def g s1_def)
qed

lemma emits_Update_bind [emits_intros]:
  assumes "\<And>r. \<phi> (EvUpdate z r)" "\<And>e. emits \<phi> (f (Inl e))"
    and "\<And>x. key_of x = key_of z \<Longrightarrow> emits \<phi> (f (Inr x))"
  shows "emits \<phi> (State_Monad.bind (r_Update p z) f)"
  unfolding emits_def
proof
  fix s :: "('w, 'q) world"
  obtain r w where g: "cl_Update p z (env s) = (r, w)" by (cases "cl_Update p z (env s)")
  define s1 where "s1 = s\<lparr>env := w, trace := trace s @ [EvUpdate z r]\<rparr>"
  have "emits \<phi> (f r)" using assms(2,3) update_key g by (cases r) auto
  then obtain es where "trace (snd (run_state (f r) s1)) = trace s1 @ es" "list_all \<phi> es"
    unfolding emits_def by blast
  with assms(1) show "\<exists>es. trace (snd (run_state (r_Update p z \<bind> f) s)) = trace s @ es \<and> list_all \<phi> es"
    by (intro exI [of _ "EvUpdate z r # es"]) (simp add: r_Update_def g s1_def)
qed

lemma emits_Get_bind [emits_intros]:
  assumes "\<And>r. \<phi> (EvGet k ns n r)" "\<And>e. emits \<phi> (f (Inl e))"
    and "\<And>x. key_of x = (k, ns, n) \<Longrightarrow> emits \<phi> (f (Inr x))"
  shows "emits \<phi> (State_Monad.bind (r_Get p k ns n) f)"
  unfolding emits_def
proof
  fix s :: "('w, 'q) world"
  obtain r w where g: "cl_Get p k ns n (env s) = (r, w)" by (cases "cl_Get p k ns n (env s)")
  define s1 where "s1 = s\<lparr>env := w, trace := trace s @ [EvGet k ns n r]\<rparr>"
  have "emits \<phi> (f r)" using assms(2,3) get_key g by (cases r) auto
  then obtain es where "trace (snd (run_state (f r) s1)) = trace s1 @ es" "list_all \<phi> es"
    unfolding emits_def by blast
  with assms(1) show "\<exists>es. trace (snd (run_state (r_Get p k ns n \<bind> f) s)) = trace s @ es \<and> list_all \<phi> es"
    by (intro exI [of _ "EvGet k ns n r # es"]) (simp add: r_Get_def g s1_def)
qed

end

text \<open>
  The store is what the API server would answer. \<open>accept old x\<close> is the object it keeps when \<open>x\<close> is
  written over \<open>old\<close>: admission, defaulting and the fields only the server writes; nothing is
  known of it but that it keeps the identity. A write that reports an error may or may not have
  happened, but touches no other object; a delete removes the object or marks it. An object that
  is marked for deletion goes away with its last finalizer.
\<close>

definition gone :: "'q kobj \<Rightarrow> bool" where
  "gone x \<longleftrightarrow> om_DeletionTimestamp (meta_of x) \<noteq> None \<and> om_Finalizers (meta_of x) = []"

text \<open>
  The outcome of a computation that starts in a given store: \<open>runs store S m Q\<close> says that \<open>m\<close>, run
  on any environment with the store \<open>S\<close>, returns a value and ends in a store that satisfy \<open>Q\<close>. Its
  rules (\<open>runs_intros\<close>) execute a computation call by call.
\<close>

definition runs ::
  "('w \<Rightarrow> okey \<Rightarrow> 'q kobj option) \<Rightarrow> (okey \<Rightarrow> 'q kobj option) \<Rightarrow> ('w, 'q, 'a) M \<Rightarrow>
   ('a \<Rightarrow> (okey \<Rightarrow> 'q kobj option) \<Rightarrow> bool) \<Rightarrow> bool" where
  "runs store S m Q \<longleftrightarrow>
     (\<forall>s. store (env s) = S \<longrightarrow> (case run_state m s of (a, s') \<Rightarrow> Q a (store (env s'))))"

named_theorems runs_intros \<open>rules for the outcome of a computation\<close>

lemma runsI:
  "(\<And>s a s'. store (env s) = S \<Longrightarrow> run_state m s = (a, s') \<Longrightarrow> Q a (store (env s'))) \<Longrightarrow> runs store S m Q"
  by (auto simp: runs_def)

lemma runsD:
  "runs store S m Q \<Longrightarrow> store (env s) = S \<Longrightarrow> run_state m s = (a, s') \<Longrightarrow> Q a (store (env s'))"
  by (auto simp: runs_def)

lemma runs_return [runs_intros]: "Q a S \<Longrightarrow> runs store S (State_Monad.return a) Q"
  by (simp add: runs_def)

lemma runs_bind [runs_intros]:
  "runs store S m (\<lambda>a S'. runs store S' (f a) Q) \<Longrightarrow> runs store S (State_Monad.bind m f) Q"
  by (fastforce simp: runs_def split: prod.splits)

lemma runs_seq_err [runs_intros]:
  "runs store S m (\<lambda>e S'. case e of Some x \<Rightarrow> Q (Some x) S' | None \<Rightarrow> runs store S' k Q) \<Longrightarrow>
   runs store S (seq_err m k) Q"
  by (fastforce simp: runs_def split: prod.splits option.splits)

lemma runs_conseq:
  "runs store S m Q' \<Longrightarrow> (\<And>a S'. Q' a S' \<Longrightarrow> Q a S') \<Longrightarrow> runs store S m Q"
  by (fastforce simp: runs_def split: prod.splits)

lemma runs_if [runs_intros]:
  "(b \<Longrightarrow> runs store S m Q) \<Longrightarrow> (\<not> b \<Longrightarrow> runs store S n Q) \<Longrightarrow> runs store S (if b then m else n) Q"
  by simp

lemma runs_case_option [runs_intros]:
  "(x = None \<Longrightarrow> runs store S m Q) \<Longrightarrow> (\<And>a. x = Some a \<Longrightarrow> runs store S (f a) Q) \<Longrightarrow>
   runs store S (case x of None \<Rightarrow> m | Some a \<Rightarrow> f a) Q"
  by (cases x) simp_all

lemma runs_case_sum [runs_intros]:
  "(\<And>e. x = Inl e \<Longrightarrow> runs store S (f e) Q) \<Longrightarrow> (\<And>a. x = Inr a \<Longrightarrow> runs store S (g a) Q) \<Longrightarrow>
   runs store S (case x of Inl e \<Rightarrow> f e | Inr a \<Rightarrow> g a) Q"
  by (cases x) simp_all

lemma runs_case_prod [runs_intros]:
  "(\<And>a b. x = (a, b) \<Longrightarrow> runs store S (f a b) Q) \<Longrightarrow> runs store S (case x of (a, b) \<Rightarrow> f a b) Q"
  by (cases x) simp

lemma runs_let [runs_intros]: "runs store S (f x) Q \<Longrightarrow> runs store S (Let x f) Q"
  by simp

text \<open>
  The contract of an operation that ensures one object: \<open>put accept K good S S'\<close> says that \<open>S'\<close> is
  \<open>S\<close> with an object written under the key \<open>K\<close> that is \<open>good\<close> for what was there before;
  \<open>ensures accept K keep good S e S'\<close> that nothing but \<open>K\<close> changed and that without an error an
  object was put there, or nothing was written because the object that is there satisfies \<open>keep\<close>.
\<close>

definition put ::
  "('q kobj option \<Rightarrow> 'q kobj \<Rightarrow> 'q kobj) \<Rightarrow> okey \<Rightarrow> ('q kobj option \<Rightarrow> 'q kobj \<Rightarrow> bool) \<Rightarrow>
   (okey \<Rightarrow> 'q kobj option) \<Rightarrow> (okey \<Rightarrow> 'q kobj option) \<Rightarrow> bool" where
  "put accept K good S S' \<longleftrightarrow> (\<exists>x. key_of x = K \<and> good (S K) x \<and> S' = S(K \<mapsto> accept (S K) x))"

definition ensures ::
  "('q kobj option \<Rightarrow> 'q kobj \<Rightarrow> 'q kobj) \<Rightarrow> okey \<Rightarrow> ('q kobj \<Rightarrow> bool) \<Rightarrow>
   ('q kobj option \<Rightarrow> 'q kobj \<Rightarrow> bool) \<Rightarrow>
   (okey \<Rightarrow> 'q kobj option) \<Rightarrow> gerror option \<Rightarrow> (okey \<Rightarrow> 'q kobj option) \<Rightarrow> bool" where
  "ensures accept K keep good S e S' \<longleftrightarrow>
     (\<forall>k. k \<noteq> K \<longrightarrow> S' k = S k) \<and>
     (e = None \<longrightarrow> put accept K good S S' \<or> S' = S \<and> (\<exists>x. S K = Some x \<and> keep x))"

lemma putI: "key_of x = K \<Longrightarrow> good (S K) x \<Longrightarrow> S' = S(K \<mapsto> accept (S K) x) \<Longrightarrow> put accept K good S S'"
  by (auto simp: put_def)

lemma ensures_err: "(\<And>k. k \<noteq> K \<Longrightarrow> S' k = S k) \<Longrightarrow> ensures accept K keep good S (Some e) S'"
  by (simp add: ensures_def)

lemma ensures_put:
  "S K = None \<Longrightarrow> key_of x = K \<Longrightarrow> good None x \<Longrightarrow> ensures accept K keep good S e (S(K \<mapsto> accept None x))"
  "S K = Some z \<Longrightarrow> key_of x = K \<Longrightarrow> good (Some z) x \<Longrightarrow>
   ensures accept K keep good S e (S(K \<mapsto> accept (Some z) x))"
  by (auto simp: ensures_def put_def)

lemma ensures_keep: "S K = Some x \<Longrightarrow> keep x \<Longrightarrow> ensures accept K keep good S e S"
  by (auto simp: ensures_def)

lemma ensures_frame: "ensures accept K keep good S e S' \<Longrightarrow> k \<noteq> K \<Longrightarrow> S' k = S k"
  unfolding ensures_def by blast

lemma ensures_exists: "ensures accept K keep good S None S' \<Longrightarrow> S' K \<noteq> None"
  by (auto simp: ensures_def put_def)

locale kube_api = owner_refs p for p :: "('w, 'q) platform" +
  fixes store :: "'w \<Rightarrow> okey \<Rightarrow> 'q kobj option"
    and accept :: "'q kobj option \<Rightarrow> 'q kobj \<Rightarrow> 'q kobj"
  assumes get_store: "cl_Get p k ns n w = (r, w') \<Longrightarrow> store w' = store w"
    and get_found: "cl_Get p k ns n w = (Inr x, w') \<Longrightarrow> store w (k, ns, n) = Some x"
    and get_notfound: "cl_Get p k ns n w = (Inl e, w') \<Longrightarrow> IsNotFound e \<Longrightarrow> store w (k, ns, n) = None"
    and list_store: "cl_List p k ns ls w = (r', w') \<Longrightarrow> store w' = store w"
    and list_found: "cl_List p k ns ls w = (Inr xs, w') \<Longrightarrow>
          set xs = {x. (\<exists>n. store w (k, ns, n) = Some x) \<and> ls \<subseteq>\<^sub>m om_Labels (meta_of x)}"
    and create_ok: "cl_Create p x w = (None, w') \<Longrightarrow>
          store w (key_of x) = None \<and> store w' = (store w)(key_of x \<mapsto> accept None x)"
    and create_exists: "cl_Create p x w = (Some e, w') \<Longrightarrow> IsAlreadyExists e \<Longrightarrow> store w (key_of x) \<noteq> None"
    and create_frame: "cl_Create p x w = (ce, w') \<Longrightarrow> k' \<noteq> key_of x \<Longrightarrow> store w' k' = store w k'"
    and update_ok: "cl_Update p x w = (Inr y, w') \<Longrightarrow>
          \<exists>old. store w (key_of x) = Some old \<and> y = accept (Some old) x \<and>
            store w' = (store w)(key_of x := if gone y then None else Some y)"
    and update_frame: "cl_Update p x w = (ue, w') \<Longrightarrow> k' \<noteq> key_of x \<Longrightarrow> store w' k' = store w k'"
    and delete_ok: "cl_Delete p x w = (None, w') \<Longrightarrow>
          store w' (key_of x) = None \<or>
          (\<exists>y. store w' (key_of x) = Some y \<and> om_DeletionTimestamp (meta_of y) \<noteq> None)"
    and delete_notfound: "cl_Delete p x w = (Some e, w') \<Longrightarrow> IsNotFound e \<Longrightarrow> store w' (key_of x) = None"
    and delete_frame: "cl_Delete p x w = (ce, w') \<Longrightarrow> k' \<noteq> key_of x \<Longrightarrow> store w' k' = store w k'"
    and status_ok: "cl_StatusUpdate p (OServer s) w = (Inr y, w') \<Longrightarrow>
          \<exists>old. store w (key_of (OServer s)) = Some (OServer old) \<and>
            y = OServer (old\<lparr>Status := Status s\<rparr>) \<and>
            store w' = (store w)(key_of (OServer s) \<mapsto> y)"
    and status_frame: "cl_StatusUpdate p x w = (ue, w') \<Longrightarrow> k' \<noteq> key_of x \<Longrightarrow> store w' k' = store w k'"
    and now_store: "tm_Now p w = (t, w') \<Longrightarrow> store w' = store w"
    and sleep_store: "store (tm_Sleep p d w) = store w"
    and gauge_set_store: "store (pm_Set p g l i w) = store w"
    and gauge_delete_store: "store (pm_Delete p g l w) = store w"
    and store_key: "store w k' = Some x \<Longrightarrow> key_of x = k'"
    and store_alive: "store w k' = Some x \<Longrightarrow> \<not> gone x"
    and accept_key: "key_of (accept old x) = key_of x"
    and accept_deletion: "om_DeletionTimestamp (meta_of (accept (Some z) x)) = om_DeletionTimestamp (meta_of z)"
    and accept_finalizers: "om_Finalizers (meta_of (accept (Some z) x)) = om_Finalizers (meta_of x)"
begin

sublocale kube_reads p
proof unfold_locales
  show "key_of x = (k, ns, n)" if "cl_Get p k ns n w = (Inr x, w')" for k ns n w x w'
    using get_found [OF that] store_key by blast
  show "key_of x = key_of z" if "cl_Update p z w = (Inr x, w')" for z w x w'
    using update_ok [OF that] accept_key by auto
  show "kind_of x = k \<and> om_Namespace (meta_of x) = ns \<and> ls \<subseteq>\<^sub>m om_Labels (meta_of x)"
    if "cl_List p k ns ls w = (Inr xs, w')" "x \<in> set xs" for k ns ls w xs w' x
    using list_found [OF that(1)] that(2) store_key [of w] by (auto simp: key_of_def)
qed

abbreviation st :: "('w, 'q) world \<Rightarrow> okey \<Rightarrow> 'q kobj option" where
  "st s \<equiv> store (env s)"

text \<open>The laws, as rules for the outcome of one call.\<close>

lemma runs_Get [runs_intros]:
  assumes "\<And>x. S (k, ns, n) = Some x \<Longrightarrow> key_of x = (k, ns, n) \<Longrightarrow> \<not> gone x \<Longrightarrow> Q (Inr x) S"
    and "\<And>e. (IsNotFound e \<Longrightarrow> S (k, ns, n) = None) \<Longrightarrow> Q (Inl e) S"
  shows "runs store S (r_Get p k ns n) Q"
proof (rule runsI)
  fix s a s'
  assume S: "st s = S" and run: "run_state (r_Get p k ns n) s = (a, s')"
  then obtain w where g: "cl_Get p k ns n (env s) = (a, w)" and w: "env s' = w"
    by (auto simp: r_Get_def split: prod.splits)
  from get_store [OF g] w S have same: "st s' = S" by simp
  show "Q a (st s')"
  proof (cases a)
    case (Inl e)
    with assms(2) [of e] get_notfound [of k ns n "env s" e w] g S same show ?thesis by simp
  next
    case (Inr x)
    with g S have "S (k, ns, n) = Some x" using get_found by blast
    with assms(1) store_key [of "env s"] store_alive [of "env s"] Inr same S show ?thesis by simp
  qed
qed

lemma runs_Create [runs_intros]:
  assumes "S (key_of x) = None \<Longrightarrow> Q None (S(key_of x \<mapsto> accept None x))"
    and "\<And>S' e. (\<And>k'. k' \<noteq> key_of x \<Longrightarrow> S' k' = S k') \<Longrightarrow>
      (IsAlreadyExists e \<Longrightarrow> S (key_of x) \<noteq> None) \<Longrightarrow> Q (Some e) S'"
  shows "runs store S (r_Create p x) Q"
proof (rule runsI)
  fix s a s'
  assume S: "st s = S" and run: "run_state (r_Create p x) s = (a, s')"
  then obtain w where g: "cl_Create p x (env s) = (a, w)" and w: "env s' = w"
    by (auto simp: r_Create_def split: prod.splits)
  show "Q a (st s')"
  proof (cases a)
    case None
    with g have "store (env s) (key_of x) = None \<and> store w = (store (env s))(key_of x \<mapsto> accept None x)"
      using create_ok by blast
    with assms(1) None S w show ?thesis by simp
  next
    case (Some e)
    with create_exists [of x "env s" e w] create_frame [OF g] g S w show ?thesis
      by (auto intro!: assms(2))
  qed
qed

lemma runs_Update [runs_intros]:
  assumes "\<And>old. S (key_of x) = Some old \<Longrightarrow>
      Q (Inr (accept (Some old) x))
        (S(key_of x := if gone (accept (Some old) x) then None else Some (accept (Some old) x)))"
    and "\<And>S' e. (\<And>k'. k' \<noteq> key_of x \<Longrightarrow> S' k' = S k') \<Longrightarrow> Q (Inl e) S'"
  shows "runs store S (r_Update p x) Q"
proof (rule runsI)
  fix s a s'
  assume S: "st s = S" and run: "run_state (r_Update p x) s = (a, s')"
  then obtain w where g: "cl_Update p x (env s) = (a, w)" and w: "env s' = w"
    by (auto simp: r_Update_def split: prod.splits)
  show "Q a (st s')"
  proof (cases a)
    case (Inl e)
    with update_frame [OF g] S w show ?thesis by (auto intro!: assms(2))
  next
    case (Inr y)
    with g update_ok [of x "env s" y w] assms(1) S w show ?thesis by auto
  qed
qed

lemma runs_Delete [runs_intros]:
  assumes "\<And>S' e. (\<And>k'. k' \<noteq> key_of x \<Longrightarrow> S' k' = S k') \<Longrightarrow>
      (IgnoreNotFound e = None \<Longrightarrow> S' (key_of x) = None \<or>
        (\<exists>y. S' (key_of x) = Some y \<and> om_DeletionTimestamp (meta_of y) \<noteq> None)) \<Longrightarrow> Q e S'"
  shows "runs store S (r_Delete p x) Q"
proof (rule runsI)
  fix s a s'
  assume S: "st s = S" and run: "run_state (r_Delete p x) s = (a, s')"
  then obtain w where g: "cl_Delete p x (env s) = (a, w)" and w: "env s' = w"
    by (auto simp: r_Delete_def split: prod.splits)
  show "Q a (st s')"
    using delete_frame [OF g] delete_ok [of x "env s" w] delete_notfound [of x "env s" _ w] g S w
    by (intro assms) (auto simp: IgnoreNotFound_def split: option.splits if_splits)
qed

lemma runs_quiet [runs_intros]:
  "(\<And>t. Q t S) \<Longrightarrow> runs store S (time_Now p) Q"
  "R () S \<Longrightarrow> runs store S (time_Sleep p d) R"
  "R () S \<Longrightarrow> runs store S (gauge_Set p g l i) R"
  "R () S \<Longrightarrow> runs store S (gauge_Delete p g l) R"
  "(\<And>r. L r S) \<Longrightarrow> runs store S (r_List p k ns ls) L"
  by (rule runsI,
      force simp: client_defs sleep_store gauge_set_store gauge_delete_store
        split: prod.splits dest: now_store list_store)+

lemma runs_StatusUpdate [runs_intros]:
  assumes "\<And>old. S (key_of (OServer x)) = Some (OServer old) \<Longrightarrow>
      Q (Inr (OServer (old\<lparr>Status := Status x\<rparr>))) (S(key_of (OServer x) \<mapsto> OServer (old\<lparr>Status := Status x\<rparr>)))"
    and "\<And>S' e. (\<And>k'. k' \<noteq> key_of (OServer x) \<Longrightarrow> S' k' = S k') \<Longrightarrow> Q (Inl e) S'"
  shows "runs store S (r_StatusUpdate p (OServer x)) Q"
proof (rule runsI)
  fix s a s'
  assume S: "st s = S" and run: "run_state (r_StatusUpdate p (OServer x)) s = (a, s')"
  then obtain w where g: "cl_StatusUpdate p (OServer x) (env s) = (a, w)" and w: "env s' = w"
    by (auto simp: r_StatusUpdate_def split: prod.splits)
  show "Q a (st s')"
  proof (cases a)
    case (Inl e)
    with status_frame [OF g] S w show ?thesis by (auto intro!: assms(2))
  next
    case (Inr y)
    with g status_ok [of x "env s" y w] w assms(1) S show ?thesis by auto
  qed
qed

text \<open>An update that keeps the finalizers of a live object keeps it alive.\<close>

lemma accept_alive [simp]:
  "\<not> gone z \<Longrightarrow> om_Finalizers (meta_of x) = om_Finalizers (meta_of z) \<Longrightarrow> \<not> gone (accept (Some z) x)"
  by (simp add: gone_def accept_deletion accept_finalizers)

end

end
