(* ===== verification/Mem_Cluster.thy ===== *)
theory Mem_Cluster
  imports Kube_Client
begin

text \<open>
  A reference platform: an API server that keeps its objects in a list, a clock that only moves
  when the program sleeps, a gauge registry, quantities in thousandths of a unit, and the helper
  functions of controller-runtime and apimachinery. It is one concrete value of the parameters
  of \<open>Kube_Client\<close>; the interpretations at the end show that the laws the development states of
  the platform hold of it, and the witnesses evaluate the operator on it.
\<close>

section \<open>The store\<close>

record mem =
  m_objs :: "(okey \<times> int kobj) list"
  m_clock :: int
  m_gauges :: "((gauge \<times> string list) \<times> int) list"

definition mem_store :: "mem \<Rightarrow> okey \<Rightarrow> int kobj option" where
  "mem_store w k =
     (case map_of (m_objs w) k of
        None \<Rightarrow> None
      | Some x \<Rightarrow> if key_of x = k \<and> \<not> gone x then Some x else None)"

fun alist_put :: "'k \<Rightarrow> 'v \<Rightarrow> ('k \<times> 'v) list \<Rightarrow> ('k \<times> 'v) list" where
  "alist_put k v [] = [(k, v)]"
| "alist_put k v ((k', v') # xs) = (if k = k' then (k, v) # xs else (k', v') # alist_put k v xs)"

definition alist_del :: "'k \<Rightarrow> ('k \<times> 'v) list \<Rightarrow> ('k \<times> 'v) list" where
  "alist_del k xs = filter (\<lambda>(k', _). k' \<noteq> k) xs"

lemma map_of_alist_put [simp]: "map_of (alist_put k v xs) = (map_of xs)(k \<mapsto> v)"
  by (induction xs) auto

lemma map_of_alist_del [simp]: "map_of (alist_del k xs) = (map_of xs)(k := None)"
  by (induction xs) (auto simp: alist_del_def fun_eq_iff)

definition mem_put :: "int kobj \<Rightarrow> mem \<Rightarrow> mem" where
  "mem_put x w = w\<lparr>m_objs := alist_put (key_of x) x (m_objs w)\<rparr>"

definition mem_del :: "okey \<Rightarrow> mem \<Rightarrow> mem" where
  "mem_del k w = w\<lparr>m_objs := alist_del k (m_objs w)\<rparr>"

lemma mem_store_put [simp]:
  "mem_store (mem_put x w) = (mem_store w)(key_of x := if gone x then None else Some x)"
  by (auto simp: mem_store_def mem_put_def fun_eq_iff)

lemma mem_store_del [simp]: "mem_store (mem_del k w) = (mem_store w)(k := None)"
  by (auto simp: mem_store_def mem_del_def fun_eq_iff)

fun map_meta :: "(ObjectMeta \<Rightarrow> ObjectMeta) \<Rightarrow> 'q kobj \<Rightarrow> 'q kobj" where
  "map_meta f (OServer x) = OServer (x\<lparr>es_Meta := f (es_Meta x)\<rparr>)"
| "map_meta f (OStatefulSet x) = OStatefulSet (x\<lparr>sts_Meta := f (sts_Meta x)\<rparr>)"
| "map_meta f (OService x) = OService (x\<lparr>svc_Meta := f (svc_Meta x)\<rparr>)"
| "map_meta f (OPersistentVolumeClaim x) = OPersistentVolumeClaim (x\<lparr>pvc_Meta := f (pvc_Meta x)\<rparr>)"
| "map_meta f (OSecret x) = OSecret (x\<lparr>sec_Meta := f (sec_Meta x)\<rparr>)"
| "map_meta f (ONetworkPolicy x) = ONetworkPolicy (x\<lparr>np_Meta := f (np_Meta x)\<rparr>)"
| "map_meta f (OServiceAccount x) = OServiceAccount (x\<lparr>sa_Meta := f (sa_Meta x)\<rparr>)"
| "map_meta f (ORole x) = ORole (x\<lparr>role_Meta := f (role_Meta x)\<rparr>)"
| "map_meta f (ORoleBinding x) = ORoleBinding (x\<lparr>rb_Meta := f (rb_Meta x)\<rparr>)"
| "map_meta f (OPodDisruptionBudget x) = OPodDisruptionBudget (x\<lparr>pdb_Meta := f (pdb_Meta x)\<rparr>)"
| "map_meta f (OVerticalPodAutoscaler x) = OVerticalPodAutoscaler (x\<lparr>vpa_Meta := f (vpa_Meta x)\<rparr>)"
| "map_meta f (OVolumeSnapshot x) = OVolumeSnapshot (x\<lparr>vsn_Meta := f (vsn_Meta x)\<rparr>)"

lemma map_meta_meta [simp]: "meta_of (map_meta f x) = f (meta_of x)" "kind_of (map_meta f x) = kind_of x"
  by (cases x; simp)+

text \<open>
  An update takes the deletion mark from the stored object; the status of a custom resource with a
  status subresource as well.
\<close>

fun keep_status :: "'q kobj \<Rightarrow> 'q kobj \<Rightarrow> 'q kobj" where
  "keep_status (OServer z) (OServer x) = OServer (x\<lparr>Status := Status z\<rparr>)"
| "keep_status _ x = x"

lemma keep_status_meta [simp]: "meta_of (keep_status z x) = meta_of x" "kind_of (keep_status z x) = kind_of x"
  by (cases "(z, x)" rule: keep_status.cases; simp)+

fun mem_accept :: "'q kobj option \<Rightarrow> 'q kobj \<Rightarrow> 'q kobj" where
  "mem_accept None x = map_meta (\<lambda>m. m\<lparr>om_DeletionTimestamp := None\<rparr>) x"
| "mem_accept (Some z) x =
     map_meta (\<lambda>m. m\<lparr>om_DeletionTimestamp := om_DeletionTimestamp (meta_of z)\<rparr>) (keep_status z x)"

lemma mem_accept_key [simp]: "key_of (mem_accept old x) = key_of x"
  by (cases old) (simp_all add: key_of_def)

lemma mem_accept_meta [simp]:
  "\<not> gone (mem_accept None x)"
  "om_DeletionTimestamp (meta_of (mem_accept (Some z) x)) = om_DeletionTimestamp (meta_of z)"
  "om_Finalizers (meta_of (mem_accept (Some z) x)) = om_Finalizers (meta_of x)"
  by (simp_all add: gone_def)

declare mem_accept.simps [simp del]

section \<open>Calls\<close>

definition notFound :: gerror where
  "notFound = ApiError ReasonNotFound ''not found''"

definition alreadyExists :: gerror where
  "alreadyExists = ApiError ReasonAlreadyExists ''already exists''"

definition mem_Get :: "kind \<Rightarrow> string \<Rightarrow> string \<Rightarrow> mem \<Rightarrow> (gerror + int kobj) \<times> mem" where
  "mem_Get k ns n w = ((case mem_store w (k, ns, n) of None \<Rightarrow> Inl notFound | Some x \<Rightarrow> Inr x), w)"

definition mem_all :: "kind \<Rightarrow> string \<Rightarrow> mem \<Rightarrow> int kobj list" where
  "mem_all k ns w = List.map_filter (mem_store w)
     (filter (\<lambda>(k', ns', _). k' = k \<and> ns' = ns) (remdups (map fst (m_objs w))))"

definition mem_List :: "kind \<Rightarrow> string \<Rightarrow> labels \<Rightarrow> mem \<Rightarrow> (gerror + int kobj list) \<times> mem" where
  "mem_List k ns ls w = (Inr (filter (\<lambda>x. ls \<subseteq>\<^sub>m om_Labels (meta_of x)) (mem_all k ns w)), w)"

definition mem_ListByField ::
  "kind \<Rightarrow> string \<Rightarrow> (int kobj \<Rightarrow> string list) \<Rightarrow> string \<Rightarrow> mem \<Rightarrow> (gerror + int kobj list) \<times> mem" where
  "mem_ListByField k ns ix v w = (Inr (filter (\<lambda>x. v \<in> set (ix x)) (mem_all k ns w)), w)"

definition mem_Create :: "int kobj \<Rightarrow> mem \<Rightarrow> gerror option \<times> mem" where
  "mem_Create x w =
     (if mem_store w (key_of x) \<noteq> None then (Some alreadyExists, w)
      else (None, mem_put (mem_accept None x) w))"

definition mem_Update :: "int kobj \<Rightarrow> mem \<Rightarrow> (gerror + int kobj) \<times> mem" where
  "mem_Update x w =
     (case mem_store w (key_of x) of
        None \<Rightarrow> (Inl notFound, w)
      | Some z \<Rightarrow> (Inr (mem_accept (Some z) x), mem_put (mem_accept (Some z) x) w))"

definition mem_Delete :: "int kobj \<Rightarrow> mem \<Rightarrow> gerror option \<times> mem" where
  "mem_Delete x w =
     (case mem_store w (key_of x) of
        None \<Rightarrow> (Some notFound, w)
      | Some z \<Rightarrow>
         if om_Finalizers (meta_of z) = [] then (None, mem_del (key_of x) w)
         else (None, mem_put (map_meta (\<lambda>m. m\<lparr>om_DeletionTimestamp := Some (m_clock w)\<rparr>) z) w))"

fun mem_StatusUpdate :: "int kobj \<Rightarrow> mem \<Rightarrow> (gerror + int kobj) \<times> mem" where
  "mem_StatusUpdate (OServer s) w =
     (case mem_store w (key_of (OServer s)) of
        Some (OServer z) \<Rightarrow> (Inr (OServer (z\<lparr>Status := Status s\<rparr>)), mem_put (OServer (z\<lparr>Status := Status s\<rparr>)) w)
      | _ \<Rightarrow> (Inl notFound, w))"
| "mem_StatusUpdate _ w = (Inl notFound, w)"

text \<open>A merge patch: the status fields in which the object differs from its base.\<close>

fun mem_StatusPatch :: "int kobj \<Rightarrow> int kobj \<Rightarrow> mem \<Rightarrow> gerror option \<times> mem" where
  "mem_StatusPatch (OServer base) (OServer s) w =
     (case mem_store w (key_of (OServer s)) of
        Some (OServer z) \<Rightarrow>
          (let b = Status base; n = Status s; o' = Status z in
           (None, mem_put (OServer (z\<lparr>Status := o'\<lparr>
              Phase := if Phase n = Phase b then Phase o' else Phase n,
              ReadyReplicas := if ReadyReplicas n = ReadyReplicas b then ReadyReplicas o' else ReadyReplicas n,
              ActivePlayers := if ActivePlayers n = ActivePlayers b then ActivePlayers o' else ActivePlayers n,
              GameVersion := if GameVersion n = GameVersion b then GameVersion o' else GameVersion n,
              UpdateDeferred := if UpdateDeferred n = UpdateDeferred b then UpdateDeferred o' else UpdateDeferred n,
              Conditions := if Conditions n = Conditions b then Conditions o' else Conditions n\<rparr>\<rparr>)) w))
      | _ \<Rightarrow> (Some notFound, w))"
| "mem_StatusPatch _ _ w = (Some notFound, w)"

section \<open>Helper functions\<close>

definition mem_SetControllerReference :: "'q EnshroudedServer \<Rightarrow> ObjectMeta \<Rightarrow> gerror + ObjectMeta" where
  "mem_SetControllerReference server m =
     (let ref = \<lparr>or_Kind = ''EnshroudedServer'', or_Name = sname server,
                 or_UID = om_UID (es_Meta server), or_Controller = True\<rparr> in
      if snamespace server \<noteq> '''' \<and> om_Namespace m \<noteq> snamespace server
      then Inl (Errorf ''cross-namespace owner references are disallowed'')
      else if \<exists>r \<in> set (om_OwnerReferences m). or_Controller r \<and> or_UID r \<noteq> or_UID ref
      then Inl (Errorf ''Object is already owned by another controller'')
      else if ref \<in> set (om_OwnerReferences m) then Inr m
      else Inr (m\<lparr>om_OwnerReferences := om_OwnerReferences m @ [ref]\<rparr>))"

definition mem_AddFinalizer :: "ObjectMeta \<Rightarrow> string \<Rightarrow> ObjectMeta" where
  "mem_AddFinalizer m f = m\<lparr>om_Finalizers :=
     (if f \<in> set (om_Finalizers m) then om_Finalizers m else om_Finalizers m @ [f])\<rparr>"

fun mem_SetStatusCondition :: "Condition list \<Rightarrow> Condition \<Rightarrow> Condition list" where
  "mem_SetStatusCondition [] c = [c]"
| "mem_SetStatusCondition (d # ds) c =
     (if cd_Type d = cd_Type c then c # ds else d # mem_SetStatusCondition ds c)"

text \<open>Quantities: digits and one of the suffixes the operator writes or reads, in thousandths.\<close>

definition mem_Parse :: "string \<Rightarrow> int option" where
  "mem_Parse s =
     (let ds = takeWhile is_digit s; suffix = dropWhile is_digit s; n = int (read_nat ds) in
      if ds = [] then None
      else if suffix = '''' then Some (n * 1000)
      else if suffix = ''m'' then Some n
      else if suffix = ''Mi'' then Some (n * 1024 ^ 2 * 1000)
      else if suffix = ''Gi'' then Some (n * 1024 ^ 3 * 1000)
      else None)"

definition mem_platform :: "(mem, int) platform" where
  "mem_platform = \<lparr>
     cl_Get = mem_Get, cl_List = mem_List, cl_ListByField = mem_ListByField,
     cl_Create = mem_Create, cl_Update = mem_Update, cl_Delete = mem_Delete,
     cl_StatusUpdate = mem_StatusUpdate, cl_StatusPatch = mem_StatusPatch,
     tm_Now = (\<lambda>w. (m_clock w, w)),
     tm_Sleep = (\<lambda>d w. w\<lparr>m_clock := m_clock w + d\<rparr>),
     tm_LoadLocation = (\<lambda>s. if s = ''UTC'' then Some UTC
                            else if s = ''Etc/GMT-2'' then Some (\<lambda>_. 7200) else None),
     pm_Set = (\<lambda>g l v w. w\<lparr>m_gauges := alist_put (g, l) v (m_gauges w)\<rparr>),
     pm_Delete = (\<lambda>g l w. w\<lparr>m_gauges := alist_del (g, l) (m_gauges w)\<rparr>),
     cu_SetControllerReference = mem_SetControllerReference,
     cu_ContainsFinalizer = (\<lambda>m f. f \<in> set (om_Finalizers m)),
     cu_AddFinalizer = mem_AddFinalizer,
     cu_RemoveFinalizer = (\<lambda>m f. m\<lparr>om_Finalizers := filter (\<lambda>g. g \<noteq> f) (om_Finalizers m)\<rparr>),
     am_SetStatusCondition = mem_SetStatusCondition,
     am_RemoveStatusCondition = (\<lambda>cs t. filter (\<lambda>c. cd_Type c \<noteq> t) cs),
     q_IsZero = (\<lambda>q. q = 0), q_Cmp = (\<lambda>a b. sgn (a - b)), q_Sign = sgn, q_Equal = (=),
     q_String = (\<lambda>q. show_int q @ ''m''), q_Parse = mem_Parse,
     so_Slice = sort_by\<rparr>"

lemma mem_platform_simps [simp]:
  "cl_Get mem_platform = mem_Get" "cl_List mem_platform = mem_List"
  "cl_ListByField mem_platform = mem_ListByField" "cl_Create mem_platform = mem_Create"
  "cl_Update mem_platform = mem_Update" "cl_Delete mem_platform = mem_Delete"
  "cl_StatusUpdate mem_platform = mem_StatusUpdate" "cl_StatusPatch mem_platform = mem_StatusPatch"
  "tm_Now mem_platform w = (m_clock w, w)"
  "tm_Sleep mem_platform d w = w\<lparr>m_clock := m_clock w + d\<rparr>"
  "pm_Set mem_platform g l v w = w\<lparr>m_gauges := alist_put (g, l) v (m_gauges w)\<rparr>"
  "pm_Delete mem_platform g l w = w\<lparr>m_gauges := alist_del (g, l) (m_gauges w)\<rparr>"
  "cu_SetControllerReference mem_platform = mem_SetControllerReference"
  "cu_ContainsFinalizer mem_platform m f \<longleftrightarrow> f \<in> set (om_Finalizers m)"
  "cu_AddFinalizer mem_platform = mem_AddFinalizer"
  "cu_RemoveFinalizer mem_platform m f = m\<lparr>om_Finalizers := filter (\<lambda>g. g \<noteq> f) (om_Finalizers m)\<rparr>"
  "am_SetStatusCondition mem_platform = mem_SetStatusCondition"
  "q_IsZero mem_platform q \<longleftrightarrow> q = 0" "q_Cmp mem_platform a b = sgn (a - b)"
  "q_Sign mem_platform = sgn" "q_Equal mem_platform a b \<longleftrightarrow> a = b" "q_Parse mem_platform = mem_Parse"
  "so_Slice mem_platform = sort_by"
  by (simp_all add: mem_platform_def)

section \<open>The laws hold\<close>

lemma mem_SetControllerReference_owned:
  "mem_SetControllerReference server m = Inr m' \<Longrightarrow>
   owned_by server m' \<and> m' = m\<lparr>om_OwnerReferences := om_OwnerReferences m'\<rparr>"
  by (cases m) (force simp: mem_SetControllerReference_def Let_def owned_by_def split: if_splits)

lemma mem_store_Some: "mem_store w k = Some x \<Longrightarrow> key_of x = k \<and> \<not> gone x"
  by (auto simp: mem_store_def split: option.splits if_splits)

lemma mem_store_fields [simp]:
  "mem_store (w\<lparr>m_clock := c\<rparr>) = mem_store w" "mem_store (w\<lparr>m_gauges := g\<rparr>) = mem_store w"
  by (simp_all add: mem_store_def fun_eq_iff)

lemma mem_all_set: "set (mem_all k ns w) = {x. \<exists>n. mem_store w (k, ns, n) = Some x}"
proof -
  have "(k', ns', n) \<in> fst ` set (m_objs w)" if "mem_store w (k', ns', n) = Some x" for k' ns' n x
    using that map_of_SomeD by (force simp: mem_store_def split: option.splits)
  note dom = this
  have "x \<in> set (mem_all k ns w) \<longleftrightarrow> (\<exists>n. mem_store w (k, ns, n) = Some x)" for x
  proof
    assume "x \<in> set (mem_all k ns w)"
    then show "\<exists>n. mem_store w (k, ns, n) = Some x"
      by (auto simp: mem_all_def List.map_filter_def)
  next
    assume "\<exists>n. mem_store w (k, ns, n) = Some x"
    then obtain n where n: "mem_store w (k, ns, n) = Some x" by blast
    from dom [OF n] have "(k, ns, n) \<in> set (filter (\<lambda>(k', ns', _). k' = k \<and> ns' = ns) (remdups (map fst (m_objs w))))"
      by simp
    with n show "x \<in> set (mem_all k ns w)"
      unfolding mem_all_def List.map_filter_def by (force intro!: image_eqI [of _ _ "(k, ns, n)"])
  qed
  then show ?thesis by blast
qed

interpretation mem_api: kube_api mem_platform mem_store mem_accept
  apply unfold_locales
  subgoal by (simp add: mem_SetControllerReference_owned)
  subgoal by simp
  subgoal for m f by (cases m) (simp add: mem_AddFinalizer_def insert_absorb)
  subgoal by simp
  subgoal by (auto simp: mem_Get_def)
  subgoal by (auto simp: mem_Get_def split: option.splits)
  subgoal by (auto simp: mem_Get_def split: option.splits)
  subgoal by (auto simp: mem_List_def)
  subgoal by (auto simp: mem_List_def mem_all_set)
  subgoal by (auto simp: mem_Create_def split: if_splits)
  subgoal by (auto simp: mem_Create_def split: if_splits)
  subgoal by (auto simp: mem_Create_def split: if_splits)
  subgoal by (auto simp: mem_Update_def split: option.splits)
  subgoal by (auto simp: mem_Update_def split: option.splits)
  subgoal by (auto simp: mem_Delete_def key_of_def split: option.splits if_splits dest: mem_store_Some)
  subgoal by (auto simp: mem_Delete_def split: option.splits if_splits)
  subgoal by (auto simp: mem_Delete_def key_of_def split: option.splits if_splits dest!: mem_store_Some)
  subgoal by (auto simp: key_of_def gone_def split: option.splits kobj.splits dest!: mem_store_Some)
  subgoal for x by (cases x) (auto simp: key_of_def split: option.splits kobj.splits dest!: mem_store_Some)
  by (auto dest: mem_store_Some)

section \<open>A sample resource\<close>

definition demo_spec :: "int EnshroudedServerSpec" where
  "demo_spec = \<lparr>
     ServerName = ''Demo'', ServerPasswordSecretRef = None, Port = 15637, SteamPort = 27015,
     ServerSlots = 16, ServerIP = ''0.0.0.0'',
     Image = \<lparr>Repository = ''ghcr.io/payback159/enshrouded-server'', Tag = ''v1'', PullPolicy = ''IfNotPresent''\<rparr>,
     Resources = \<lparr>Requests = [''cpu'' \<mapsto> 2000], Limits = Map.empty\<rparr>,
     Storage = \<lparr>Size = 10737418240000, StorageClassName = None, RetainOnDelete = Some True\<rparr>,
     UserGroups = [],
     UpdatePolicy = \<lparr>DeferWhilePlaying = True, MaintenanceWindows = [], UpgradeStrategy = ''NoSnapshot''\<rparr>,
     Backup = \<lparr>bk_VolumeSnapshot = \<lparr>vsb_Enabled = False, vsb_Schedule = ''0 3 * * *'', vsb_RetainCount = 3,
                  vsb_VolumeSnapshotClassName = None\<rparr>, bk_S3 = None\<rparr>,
     MetricsSidecar = \<lparr>ms_Enabled = False, ms_Image = '''', ms_MetricsPort = 9090, ms_ScrapeIntervalSeconds = 15\<rparr>,
     VerticalScaling = \<lparr>vsc_Enabled = False, vsc_UpdateMode = ''Off'', vsc_MinAllowed = Map.empty,
                        vsc_MaxAllowed = Map.empty\<rparr>\<rparr>"

definition demo :: "int EnshroudedServer" where
  "demo = \<lparr>es_Meta = (new_meta ''srv'' ''games'' Map.empty)\<lparr>om_UID := ''u1''\<rparr>, Spec = demo_spec,
     Status = \<lparr>Phase = '''', ReadyReplicas = 0, ActivePlayers = 0, GameVersion = '''',
       UpdateDeferred = False, Conditions = []\<rparr>\<rparr>"

definition mem_init :: "int kobj list \<Rightarrow> mem" where
  "mem_init xs = \<lparr>m_objs = map (\<lambda>x. (key_of x, x)) xs, m_clock = 0, m_gauges = []\<rparr>"

definition world_init :: "int kobj list \<Rightarrow> (mem, int) world" where
  "world_init xs = \<lparr>env = mem_init xs, trace = []\<rparr>"

lemma demo_simps [simp]:
  "sname demo = ''srv''" "snamespace demo = ''games''" "Spec demo = demo_spec"
  by (simp_all add: demo_def sname_def snamespace_def)

lemmas mem_eval = world_init_def mem_init_def mem_store_def
  mem_Get_def key_of_def gone_def new_meta_def demo_def demo_spec_def

end
