(* ===== verification/Go_Net.thy ===== *)
theory Go_Net
  imports Go_Prelude
begin

text \<open>
  \<^verbatim>\<open>net.ParseIP\<close> of the Go standard library, which the admission webhook uses as a test: the
  dotted-decimal parser (\<open>parseIPv4Fields\<close>), the colon-hexadecimal one (\<open>parseIPv6\<close>) and their
  choice. Only acceptance matters to the callers, so the address itself is not built. The last
  section shows that the printed form of every IPv4 address is accepted.
\<close>

section \<open>The parser\<close>

text \<open>
  The loop of \<open>parseIPv4Fields\<close>. \<open>first\<close> is true at the beginning and after a dot (the tests
  \<^verbatim>\<open>i == 0\<close> and \<^verbatim>\<open>s[i-1] == '.'\<close> for an empty octet), \<open>pos\<close> counts the finished octets.
\<close>

fun parseIPv4_loop :: "nat \<Rightarrow> nat \<Rightarrow> nat \<Rightarrow> bool \<Rightarrow> string \<Rightarrow> bool" where
  "parseIPv4_loop val pos digLen first [] = (\<not> pos < 3)"
| "parseIPv4_loop val pos digLen first (c # cs) =
     (if is_digit c then
        (if digLen = 1 \<and> val = 0 then False
         else if val * 10 + digit_val c > 255 then False
         else parseIPv4_loop (val * 10 + digit_val c) pos (digLen + 1) False cs)
      else if c = CHR ''.'' then
        (if first \<or> cs = [] then False
         else if pos = 3 then False
         else parseIPv4_loop 0 (pos + 1) 0 True cs)
      else False)"

definition parseIPv4 :: "string \<Rightarrow> bool" where
  "parseIPv4 s = parseIPv4_loop 0 0 0 True s"

definition is_hex :: "char \<Rightarrow> bool" where
  "is_hex c \<longleftrightarrow> is_digit c \<or> c \<in> set ''abcdefABCDEF''"

text \<open>
  The loop of \<open>parseIPv6\<close>: \<open>i\<close> is the number of bytes filled so far, \<open>ell\<close> whether the double
  colon was seen. A group is the longest run of hexadecimal digits, one to four of them.
\<close>

function parseIPv6_loop :: "nat \<Rightarrow> bool \<Rightarrow> string \<Rightarrow> bool" where
  "parseIPv6_loop i ell s =
     (if i \<ge> 16 then s = [] \<and> \<not> ell
      else
        let g = takeWhile is_hex s; r = drop (length g) s in
        if g = [] \<or> length g > 4 then False
        else if r \<noteq> [] \<and> hd r = CHR ''.'' then
          (if (\<not> ell \<and> i \<noteq> 12) \<or> i + 4 > 16 then False
           else parseIPv4 s \<and> (if i + 4 < 16 then ell else \<not> ell))
        else if r = [] then (if i + 2 < 16 then ell else \<not> ell)
        else if hd r \<noteq> CHR '':'' \<or> tl r = [] then False
        else if hd (tl r) = CHR '':'' then
          (if ell then False
           else if tl (tl r) = [] then i + 2 < 16
           else parseIPv6_loop (i + 2) True (tl (tl r)))
        else parseIPv6_loop (i + 2) ell (tl r))"
  by pat_completeness auto
termination
  by (relation "measure (\<lambda>(i, ell, s). 16 - i)") auto

declare parseIPv6_loop.simps [simp del]

definition parseIPv6 :: "string \<Rightarrow> bool" where
  "parseIPv6 s =
     (if CHR ''%'' \<in> set s then False
      else if take 2 s = ''::'' then (if drop 2 s = [] then True else parseIPv6_loop 0 True (drop 2 s))
      else parseIPv6_loop 0 False s)"

text \<open>The first dot, colon or percent sign decides.\<close>

fun ParseAddr_loop :: "string \<Rightarrow> string \<Rightarrow> bool" where
  "ParseAddr_loop s [] = False"
| "ParseAddr_loop s (c # cs) =
     (if c = CHR ''.'' then parseIPv4 s
      else if c = CHR '':'' then parseIPv6 s
      else if c = CHR ''%'' then False
      else ParseAddr_loop s cs)"

text \<open>\<open>ParseIP s\<close>: whether \<^verbatim>\<open>net.ParseIP(s)\<close> is not \<^verbatim>\<open>nil\<close>.\<close>

definition ParseIP :: "string \<Rightarrow> bool" where
  "ParseIP s = ParseAddr_loop s s"

section \<open>Printed IPv4 addresses\<close>

definition print_IPv4 :: "nat \<Rightarrow> nat \<Rightarrow> nat \<Rightarrow> nat \<Rightarrow> string" where
  "print_IPv4 a b c d = show_nat a @ ''.'' @ show_nat b @ ''.'' @ show_nat c @ ''.'' @ show_nat d"

lemma dot_not_digit [simp]: "\<not> is_digit (CHR ''.'')"
  by (simp add: is_digit_def)

lemma show_nat_cases:
  assumes "n \<le> 255"
  obtains (one) a where "a < 10" "n = a" "show_nat n = [char_of (48 + a)]"
  | (two) a b where "0 < a" "a < 10" "b < 10" "n = a * 10 + b"
      "show_nat n = [char_of (48 + a), char_of (48 + b)]"
  | (three) a b c where "0 < a" "a < 10" "b < 10" "c < 10" "n = (a * 10 + b) * 10 + c"
      "show_nat n = [char_of (48 + a), char_of (48 + b), char_of (48 + c)]"
proof -
  consider "n < 10" | "10 \<le> n" "n < 100" | "100 \<le> n" by linarith
  then show ?thesis
  proof cases
    case 1
    then show ?thesis using one [of n] by (simp add: show_nat.simps)
  next
    case 2
    then have h: "n div 10 < 10" "0 < n div 10" "n = n div 10 * 10 + n mod 10" by auto
    have "show_nat n = [char_of (48 + n div 10), char_of (48 + n mod 10)]"
      using 2 h(1) by (simp add: show_nat.simps [of n] show_nat.simps [of "n div 10"])
    with h show ?thesis using two [of "n div 10" "n mod 10"] by simp
  next
    case 3
    have h: "n div 10 div 10 < 10" using assms by linarith
    have "0 < n div 10 div 10" "\<not> n div 10 < 10" "\<not> n < 10" using 3 by linarith+
    moreover have "n = (n div 10 div 10 * 10 + n div 10 mod 10) * 10 + n mod 10" by simp
    ultimately show ?thesis using h three [of "n div 10 div 10" "n div 10 mod 10" "n mod 10"]
      by (simp add: show_nat.simps [of n] show_nat.simps [of "n div 10"]
                    show_nat.simps [of "n div 10 div 10"])
  qed
qed

text \<open>One octet, read from its first digit: the loop ends with its value.\<close>

lemma parseIPv4_octet:
  assumes "n \<le> 255"
  shows "\<exists>l. parseIPv4_loop 0 pos 0 True (show_nat n @ rest) = parseIPv4_loop n pos (Suc l) False rest"
  using assms
proof (cases rule: show_nat_cases)
  case (one a)
  then show ?thesis using assms by (auto intro!: exI [of _ 0])
next
  case (two a b)
  then show ?thesis using assms by (auto intro!: exI [of _ 1])
next
  case (three a b c)
  then show ?thesis using assms by (auto intro!: exI [of _ "Suc (Suc 0)"])
qed

lemma parseIPv4_dot:
  "pos < 3 \<Longrightarrow> rest \<noteq> [] \<Longrightarrow>
   parseIPv4_loop val pos (Suc l) False (''.'' @ rest) = parseIPv4_loop 0 (Suc pos) 0 True rest"
  by simp

lemma ParseAddr_loop_digits:
  "list_all is_digit xs \<Longrightarrow> ParseAddr_loop s (xs @ ys) = ParseAddr_loop s ys"
  by (induction xs) (auto simp: is_digit_def)

lemma parseIPv4_print:
  assumes "a \<le> 255" "b \<le> 255" "c \<le> 255" "d \<le> 255"
  shows "parseIPv4 (print_IPv4 a b c d)"
proof -
  have step: "parseIPv4_loop 0 pos 0 True (show_nat n @ ''.'' @ rest) =
      parseIPv4_loop 0 (Suc pos) 0 True rest"
    if "n \<le> 255" "pos < 3" "rest \<noteq> []" for n pos rest
    using parseIPv4_octet [OF that(1), of pos "''.'' @ rest"] parseIPv4_dot [OF that(2,3)] by metis
  have "parseIPv4_loop 0 3 0 True (show_nat d)"
    using parseIPv4_octet [OF assms(4), of 3 "[]"] by auto
  then show ?thesis
    using assms by (simp add: parseIPv4_def print_IPv4_def step [simplified] eval_nat_numeral)
qed

lemma ParseIP_print_IPv4:
  assumes "a \<le> 255" "b \<le> 255" "c \<le> 255" "d \<le> 255"
  shows "ParseIP (print_IPv4 a b c d)"
proof -
  have "list_all is_digit (show_nat a)"
    using show_nat_digits [of a] by (simp add: list_all_iff)
  from ParseAddr_loop_digits [OF this] parseIPv4_print [OF assms] show ?thesis
    by (simp add: ParseIP_def print_IPv4_def)
qed

end
