(* ===== verification/Webhook.thy ===== *)
theory Webhook
  imports Mem_Cluster Go_Net
begin

text \<open>
  The admission webhook of \<^verbatim>\<open>internal/webhook/v1alpha1/enshroudedserver_webhook.go\<close>: the defaulter
  and the validator of the custom resource. A validation result is the list of field errors, empty
  for an accepted object (the warnings are always \<^verbatim>\<open>nil\<close>).

  The properties: the defaulter fills every field it knows and touches nothing else, running it
  twice is running it once, the validator reports exactly the violated rules, and in every sequence
  of admitted writes of one resource the rules hold at every moment and the storage never shrinks.
\<close>

section \<open>The code\<close>

definition defaultServerIP :: string where
  "defaultServerIP = ''0.0.0.0''"

definition defaultImageRepository :: string where
  "defaultImageRepository = ''ghcr.io/payback159/enshrouded-server''"

definition Default :: "('w, 'q) platform \<Rightarrow> 'q EnshroudedServer \<Rightarrow> gerror + 'q EnshroudedServer" where
  "Default p obj =
    (let spec = Spec obj;
         spec = (if ServerName spec = '''' then spec\<lparr>ServerName := ''Enshrouded Server''\<rparr> else spec);
         spec = (if Port spec = 0 then spec\<lparr>Port := 15637\<rparr> else spec);
         spec = (if SteamPort spec = 0 then spec\<lparr>SteamPort := 27015\<rparr> else spec);
         spec = (if ServerSlots spec = 0 then spec\<lparr>ServerSlots := 16\<rparr> else spec);
         spec = (if ServerIP spec = '''' then spec\<lparr>ServerIP := defaultServerIP\<rparr> else spec);
         spec = (if Repository (Image spec) = ''''
                 then spec\<lparr>Image := (Image spec)\<lparr>Repository := defaultImageRepository\<rparr>\<rparr> else spec);
         spec = (if Tag (Image spec) = '''' then spec\<lparr>Image := (Image spec)\<lparr>Tag := ''latest''\<rparr>\<rparr> else spec);
         spec = (if PullPolicy (Image spec) = ''''
                 then spec\<lparr>Image := (Image spec)\<lparr>PullPolicy := ''IfNotPresent''\<rparr>\<rparr> else spec)
     in case (if q_IsZero p (Size (Storage spec)) then MustParse p ''10Gi'' else Inr (Size (Storage spec))) of
          Inl e \<Rightarrow> Inl e
        | Inr sz \<Rightarrow>
           (let spec = spec\<lparr>Storage := (Storage spec)\<lparr>Size := sz\<rparr>\<rparr>;
                spec = (if RetainOnDelete (Storage spec) = None
                        then spec\<lparr>Storage := (Storage spec)\<lparr>RetainOnDelete := Some True\<rparr>\<rparr> else spec)
            in Inr (obj\<lparr>Spec := spec\<rparr>)))"

datatype bad_value = BadInt int32 | BadString string

datatype field_error = Invalid "string list" bad_value string | Required "string list" string

definition validateEnshroudedServer :: "('w, 'q) platform \<Rightarrow> 'q EnshroudedServer \<Rightarrow> field_error list" where
  "validateEnshroudedServer p obj =
    (let spec = Spec obj;
         allErrs = [];
         allErrs = (if Port spec \<noteq> 0 \<and> SteamPort spec \<noteq> 0 \<and> Port spec = SteamPort spec
           then allErrs @ [Invalid [''spec'', ''steamPort''] (BadInt (SteamPort spec))
                             ''steamPort must differ from port'']
           else allErrs);
         allErrs = (if ServerIP spec \<noteq> '''' \<and> ServerIP spec \<noteq> defaultServerIP then
             (if \<not> ParseIP (ServerIP spec)
              then allErrs @ [Invalid [''spec'', ''serverIP''] (BadString (ServerIP spec))
                                ''must be a valid IP address'']
              else allErrs)
           else allErrs);
         allErrs = (case ServerPasswordSecretRef spec of
             None \<Rightarrow> allErrs
           | Some ref \<Rightarrow>
              (let allErrs = (if skr_Name ref = ''''
                 then allErrs @ [Required [''spec'', ''serverPasswordSecretRef'', ''name'']
                                   ''secret name must not be empty'']
                 else allErrs)
               in if skr_Key ref = ''''
                  then allErrs @ [Required [''spec'', ''serverPasswordSecretRef'', ''key'']
                                    ''secret key must not be empty'']
                  else allErrs));
         allErrs = (if Repository (Image spec) = ''''
           then allErrs @ [Required [''spec'', ''image'', ''repository'']
                             ''image repository must not be empty'']
           else allErrs);
         allErrs = (if \<not> q_IsZero p (Size (Storage spec)) \<and> q_Sign p (Size (Storage spec)) < 0
           then allErrs @ [Invalid [''spec'', ''storage'', ''size'']
                             (BadString (q_String p (Size (Storage spec))))
                             ''storage size must be positive'']
           else allErrs)
     in allErrs)"

definition ValidateCreate :: "('w, 'q) platform \<Rightarrow> 'q EnshroudedServer \<Rightarrow> field_error list" where
  "ValidateCreate p obj = validateEnshroudedServer p obj"

definition ValidateUpdate ::
  "('w, 'q) platform \<Rightarrow> 'q EnshroudedServer \<Rightarrow> 'q EnshroudedServer \<Rightarrow> field_error list" where
  "ValidateUpdate p oldObj newObj =
    (let errs = validateEnshroudedServer p newObj in
     if errs \<noteq> [] then errs
     else
       let oldSize = Size (Storage (Spec oldObj)); newSize = Size (Storage (Spec newObj)) in
       if \<not> q_IsZero p oldSize \<and> q_Cmp p newSize oldSize < 0
       then [Invalid [''spec'', ''storage'', ''size''] (BadString (q_String p newSize))
               (''storage size may not be reduced (current: '' @ q_String p oldSize @ '')'')]
       else [])"

definition ValidateDelete :: "'q EnshroudedServer \<Rightarrow> field_error list" where
  "ValidateDelete obj = []"

section \<open>The rules, declaratively\<close>

definition ports_ok :: "'q EnshroudedServerSpec \<Rightarrow> bool" where
  "ports_ok spec \<longleftrightarrow> Port spec = 0 \<or> SteamPort spec = 0 \<or> Port spec \<noteq> SteamPort spec"

definition ip_ok :: "'q EnshroudedServerSpec \<Rightarrow> bool" where
  "ip_ok spec \<longleftrightarrow> ServerIP spec = '''' \<or> ServerIP spec = defaultServerIP \<or> ParseIP (ServerIP spec)"

definition password_ref_ok :: "'q EnshroudedServerSpec \<Rightarrow> bool" where
  "password_ref_ok spec \<longleftrightarrow>
     (case ServerPasswordSecretRef spec of None \<Rightarrow> True | Some r \<Rightarrow> skr_Name r \<noteq> '''' \<and> skr_Key r \<noteq> '''')"

definition size_ok :: "('w, 'q) platform \<Rightarrow> 'q EnshroudedServerSpec \<Rightarrow> bool" where
  "size_ok p spec \<longleftrightarrow> q_IsZero p (Size (Storage spec)) \<or> 0 \<le> q_Sign p (Size (Storage spec))"

definition spec_ok :: "('w, 'q) platform \<Rightarrow> 'q EnshroudedServerSpec \<Rightarrow> bool" where
  "spec_ok p spec \<longleftrightarrow> ports_ok spec \<and> ip_ok spec \<and> password_ref_ok spec \<and>
     Repository (Image spec) \<noteq> '''' \<and> size_ok p spec"

lemmas rule_defs = ports_ok_def ip_ok_def password_ref_ok_def size_ok_def spec_ok_def

text \<open>Every field the defaulter knows has a value.\<close>

definition defaulted :: "('w, 'q) platform \<Rightarrow> 'q EnshroudedServerSpec \<Rightarrow> bool" where
  "defaulted p spec \<longleftrightarrow> ServerName spec \<noteq> '''' \<and> Port spec \<noteq> 0 \<and> SteamPort spec \<noteq> 0 \<and>
     ServerSlots spec \<noteq> 0 \<and> ServerIP spec \<noteq> '''' \<and> Repository (Image spec) \<noteq> '''' \<and>
     Tag (Image spec) \<noteq> '''' \<and> PullPolicy (Image spec) \<noteq> '''' \<and>
     \<not> q_IsZero p (Size (Storage spec)) \<and> RetainOnDelete (Storage spec) \<noteq> None"

text \<open>What the code relies on of the quantity \<^verbatim>\<open>10Gi\<close>: it parses, and is not zero.\<close>

definition default_size :: "('w, 'q) platform \<Rightarrow> 'q \<Rightarrow> bool" where
  "default_size p q \<longleftrightarrow> q_Parse p ''10Gi'' = Some q \<and> \<not> q_IsZero p q"

section \<open>Lemmas\<close>

lemma snoc_if: "(if b then xs @ [x] else xs) = xs @ (if b then [x] else [])"
  by simp

text \<open>The error list as one part per rule.\<close>

lemma validate_parts:
  "validateEnshroudedServer p obj =
     (if ports_ok (Spec obj) then [] else [Invalid [''spec'', ''steamPort'']
        (BadInt (SteamPort (Spec obj))) ''steamPort must differ from port'']) @
     (if ip_ok (Spec obj) then [] else [Invalid [''spec'', ''serverIP'']
        (BadString (ServerIP (Spec obj))) ''must be a valid IP address'']) @
     (case ServerPasswordSecretRef (Spec obj) of None \<Rightarrow> [] | Some ref \<Rightarrow>
        (if skr_Name ref = '''' then [Required [''spec'', ''serverPasswordSecretRef'', ''name'']
           ''secret name must not be empty''] else []) @
        (if skr_Key ref = '''' then [Required [''spec'', ''serverPasswordSecretRef'', ''key'']
           ''secret key must not be empty''] else [])) @
     (if Repository (Image (Spec obj)) = '''' then [Required [''spec'', ''image'', ''repository'']
        ''image repository must not be empty''] else []) @
     (if size_ok p (Spec obj) then [] else [Invalid [''spec'', ''storage'', ''size'']
        (BadString (q_String p (Size (Storage (Spec obj))))) ''storage size must be positive''])"
  unfolding validateEnshroudedServer_def Let_def snoc_if
  by (cases "ServerPasswordSecretRef (Spec obj)")
     (simp_all add: ports_ok_def ip_ok_def size_ok_def)

lemma validate_iff: "validateEnshroudedServer p obj = [] \<longleftrightarrow> spec_ok p (Spec obj)"
  unfolding validate_parts spec_ok_def password_ref_ok_def by (simp split: option.split)

text \<open>The statements of the defaulter one by one, each an assignment of a conditional value.\<close>

definition dflt_ServerName :: "'q EnshroudedServerSpec \<Rightarrow> 'q EnshroudedServerSpec" where
  "dflt_ServerName spec = (if ServerName spec = '''' then spec\<lparr>ServerName := ''Enshrouded Server''\<rparr> else spec)"

definition dflt_Port :: "'q EnshroudedServerSpec \<Rightarrow> 'q EnshroudedServerSpec" where
  "dflt_Port spec = (if Port spec = 0 then spec\<lparr>Port := 15637\<rparr> else spec)"

definition dflt_SteamPort :: "'q EnshroudedServerSpec \<Rightarrow> 'q EnshroudedServerSpec" where
  "dflt_SteamPort spec = (if SteamPort spec = 0 then spec\<lparr>SteamPort := 27015\<rparr> else spec)"

definition dflt_ServerSlots :: "'q EnshroudedServerSpec \<Rightarrow> 'q EnshroudedServerSpec" where
  "dflt_ServerSlots spec = (if ServerSlots spec = 0 then spec\<lparr>ServerSlots := 16\<rparr> else spec)"

definition dflt_ServerIP :: "'q EnshroudedServerSpec \<Rightarrow> 'q EnshroudedServerSpec" where
  "dflt_ServerIP spec = (if ServerIP spec = '''' then spec\<lparr>ServerIP := defaultServerIP\<rparr> else spec)"

definition dflt_Repository :: "'q EnshroudedServerSpec \<Rightarrow> 'q EnshroudedServerSpec" where
  "dflt_Repository spec = (if Repository (Image spec) = ''''
     then spec\<lparr>Image := (Image spec)\<lparr>Repository := defaultImageRepository\<rparr>\<rparr> else spec)"

definition dflt_Tag :: "'q EnshroudedServerSpec \<Rightarrow> 'q EnshroudedServerSpec" where
  "dflt_Tag spec = (if Tag (Image spec) = ''''
     then spec\<lparr>Image := (Image spec)\<lparr>Tag := ''latest''\<rparr>\<rparr> else spec)"

definition dflt_PullPolicy :: "'q EnshroudedServerSpec \<Rightarrow> 'q EnshroudedServerSpec" where
  "dflt_PullPolicy spec = (if PullPolicy (Image spec) = ''''
     then spec\<lparr>Image := (Image spec)\<lparr>PullPolicy := ''IfNotPresent''\<rparr>\<rparr> else spec)"

definition dflt_RetainOnDelete :: "'q EnshroudedServerSpec \<Rightarrow> 'q EnshroudedServerSpec" where
  "dflt_RetainOnDelete spec = (if RetainOnDelete (Storage spec) = None
     then spec\<lparr>Storage := (Storage spec)\<lparr>RetainOnDelete := Some True\<rparr>\<rparr> else spec)"

lemmas dflt_defs = dflt_ServerName_def dflt_Port_def dflt_SteamPort_def dflt_ServerSlots_def dflt_ServerIP_def dflt_Repository_def dflt_Tag_def dflt_PullPolicy_def dflt_RetainOnDelete_def

lemma dflt_assign:
  "dflt_ServerName spec = spec\<lparr>ServerName := (if ServerName spec = '''' then ''Enshrouded Server'' else ServerName spec)\<rparr>"
  "dflt_Port spec = spec\<lparr>Port := (if Port spec = 0 then 15637 else Port spec)\<rparr>"
  "dflt_SteamPort spec = spec\<lparr>SteamPort := (if SteamPort spec = 0 then 27015 else SteamPort spec)\<rparr>"
  "dflt_ServerSlots spec = spec\<lparr>ServerSlots := (if ServerSlots spec = 0 then 16 else ServerSlots spec)\<rparr>"
  "dflt_ServerIP spec = spec\<lparr>ServerIP := (if ServerIP spec = '''' then defaultServerIP else ServerIP spec)\<rparr>"
  "dflt_Repository spec = spec\<lparr>Image := (Image spec)\<lparr>Repository :=
     (if Repository (Image spec) = '''' then defaultImageRepository else Repository (Image spec))\<rparr>\<rparr>"
  "dflt_Tag spec = spec\<lparr>Image := (Image spec)\<lparr>Tag :=
     (if Tag (Image spec) = '''' then ''latest'' else Tag (Image spec))\<rparr>\<rparr>"
  "dflt_PullPolicy spec = spec\<lparr>Image := (Image spec)\<lparr>PullPolicy :=
     (if PullPolicy (Image spec) = '''' then ''IfNotPresent'' else PullPolicy (Image spec))\<rparr>\<rparr>"
  "dflt_RetainOnDelete spec = spec\<lparr>Storage := (Storage spec)\<lparr>RetainOnDelete :=
     (if RetainOnDelete (Storage spec) = None then Some True else RetainOnDelete (Storage spec))\<rparr>\<rparr>"
  by (simp_all add: dflt_defs)

text \<open>The defaulter in one step: every known field gets its default where it is unset.\<close>

definition fill :: "'q \<Rightarrow> 'q EnshroudedServerSpec \<Rightarrow> 'q EnshroudedServerSpec" where
  "fill sz spec = spec\<lparr>
     ServerName := (if ServerName spec = '''' then ''Enshrouded Server'' else ServerName spec),
     Port := (if Port spec = 0 then 15637 else Port spec),
     SteamPort := (if SteamPort spec = 0 then 27015 else SteamPort spec),
     ServerSlots := (if ServerSlots spec = 0 then 16 else ServerSlots spec),
     ServerIP := (if ServerIP spec = '''' then defaultServerIP else ServerIP spec),
     Image := \<lparr>
       Repository = (if Repository (Image spec) = '''' then defaultImageRepository else Repository (Image spec)),
       Tag = (if Tag (Image spec) = '''' then ''latest'' else Tag (Image spec)),
       PullPolicy = (if PullPolicy (Image spec) = '''' then ''IfNotPresent'' else PullPolicy (Image spec))\<rparr>,
     Storage := \<lparr>Size = sz, StorageClassName = StorageClassName (Storage spec),
       RetainOnDelete = (if RetainOnDelete (Storage spec) = None then Some True
                         else RetainOnDelete (Storage spec))\<rparr>\<rparr>"

lemma Default_fill:
  "Default p obj =
     map_sum id (\<lambda>sz. obj\<lparr>Spec := fill sz (Spec obj)\<rparr>)
       (if q_IsZero p (Size (Storage (Spec obj))) then MustParse p ''10Gi''
        else Inr (Size (Storage (Spec obj))))"
  unfolding Default_def dflt_defs [symmetric] Let_def
  by (cases "q_IsZero p (Size (Storage (Spec obj)))"; cases "MustParse p ''10Gi''";
      cases "Image (Spec obj)"; cases "Storage (Spec obj)")
     (simp_all add: dflt_assign fill_def split del: if_split cong: if_cong)

lemma fill_defaulted:
  "\<not> q_IsZero p sz \<Longrightarrow> defaulted p (fill sz spec)"
  by (auto simp: fill_def defaulted_def defaultServerIP_def defaultImageRepository_def)

lemma fill_id: "defaulted p spec \<Longrightarrow> fill (Size (Storage spec)) spec = spec"
  by (cases "Image spec"; cases "Storage spec") (simp add: fill_def defaulted_def)

lemma Default_Inr:
  assumes "default_size p q"
  obtains sz where "Default p obj = Inr (obj\<lparr>Spec := fill sz (Spec obj)\<rparr>)" "\<not> q_IsZero p sz"
    "sz = (if q_IsZero p (Size (Storage (Spec obj))) then q else Size (Storage (Spec obj)))"
  using assms that by (auto simp: Default_fill default_size_def MustParse_def)

lemma Default_of_defaulted: "defaulted p (Spec obj) \<Longrightarrow> Default p obj = Inr obj"
  by (simp add: Default_fill fill_id) (simp add: defaulted_def)

lemma Default_defaulted:
  "default_size p q \<Longrightarrow> Default p obj = Inr obj' \<Longrightarrow> defaulted p (Spec obj')"
  by (rule Default_Inr [of p q obj]) (auto simp: fill_defaulted)

section \<open>Admission as a state machine\<close>

text \<open>
  The API server sends every write first to the defaulter and the result to the validator. The
  states of one resource over time: created once, then replaced by admitted updates.
\<close>

definition admitted_update ::
  "('w, 'q) platform \<Rightarrow> 'q EnshroudedServer \<Rightarrow> 'q EnshroudedServer \<Rightarrow> bool" where
  "admitted_update p old new \<longleftrightarrow> (\<exists>obj. Default p obj = Inr new) \<and> ValidateUpdate p old new = []"

inductive admitted :: "('w, 'q) platform \<Rightarrow> 'q EnshroudedServer list \<Rightarrow> bool" for p where
  created: "Default p obj = Inr s \<Longrightarrow> ValidateCreate p s = [] \<Longrightarrow> admitted p [s]"
| updated: "admitted p (old # hist) \<Longrightarrow> admitted_update p old new \<Longrightarrow> admitted p (new # old # hist)"

inductive_cases admitted_ConsE: "admitted p (s # hist)"

lemma admitted_not_Nil: "admitted p hist \<Longrightarrow> hist \<noteq> []"
  by (induction rule: admitted.induct) simp_all

lemma ValidateUpdate_iff:
  "ValidateUpdate p old new = [] \<longleftrightarrow> spec_ok p (Spec new) \<and>
     (q_IsZero p (Size (Storage (Spec old))) \<or>
      0 \<le> q_Cmp p (Size (Storage (Spec new))) (Size (Storage (Spec old))))"
  by (simp add: ValidateUpdate_def Let_def validate_iff [symmetric] not_less)

text \<open>
  What the histories rely on of quantities: \<open>10Gi\<close> is a quantity that is not zero, and \<^verbatim>\<open>Cmp\<close>
  is the comparison of a preorder.
\<close>

locale quantities =
  fixes p :: "('w, 'q) platform"
  assumes ten_Gi: "\<exists>q. q_Parse p ''10Gi'' = Some q \<and> \<not> q_IsZero p q"
    and cmp_refl: "q_Cmp p a a = 0"
    and cmp_trans: "0 \<le> q_Cmp p b a \<Longrightarrow> 0 \<le> q_Cmp p c b \<Longrightarrow> 0 \<le> q_Cmp p c a"
begin

lemma Default_fills: "Default p obj = Inr s \<Longrightarrow> defaulted p (Spec s)"
  using ten_Gi by (auto simp: default_size_def [symmetric] intro: Default_defaulted)

lemma admitted_defaulted: "admitted p hist \<Longrightarrow> s \<in> set hist \<Longrightarrow> defaulted p (Spec s)"
  by (induction rule: admitted.induct) (auto simp: admitted_update_def intro: Default_fills)

lemma admitted_spec_ok: "admitted p hist \<Longrightarrow> s \<in> set hist \<Longrightarrow> spec_ok p (Spec s)"
  by (induction rule: admitted.induct)
     (auto simp: admitted_update_def ValidateUpdate_iff ValidateCreate_def validate_iff)

lemma admitted_grows:
  assumes "admitted p (new # hist)" "old \<in> set hist"
  shows "0 \<le> q_Cmp p (Size (Storage (Spec new))) (Size (Storage (Spec old)))"
  using assms
proof (induction "new # hist" arbitrary: new hist rule: admitted.induct)
  case (created obj)
  then show ?case by simp
next
  case (updated prev hist' new)
  have "defaulted p (Spec prev)" using admitted_defaulted updated.hyps(1) by simp
  with updated.hyps have step: "0 \<le> q_Cmp p (Size (Storage (Spec new))) (Size (Storage (Spec prev)))"
    by (simp add: admitted_update_def ValidateUpdate_iff defaulted_def)
  show ?case
  proof (cases "old = prev")
    case True
    with step show ?thesis by simp
  next
    case False
    with updated.prems have "old \<in> set hist'" using updated.hyps by auto
    with updated.hyps(2) have "0 \<le> q_Cmp p (Size (Storage (Spec prev))) (Size (Storage (Spec old)))"
      by simp
    with step show ?thesis by (blast intro: cmp_trans)
  qed
qed

end

interpretation mem_quantities: quantities mem_platform
  by unfold_locales (auto simp: mem_Parse_def Let_def is_digit_def read_nat_def digit_val_def sgn_if split: if_splits)

section \<open>Properties\<close>

text \<open>
  C8. A history of admitted writes of one resource: every state in it satisfies all rules of the
  validator and has every default filled in, and the newest state never requests less storage than
  any earlier one.
\<close>

theorem admitted_history_invariant:
  assumes "quantities p" "admitted p (new # hist)"
  shows "list_all (\<lambda>s. spec_ok p (Spec s) \<and> defaulted p (Spec s)) (new # hist) \<and>
    list_all (\<lambda>s. 0 \<le> q_Cmp p (Size (Storage (Spec new))) (Size (Storage (Spec s)))) hist"
  using quantities.admitted_spec_ok [OF assms] quantities.admitted_defaulted [OF assms]
    quantities.admitted_grows [OF assms]
  by (simp add: list_all_iff)

theorem admitted_history_invariant_witness:
  "admitted mem_platform [demo, demo] \<and>
   list_all (\<lambda>s. spec_ok mem_platform (Spec s) \<and> defaulted mem_platform (Spec s)) [demo, demo] \<and>
   list_all (\<lambda>s. 0 \<le> q_Cmp mem_platform (Size (Storage (Spec demo))) (Size (Storage (Spec s)))) [demo]"
proof -
  have d: "Default mem_platform demo = Inr demo"
    by (rule Default_of_defaulted) (simp add: defaulted_def demo_spec_def)
  have ok: "spec_ok mem_platform (Spec demo)"
    by (simp add: rule_defs demo_spec_def defaultServerIP_def)
  have "admitted mem_platform [demo]"
    using d ok by (intro admitted.created) (simp_all add: ValidateCreate_def validate_iff)
  then have "admitted mem_platform [demo, demo]"
    by (rule admitted.updated) (use d ok in \<open>auto simp: admitted_update_def ValidateUpdate_iff\<close>)
  from this admitted_history_invariant [OF mem_quantities.quantities_axioms this] show ?thesis by simp
qed

text \<open>
  C27. The defaulter never fails, fills every field it knows, keeps a field that was set, changes
  nothing but the fields it knows, and is idempotent.
\<close>

theorem Default_spec:
  assumes "default_size p q"
  shows "\<exists>sz. Default p obj = Inr (obj\<lparr>Spec := fill sz (Spec obj)\<rparr>) \<and>
    defaulted p (fill sz (Spec obj)) \<and>
    (\<not> q_IsZero p (Size (Storage (Spec obj))) \<longrightarrow> sz = Size (Storage (Spec obj))) \<and>
    Default p (obj\<lparr>Spec := fill sz (Spec obj)\<rparr>) = Inr (obj\<lparr>Spec := fill sz (Spec obj)\<rparr>)"
proof -
  obtain sz where sz: "Default p obj = Inr (obj\<lparr>Spec := fill sz (Spec obj)\<rparr>)" "\<not> q_IsZero p sz"
    "sz = (if q_IsZero p (Size (Storage (Spec obj))) then q else Size (Storage (Spec obj)))"
    by (rule Default_Inr [OF assms])
  then have "defaulted p (fill sz (Spec obj))" by (simp add: fill_defaulted)
  moreover from this have
    "Default p (obj\<lparr>Spec := fill sz (Spec obj)\<rparr>) = Inr (obj\<lparr>Spec := fill sz (Spec obj)\<rparr>)"
    by (intro Default_of_defaulted) simp
  ultimately show ?thesis using sz by auto
qed

definition demo_bare :: "int EnshroudedServer" where
  "demo_bare = demo\<lparr>Spec := demo_spec\<lparr>Port := 0, Storage := (Storage demo_spec)\<lparr>Size := 0\<rparr>\<rparr>\<rparr>"

theorem Default_spec_witness:
  "default_size mem_platform 10737418240000 \<and>
   (\<exists>sz. Default mem_platform demo_bare = Inr (demo_bare\<lparr>Spec := fill sz (Spec demo_bare)\<rparr>) \<and>
     defaulted mem_platform (fill sz (Spec demo_bare)))"
proof -
  have "default_size mem_platform 10737418240000"
    by (simp add: default_size_def mem_Parse_def Let_def is_digit_def read_nat_def digit_val_def)
  from this Default_spec [OF this, of demo_bare] show ?thesis by blast
qed

text \<open>
  C28. The validator reports every violated rule at once, each with its field, and nothing else: an
  error is in the result exactly when it is the error of one of these six rules and that rule is
  violated; no error is reported twice.
\<close>

theorem validator_reports_all:
  "(e \<in> set (validateEnshroudedServer p obj) \<longleftrightarrow>
     Port (Spec obj) \<noteq> 0 \<and> SteamPort (Spec obj) = Port (Spec obj) \<and>
       e = Invalid [''spec'', ''steamPort''] (BadInt (SteamPort (Spec obj))) ''steamPort must differ from port'' \<or>
     ServerIP (Spec obj) \<notin> {'''', ''0.0.0.0''} \<and> \<not> ParseIP (ServerIP (Spec obj)) \<and>
       e = Invalid [''spec'', ''serverIP''] (BadString (ServerIP (Spec obj))) ''must be a valid IP address'' \<or>
     (\<exists>ref. ServerPasswordSecretRef (Spec obj) = Some ref \<and> skr_Name ref = '''') \<and>
       e = Required [''spec'', ''serverPasswordSecretRef'', ''name''] ''secret name must not be empty'' \<or>
     (\<exists>ref. ServerPasswordSecretRef (Spec obj) = Some ref \<and> skr_Key ref = '''') \<and>
       e = Required [''spec'', ''serverPasswordSecretRef'', ''key''] ''secret key must not be empty'' \<or>
     Repository (Image (Spec obj)) = '''' \<and>
       e = Required [''spec'', ''image'', ''repository''] ''image repository must not be empty'' \<or>
     \<not> q_IsZero p (Size (Storage (Spec obj))) \<and> q_Sign p (Size (Storage (Spec obj))) < 0 \<and>
       e = Invalid [''spec'', ''storage'', ''size''] (BadString (q_String p (Size (Storage (Spec obj)))))
         ''storage size must be positive'') \<and>
   distinct (validateEnshroudedServer p obj)"
  unfolding validate_parts rule_defs defaultServerIP_def
  by (cases "ServerPasswordSecretRef (Spec obj)") auto

text \<open>
  The validator accepts a resource exactly when its ports differ, its address is the default or
  parses, its password reference names a secret and a key, its image repository is not empty and
  its storage size is not negative; an update must moreover not reduce a storage size that is set.
\<close>

theorem validator_decides:
  "(ValidateCreate p obj = [] \<longleftrightarrow> spec_ok p (Spec obj)) \<and>
   (ValidateUpdate p old obj = [] \<longleftrightarrow> spec_ok p (Spec obj) \<and>
      (q_IsZero p (Size (Storage (Spec old))) \<or>
       0 \<le> q_Cmp p (Size (Storage (Spec obj))) (Size (Storage (Spec old))))) \<and>
   ValidateDelete obj = []"
  by (simp add: ValidateCreate_def validate_iff ValidateUpdate_iff ValidateDelete_def)

end
