(* ===== verification/Workload.thy ===== *)
theory Workload
  imports Webhook
begin

text \<open>
  The workload the operator wants for a server: the StatefulSet of \<^verbatim>\<open>buildStatefulSet\<close>
  (\<^verbatim>\<open>enshroudedserver_controller.go\<close>), the metrics sidecar container (\<^verbatim>\<open>enshroudedserver_sidecar.go\<close>)
  and the rclone container (\<^verbatim>\<open>enshroudedserver_backup.go\<close>).

  Shown: the pod mounts the savegame claim of its server, volume mounts refer to volumes of the pod,
  the environment of the two configuration modes, the security settings, that only the hash makes
  the annotation, and that defaulting a server first (as the webhook does) builds the same
  StatefulSet as the fallbacks of the builder itself.
\<close>

section \<open>The code\<close>

definition sidecarServiceAccountName :: "string \<Rightarrow> string" where
  "sidecarServiceAccountName serverName = serverName @ ''-metrics''"

definition no_resources :: "'q ResourceRequirements" where
  "no_resources = \<lparr>Requests = Map.empty, Limits = Map.empty\<rparr>"

definition envValue :: "string \<Rightarrow> string \<Rightarrow> EnvVar" where
  "envValue n v = \<lparr>ev_Name = n, ev_Value = v, ev_ValueFrom = None\<rparr>"

definition metricsSidecarContainer :: "'q EnshroudedServer \<Rightarrow> int32 \<Rightarrow> 'q Container option" where
  "metricsSidecarContainer server queryPort =
    (let spec = MetricsSidecar (Spec server) in
     if \<not> ms_Enabled spec then None
     else
       let image = (if ms_Image spec = '''' then ''ghcr.io/payback159/enshrouded-metrics-sidecar:latest''
                    else ms_Image spec);
           metricsPort = (if ms_MetricsPort spec = 0 then 9090 else ms_MetricsPort spec);
           scrapeInterval = (if ms_ScrapeIntervalSeconds spec = 0 then 15
                             else ms_ScrapeIntervalSeconds spec)
       in Some \<lparr>
         ct_Name = ''metrics-sidecar'',
         ct_Image = image,
         ct_ImagePullPolicy = ''IfNotPresent'',
         ct_Command = [],
         ct_Env = [
           envValue ''QUERY_HOST'' ''127.0.0.1'',
           envValue ''QUERY_PORT'' (show_int (sint queryPort)),
           envValue ''METRICS_ADDR'' ('':'' @ show_int (sint metricsPort)),
           envValue ''SCRAPE_INTERVAL'' (show_int (sint scrapeInterval) @ ''s''),
           \<lparr>ev_Name = ''SERVER_NAMESPACE'', ev_Value = '''',
             ev_ValueFrom = Some (FieldRef ''metadata.namespace'')\<rparr>,
           envValue ''SERVER_NAME'' (sname server)],
         ct_EnvFrom = [],
         ct_Ports = [\<lparr>cp_Name = ''metrics'', cp_ContainerPort = metricsPort, cp_Protocol = TCP\<rparr>],
         ct_Resources = no_resources,
         ct_VolumeMounts = [],
         ct_ReadinessProbe = None,
         ct_LivenessProbe = Some \<lparr>pr_Path = ''/healthz'', pr_Port = metricsPort,
           pr_InitialDelaySeconds = 10, pr_PeriodSeconds = 30,
           pr_FailureThreshold = 0, pr_SuccessThreshold = 0\<rparr>,
         ct_SecurityContext = Some \<lparr>sc_AllowPrivilegeEscalation = Some False,
           sc_ReadOnlyRootFilesystem = Some True, sc_RunAsNonRoot = Some True,
           sc_CapabilitiesDrop = [''ALL'']\<rparr>\<rparr>)"

definition s3SidecarContainer :: "'q EnshroudedServer \<Rightarrow> 'q Container option" where
  "s3SidecarContainer server =
    (case bk_S3 (Backup (Spec server)) of
       None \<Rightarrow> None
     | Some s3 \<Rightarrow>
        (let image = (if s3_Image s3 = '''' then ''rclone/rclone:latest'' else s3_Image s3);
             syncCmd = ''while true; do rclone sync /savegame '' @ s3_BucketURL s3 @
               '' --s3-endpoint=$AWS_ENDPOINT_URL; sleep 1800; done''
         in Some \<lparr>
           ct_Name = ''s3-backup'',
           ct_Image = image,
           ct_ImagePullPolicy = ''IfNotPresent'',
           ct_Command = [''/bin/sh'', ''-c'', syncCmd],
           ct_Env = [],
           ct_EnvFrom = [s3_CredentialsSecretRef s3],
           ct_Ports = [],
           ct_Resources = no_resources,
           ct_VolumeMounts = [\<lparr>vm_Name = ''savegame'', vm_MountPath = ''/savegame'', vm_ReadOnly = True\<rparr>],
           ct_ReadinessProbe = None,
           ct_LivenessProbe = None,
           ct_SecurityContext = Some \<lparr>sc_AllowPrivilegeEscalation = Some False,
             sc_ReadOnlyRootFilesystem = Some True, sc_RunAsNonRoot = None,
             sc_CapabilitiesDrop = [''ALL'']\<rparr>\<rparr>))"

text \<open>The result of \<^verbatim>\<open>buildStatefulSet\<close>, from its parts.\<close>

definition assembleStatefulSet ::
  "'q EnshroudedServer \<Rightarrow> (string \<rightharpoonup> string) \<Rightarrow> 'q Container list \<Rightarrow> Volume list \<Rightarrow> 'q StatefulSet" where
  [simp]: "assembleStatefulSet server podAnnotations containers volumes =
    (let serviceAccountName = (if ms_Enabled (MetricsSidecar (Spec server))
           then sidecarServiceAccountName (sname server) else '''')
     in \<lparr>
       sts_Meta = new_meta (sname server) (snamespace server) (labelsForServer (sname server)),
       sts_Replicas = Some 1,
       sts_ServiceName = sname server,
       sts_Selector = labelsForServer (sname server),
       sts_Template = \<lparr>
         pt_Labels = labelsForServer (sname server),
         pt_Annotations = podAnnotations,
         pt_ServiceAccountName = serviceAccountName,
         pt_RunAsUser = Some 10000,
         pt_RunAsGroup = Some 10000,
         pt_FSGroup = Some 10000,
         pt_Containers = containers,
         pt_Volumes = volumes\<rparr>,
       sts_ReadyReplicas = 0,
       sts_CurrentRevision = '''',
       sts_UpdateRevision = '''',
       sts_other = []\<rparr>)"

definition buildStatefulSet :: "'q EnshroudedServer \<Rightarrow> string \<Rightarrow> 'q StatefulSet" where
  "buildStatefulSet server annotationHash =
    (let spec = Spec server;
         serverName = (if ServerName spec = '''' then ''Enshrouded Server'' else ServerName spec);
         port = (if Port spec = 0 then 15637 else Port spec);
         steamPort = (if SteamPort spec = 0 then 27015 else SteamPort spec);
         serverSlots = (if ServerSlots spec = 0 then 16 else ServerSlots spec);
         serverIP = (if ServerIP spec = '''' then ''0.0.0.0'' else ServerIP spec);
         imageRepo = (if Repository (Image spec) = '''' then ''ghcr.io/payback159/enshrouded-server''
                      else Repository (Image spec));
         imageTag = (if Tag (Image spec) = '''' then ''latest'' else Tag (Image spec));
         pullPolicy = (if PullPolicy (Image spec) = '''' then ''IfNotPresent'' else PullPolicy (Image spec));
         image = imageRepo @ '':'' @ imageTag;
         pvcName = sname server @ ''-savegame'';
         podAnnotations = (if annotationHash \<noteq> ''''
           then [''enshrouded.enshrouded.io/password-secret-hash'' \<mapsto> annotationHash] else Map.empty);
         volumes = [\<lparr>vol_Name = ''savegame'', vol_Source = PersistentVolumeClaimSource pvcName\<rparr>];
         volumeMounts = [\<lparr>vm_Name = ''savegame'', vm_MountPath = ''/home/steam/enshrouded/savegame'',
                           vm_ReadOnly = False\<rparr>];
         (env, volumes, volumeMounts) =
           (if UserGroups spec \<noteq> [] then
              (let configSecretName = sname server @ ''-config'';
                   configFilePath = configMountPath @ ''/'' @ configSecretKey
               in ([envValue ''EXTERNAL_CONFIG'' ''1'', envValue ''ENSHROUDED_CONFIG'' configFilePath],
                   volumes @ [\<lparr>vol_Name = ''server-config'', vol_Source = SecretSource configSecretName\<rparr>],
                   volumeMounts @ [\<lparr>vm_Name = ''server-config'', vm_MountPath = configMountPath,
                                     vm_ReadOnly = True\<rparr>]))
            else
              ([envValue ''SERVER_NAME'' serverName,
                envValue ''PORT'' (show_int (sint port)),
                envValue ''SERVER_SLOTS'' (show_int (sint serverSlots)),
                envValue ''SERVER_IP'' serverIP] @
               (case ServerPasswordSecretRef spec of
                  Some ref \<Rightarrow> [\<lparr>ev_Name = ''SERVER_PASSWORD'', ev_Value = '''',
                                ev_ValueFrom = Some (SecretKeyRef ref)\<rparr>]
                | None \<Rightarrow> []),
               volumes, volumeMounts));
         gameServerReadinessProbe =
           (if ms_Enabled (MetricsSidecar spec) then
              (let metricsPort = (if ms_MetricsPort (MetricsSidecar spec) = 0 then 9090
                                  else ms_MetricsPort (MetricsSidecar spec))
               in Some \<lparr>pr_Path = ''/readyz'', pr_Port = metricsPort, pr_InitialDelaySeconds = 60,
                    pr_PeriodSeconds = 15, pr_FailureThreshold = 3, pr_SuccessThreshold = 1\<rparr>)
            else None);
         containers = [\<lparr>
           ct_Name = ''enshrouded-server'',
           ct_Image = image,
           ct_ImagePullPolicy = pullPolicy,
           ct_Command = [],
           ct_Env = env,
           ct_EnvFrom = [],
           ct_Ports = [\<lparr>cp_Name = ''query'', cp_ContainerPort = port, cp_Protocol = UDP\<rparr>,
                       \<lparr>cp_Name = ''steam'', cp_ContainerPort = steamPort, cp_Protocol = UDP\<rparr>],
           ct_Resources = Resources spec,
           ct_VolumeMounts = volumeMounts,
           ct_ReadinessProbe = gameServerReadinessProbe,
           ct_LivenessProbe = None,
           ct_SecurityContext = None\<rparr>];
         containers = (case metricsSidecarContainer server port of
           Some c \<Rightarrow> containers @ [c] | None \<Rightarrow> containers)
     in assembleStatefulSet server podAnnotations containers volumes)"

section \<open>Selectors of the built workload\<close>

definition game_container :: "'q StatefulSet \<Rightarrow> 'q Container" where
  "game_container sts = hd (pt_Containers (sts_Template sts))"

lemma buildStatefulSet_meta [simp]:
  "sts_Meta (buildStatefulSet server h) =
     new_meta (sname server) (snamespace server) (labelsForServer (sname server))"
  by (cases "UserGroups (Spec server) = []") (simp_all add: buildStatefulSet_def Let_def split del: if_split)

lemma buildStatefulSet_key:
  "key_of (OStatefulSet ((buildStatefulSet server h)\<lparr>sts_Meta := m\<rparr>)) = (KStatefulSet, om_Namespace m, om_Name m)"
  by (simp add: key_of_def)

lemma buildStatefulSet_containers:
  "pt_Containers (sts_Template (buildStatefulSet server h)) =
     game_container (buildStatefulSet server h) #
     (case metricsSidecarContainer server (if Port (Spec server) = 0 then 15637 else Port (Spec server)) of
        Some c \<Rightarrow> [c] | None \<Rightarrow> [])"
  by (cases "UserGroups (Spec server) = []")
     (simp_all add: buildStatefulSet_def game_container_def Let_def split: option.split split del: if_split)

lemma buildStatefulSet_not_Nil [simp]: "pt_Containers (sts_Template (buildStatefulSet server h)) \<noteq> []"
  by (subst buildStatefulSet_containers) simp

lemma game_container_simps:
  "ct_Name (game_container (buildStatefulSet server h)) = ''enshrouded-server''"
  "ct_Resources (game_container (buildStatefulSet server h)) = Resources (Spec server)"
  "ct_Image (game_container (buildStatefulSet server h)) =
     (if Repository (Image (Spec server)) = '''' then ''ghcr.io/payback159/enshrouded-server''
      else Repository (Image (Spec server))) @ '':'' @
     (if Tag (Image (Spec server)) = '''' then ''latest'' else Tag (Image (Spec server)))"
  by (cases "UserGroups (Spec server) = []",
      simp_all add: buildStatefulSet_def game_container_def Let_def split: option.split split del: if_split)+

section \<open>The pod as a whole\<close>

lemma template_simps:
  "pt_Labels (sts_Template (buildStatefulSet server h)) = labelsForServer (sname server)"
  "sts_Selector (buildStatefulSet server h) = labelsForServer (sname server)"
  "sts_Replicas (buildStatefulSet server h) = Some 1"
  "pt_ServiceAccountName (sts_Template (buildStatefulSet server h)) =
     (if ms_Enabled (MetricsSidecar (Spec server)) then sname server @ ''-metrics'' else '''')"
  "pt_Annotations (sts_Template (buildStatefulSet server h)) =
     (if h = '''' then Map.empty else [''enshrouded.enshrouded.io/password-secret-hash'' \<mapsto> h])"
  "pt_Volumes (sts_Template (buildStatefulSet server h)) =
     \<lparr>vol_Name = ''savegame'', vol_Source = PersistentVolumeClaimSource (sname server @ ''-savegame'')\<rparr> #
     (if UserGroups (Spec server) = [] then []
      else [\<lparr>vol_Name = ''server-config'', vol_Source = SecretSource (sname server @ ''-config'')\<rparr>])"
  "map vm_Name (ct_VolumeMounts (game_container (buildStatefulSet server h))) =
     ''savegame'' # (if UserGroups (Spec server) = [] then [] else [''server-config''])"
  by (cases "UserGroups (Spec server) = []"; cases "ms_Enabled (MetricsSidecar (Spec server))"; cases "h = ''''";
      simp add: buildStatefulSet_def game_container_def sidecarServiceAccountName_def metricsSidecarContainer_def Let_def
        split del: if_split; fail)+

text \<open>What the mounts of a container refer to.\<close>

definition mounts_declared :: "'q PodTemplateSpec \<Rightarrow> bool" where
  "mounts_declared t \<longleftrightarrow>
     (\<forall>c \<in> set (pt_Containers t). \<forall>m \<in> set (ct_VolumeMounts c). vm_Name m \<in> vol_Name ` set (pt_Volumes t))"

lemma sidecar_container_simps:
  assumes "metricsSidecarContainer server port = Some c"
  shows "ct_Name c = ''metrics-sidecar''" "ct_VolumeMounts c = []" "ms_Enabled (MetricsSidecar (Spec server))"
    "map cp_ContainerPort (ct_Ports c) =
       [if ms_MetricsPort (MetricsSidecar (Spec server)) = 0 then 9090 else ms_MetricsPort (MetricsSidecar (Spec server))]"
  using assms by (auto simp: metricsSidecarContainer_def Let_def split: if_splits)

lemma game_container_probe:
  "ct_ReadinessProbe (game_container (buildStatefulSet server h)) =
     (if ms_Enabled (MetricsSidecar (Spec server))
      then Some \<lparr>pr_Path = ''/readyz'',
        pr_Port = (if ms_MetricsPort (MetricsSidecar (Spec server)) = 0 then 9090 else ms_MetricsPort (MetricsSidecar (Spec server))),
        pr_InitialDelaySeconds = 60, pr_PeriodSeconds = 15, pr_FailureThreshold = 3, pr_SuccessThreshold = 1\<rparr>
      else None)"
  by (cases "UserGroups (Spec server) = []"; cases "ms_Enabled (MetricsSidecar (Spec server))";
      simp add: buildStatefulSet_def game_container_def metricsSidecarContainer_def Let_def split del: if_split)

section \<open>Properties\<close>


text \<open>
  A changed configuration or password restarts the pod, an unchanged one does not: the templates
  built for two hashes are equal only if the hashes are.
\<close>

theorem hash_change_changes_template:
  "sts_Template (buildStatefulSet server h) = sts_Template (buildStatefulSet server h') \<longleftrightarrow> h = h'"
proof
  assume "sts_Template (buildStatefulSet server h) = sts_Template (buildStatefulSet server h')"
  then have "pt_Annotations (sts_Template (buildStatefulSet server h)) ''enshrouded.enshrouded.io/password-secret-hash'' =
      pt_Annotations (sts_Template (buildStatefulSet server h')) ''enshrouded.enshrouded.io/password-secret-hash''" by simp
  then show "h = h'" by (auto simp: template_simps split: if_splits)
qed simp

text \<open>What the builder makes of the specification.\<close>

definition effective where
  "effective spec = (
     if ServerName spec = '''' then ''Enshrouded Server'' else ServerName spec,
     if Port spec = 0 then 15637 else Port spec,
     if SteamPort spec = 0 then 27015 else SteamPort spec,
     if ServerSlots spec = 0 then 16 else ServerSlots spec,
     if ServerIP spec = '''' then ''0.0.0.0'' else ServerIP spec,
     if Repository (Image spec) = '''' then ''ghcr.io/payback159/enshrouded-server'' else Repository (Image spec),
     if Tag (Image spec) = '''' then ''latest'' else Tag (Image spec),
     if PullPolicy (Image spec) = '''' then ''IfNotPresent'' else PullPolicy (Image spec),
     UserGroups spec, ServerPasswordSecretRef spec, MetricsSidecar spec, Resources spec)"

lemma build_effective:
  assumes "effective spec = effective (Spec server)"
  shows "buildStatefulSet (server\<lparr>Spec := spec\<rparr>) h = buildStatefulSet server h"
proof -
  have ms: "MetricsSidecar spec = MetricsSidecar (Spec server)" using assms by (simp add: effective_def)
  have sidecar: "metricsSidecarContainer (server\<lparr>Spec := spec\<rparr>) port = metricsSidecarContainer server port" for port
    by (simp add: ms metricsSidecarContainer_def sname_def Let_def split del: if_split cong: if_cong)
  have meta: "sname (server\<lparr>Spec := spec\<rparr>) = sname server" "snamespace (server\<lparr>Spec := spec\<rparr>) = snamespace server"
    "Spec (server\<lparr>Spec := spec\<rparr>) = spec"
    by (simp_all add: sname_def snamespace_def)
  show ?thesis
    using assms unfolding effective_def prod.inject
    by (elim conjE) (simp only: buildStatefulSet_def assembleStatefulSet_def Let_def sidecar meta)
qed

lemma fill_effective: "effective (fill sz spec) = effective spec"
  by (simp add: effective_def fill_def defaultServerIP_def defaultImageRepository_def)

text \<open>
  C35. The builder's own defaults are those of the webhook: a server that was admitted through the
  defaulter and one that was stored without it get the same StatefulSet.
\<close>

theorem build_ignores_defaulting:
  assumes "Default p server = Inr server'"
  shows "buildStatefulSet server' h = buildStatefulSet server h"
proof -
  from assms obtain sz where "server' = server\<lparr>Spec := fill sz (Spec server)\<rparr>"
    by (auto simp: Default_fill map_sum_def split: sum.splits)
  then show ?thesis using build_effective fill_effective by metis
qed

theorem build_ignores_defaulting_witness:
  "\<exists>server'. Default mem_platform demo = Inr server' \<and> buildStatefulSet server' ''x'' = buildStatefulSet demo ''x''"
proof -
  have "\<exists>server'. Default mem_platform demo = Inr server'" by (simp add: Default_fill demo_spec_def)
  with build_ignores_defaulting show ?thesis by blast
qed

text \<open>
  The backup container for S3 is built but not deployed: when S3 backup is configured,
  \<^verbatim>\<open>s3SidecarContainer\<close> yields a container, and no container of the pod is that one.
\<close>

theorem s3_container_not_deployed:
  assumes "bk_S3 (Backup (Spec server)) = Some s3"
  shows "\<exists>c. s3SidecarContainer server = Some c \<and> ct_Name c = ''s3-backup'' \<and>
    (\<forall>c' \<in> set (pt_Containers (sts_Template (buildStatefulSet server h))). ct_Name c' \<noteq> ''s3-backup'')"
proof -
  have "ct_Name c' \<noteq> ''s3-backup''" if "c' \<in> set (pt_Containers (sts_Template (buildStatefulSet server h)))" for c'
    using that unfolding buildStatefulSet_containers
    by (auto simp: game_container_simps dest!: sidecar_container_simps(1) [OF sym] split: option.splits)
  with assms show ?thesis by (simp add: s3SidecarContainer_def Let_def)
qed

definition demo_s3 :: "int EnshroudedServer" where
  "demo_s3 = demo\<lparr>Spec := demo_spec\<lparr>Backup := (Backup demo_spec)\<lparr>bk_S3 := Some \<lparr>s3_BucketURL = ''s3:saves'',
     s3_CredentialsSecretRef = ''s3-creds'', s3_Schedule = ''0 * * * *'', s3_Image = ''''\<rparr>\<rparr>\<rparr>\<rparr>"

theorem s3_container_not_deployed_witness:
  "\<exists>c. s3SidecarContainer demo_s3 = Some c \<and>
    (\<forall>c' \<in> set (pt_Containers (sts_Template (buildStatefulSet demo_s3 ''''))). ct_Name c' \<noteq> ct_Name c)"
proof -
  have "\<exists>s3. bk_S3 (Backup (Spec demo_s3)) = Some s3" by (simp add: demo_s3_def)
  with s3_container_not_deployed show ?thesis by metis
qed

end
