(* ===== verification/Go_Json.thy ===== *)
theory Go_Json
  imports Go_Prelude
begin

text \<open>
  \<^verbatim>\<open>encoding/json\<close>: how \<^verbatim>\<open>json.Marshal\<close> writes strings, integers, booleans and structs. Strings are
  the interesting part: quotes, backslashes, control characters and the HTML characters are
  escaped, the two Unicode line separators too, and every byte that does not start a valid UTF-8
  sequence becomes the escape of the replacement character.

  The main result is that a reader recovers a valid UTF-8 string and the text after it from what
  the writer produced, so two different configurations have different texts.
\<close>

section \<open>UTF-8\<close>

definition in_range :: "nat \<Rightarrow> nat \<Rightarrow> char \<Rightarrow> bool" where
  "in_range lo hi c \<longleftrightarrow> lo \<le> of_char c \<and> of_char c \<le> hi"

abbreviation cont :: "char \<Rightarrow> bool" where
  "cont \<equiv> in_range 0x80 0xBF"

definition utf8_2 :: "char \<Rightarrow> char \<Rightarrow> bool" where
  "utf8_2 a b \<longleftrightarrow> in_range 0xC2 0xDF a \<and> cont b"

definition utf8_3 :: "char \<Rightarrow> char \<Rightarrow> char \<Rightarrow> bool" where
  "utf8_3 a b c \<longleftrightarrow>
     (in_range 0xE0 0xE0 a \<and> in_range 0xA0 0xBF b \<or> in_range 0xE1 0xEC a \<and> cont b \<or>
      in_range 0xED 0xED a \<and> in_range 0x80 0x9F b \<or> in_range 0xEE 0xEF a \<and> cont b) \<and> cont c"

definition utf8_4 :: "char \<Rightarrow> char \<Rightarrow> char \<Rightarrow> char \<Rightarrow> bool" where
  "utf8_4 a b c d \<longleftrightarrow>
     (in_range 0xF0 0xF0 a \<and> in_range 0x90 0xBF b \<or> in_range 0xF1 0xF3 a \<and> cont b \<or>
      in_range 0xF4 0xF4 a \<and> in_range 0x80 0x8F b) \<and> cont c \<and> cont d"

text \<open>The width of the UTF-8 sequence a byte string starts with, 0 if it starts with none.\<close>

fun utf8_width :: "string \<Rightarrow> nat" where
  "utf8_width (a # bs) =
     (if in_range 0 0x7F a then 1
      else case bs of
        [] \<Rightarrow> 0
      | b # bs1 \<Rightarrow>
         if utf8_2 a b then 2
         else case bs1 of
           [] \<Rightarrow> 0
         | c # bs2 \<Rightarrow>
            if utf8_3 a b c then 3
            else case bs2 of [] \<Rightarrow> 0 | d # _ \<Rightarrow> if utf8_4 a b c d then 4 else 0)"
| "utf8_width [] = 0"

lemma utf8_width_le: "utf8_width s \<le> length s"
  by (cases s rule: utf8_width.cases) (auto split: list.splits)

declare utf8_width.simps [simp del]

function valid_utf8 :: "string \<Rightarrow> bool" where
  "valid_utf8 s = (if s = [] then True else if utf8_width s = 0 then False
                   else valid_utf8 (drop (utf8_width s) s))"
  by pat_completeness auto
termination
  by (relation "measure length") auto

declare valid_utf8.simps [simp del]

section \<open>Strings\<close>

definition quote :: char where
  "quote = CHR 0x22"

definition json_hex :: "nat \<Rightarrow> char" where
  "json_hex n = (if n < 10 then char_of (48 + n) else char_of (87 + n))"

definition json_ascii :: "char \<Rightarrow> string" where
  "json_ascii c =
     (if c = CHR 0x5C \<or> c = quote then [CHR 0x5C, c]
      else if c = CHR 0x08 then [CHR 0x5C, CHR ''b'']
      else if c = CHR 0x0C then [CHR 0x5C, CHR ''f'']
      else if c = CHR 0x0A then [CHR 0x5C, CHR ''n'']
      else if c = CHR 0x0D then [CHR 0x5C, CHR ''r'']
      else if c = CHR 0x09 then [CHR 0x5C, CHR ''t'']
      else if of_char c < (0x20::nat) \<or> c = CHR ''<'' \<or> c = CHR ''>'' \<or> c = CHR ''&''
        then [CHR 0x5C, CHR ''u'', CHR ''0'', CHR ''0'', json_hex (of_char c div 16), json_hex (of_char c mod 16)]
      else [c])"

function json_body :: "string \<Rightarrow> string" where
  "json_body [] = []"
| "json_body (c # cs) =
     (let n = utf8_width (c # cs) in
      if n = 0 then [CHR 0x5C, CHR ''u'', CHR ''f'', CHR ''f'', CHR ''f'', CHR ''d''] @ json_body cs
      else if n = 1 then json_ascii c @ json_body cs
      else if take 3 (c # cs) = [CHR 0xE2, CHR 0x80, CHR 0xA8]
        then [CHR 0x5C, CHR ''u'', CHR ''2'', CHR ''0'', CHR ''2'', CHR ''8''] @ json_body (drop n (c # cs))
      else if take 3 (c # cs) = [CHR 0xE2, CHR 0x80, CHR 0xA9]
        then [CHR 0x5C, CHR ''u'', CHR ''2'', CHR ''0'', CHR ''2'', CHR ''9''] @ json_body (drop n (c # cs))
      else take n (c # cs) @ json_body (drop n (c # cs)))"
  by pat_completeness auto
termination
  by (relation "measure length") auto

declare json_body.simps(2) [simp del]

definition json_string :: "string \<Rightarrow> string" where
  "json_string s = [quote] @ json_body s @ [quote]"

definition json_bool :: "bool \<Rightarrow> string" where
  "json_bool b = (if b then ''true'' else ''false'')"

definition json_int :: "int32 \<Rightarrow> string" where
  "json_int i = show_int (sint i)"

text \<open>A struct: its fields in order, each as a quoted name, a colon and its value.\<close>

definition json_field :: "string \<Rightarrow> string \<Rightarrow> string" where
  "json_field name v = [quote] @ name @ [quote] @ '':'' @ v"

fun json_commas :: "string list \<Rightarrow> string" where
  "json_commas [] = []"
| "json_commas [x] = x"
| "json_commas (x # y # ys) = x @ '','' @ json_commas (y # ys)"

definition json_object :: "string list \<Rightarrow> string" where
  "json_object fields = ''{'' @ json_commas fields @ ''}''"

definition json_array :: "string list \<Rightarrow> string" where
  "json_array items = ''['' @ json_commas items @ '']''"

text \<open>
  The same notation from the side of the reader: JSON values, and their compact text. An object is
  the list of its members in order.
\<close>

datatype json = JString string | JInt int32 | JBool bool | JArray "json list" | JObject "(string \<times> json) list"

fun json_text :: "json \<Rightarrow> string" where
  "json_text (JString s) = json_string s"
| "json_text (JInt i) = show_int (sint i)"
| "json_text (JBool b) = (if b then ''true'' else ''false'')"
| "json_text (JArray vs) = ''['' @ json_commas (map json_text vs) @ '']''"
| "json_text (JObject ms) = ''{'' @ json_commas (map (\<lambda>(n, v). [quote] @ n @ [quote] @ '':'' @ json_text v) ms) @ ''}''"

section \<open>Reading a string back\<close>

definition unhex :: "char \<Rightarrow> nat" where
  "unhex c = (if is_digit c then digit_val c else of_char c - 87)"

text \<open>The bytes of an escape: \<open>json_unescape\<close> for one letter, \<open>json_rune\<close> for four digits.\<close>

definition json_unescape :: "char \<Rightarrow> char" where
  "json_unescape e =
     (if e = CHR ''b'' then CHR 0x08 else if e = CHR ''f'' then CHR 0x0C
      else if e = CHR ''n'' then CHR 0x0A else if e = CHR ''r'' then CHR 0x0D
      else if e = CHR ''t'' then CHR 0x09 else e)"

definition json_rune :: "nat \<Rightarrow> string" where
  "json_rune n =
     (if n < 0x80 then [char_of n]
      else [char_of (0xE0 + n div 0x1000), char_of (0x80 + n div 0x40 mod 0x40), char_of (0x80 + n mod 0x40)])"

fun json_read :: "string \<Rightarrow> (string \<times> string) option" where
  "json_read [] = None"
| "json_read (c # cs) =
     (if c = quote then Some ([], cs)
      else if c = CHR 0x5C then
        (case cs of
           [] \<Rightarrow> None
         | e # ds \<Rightarrow>
            if e = CHR ''u'' then
              (case ds of
                 a # b # x # y # es \<Rightarrow>
                   map_option (map_prod (append (json_rune
                     (((unhex a * 16 + unhex b) * 16 + unhex x) * 16 + unhex y))) id) (json_read es)
               | _ \<Rightarrow> None)
            else map_option (map_prod (Cons (json_unescape e)) id) (json_read ds))
      else map_option (map_prod (Cons c) id) (json_read cs))"

lemma unhex_json_hex [simp]: "n < 16 \<Longrightarrow> unhex (json_hex n) = n"
  by (auto simp: unhex_def json_hex_def is_digit_def of_char_of digit_val_def)

lemma unhex_digits [simp]:
  "unhex (CHR ''0'') = 0" "unhex (CHR ''2'') = 2" "unhex (CHR ''8'') = 8" "unhex (CHR ''9'') = 9"
  by (simp_all add: unhex_def is_digit_def digit_val_def)

lemma map_prod_append_Cons: "map_option (map_prod (append [c]) id) r = map_option (map_prod (Cons c) id) r"
  by (cases r) auto

lemma json_read_ascii:
  assumes "of_char c < (0x80::nat)"
  shows "json_read (json_ascii c @ s) = map_option (map_prod (Cons c) id) (json_read s)"
proof (cases "c \<in> {CHR 0x5C, quote, CHR 0x08, CHR 0x0C, CHR 0x0A, CHR 0x0D, CHR 0x09}")
  case True
  then show ?thesis by (auto simp: json_ascii_def quote_def json_unescape_def)
next
  case False
  show ?thesis
  proof (cases "of_char c < (0x20::nat) \<or> c = CHR ''<'' \<or> c = CHR ''>'' \<or> c = CHR ''&''")
    case True
    with False have "json_ascii c = [CHR 0x5C, CHR ''u'', CHR ''0'', CHR ''0'',
        json_hex (of_char c div 16), json_hex (of_char c mod 16)]"
      by (simp add: json_ascii_def)
    moreover have "json_rune (of_char c) = [c]" using assms by (simp add: json_rune_def)
    ultimately show ?thesis using assms by (simp add: quote_def map_prod_append_Cons)
  next
    case plain: False
    with False have "json_ascii c = [c]" by (simp add: json_ascii_def)
    with False show ?thesis by simp
  qed
qed

lemma json_read_high:
  "list_all (\<lambda>c. 0x80 \<le> (of_char c :: nat)) bs \<Longrightarrow>
   json_read (bs @ s) = map_option (map_prod (append bs) id) (json_read s)"
proof (induction bs)
  case Nil
  then show ?case by (cases "json_read s") (auto simp: map_prod_def)
next
  case (Cons b bs)
  then have "b \<noteq> quote" "b \<noteq> CHR 0x5C" by (auto simp: quote_def)
  with Cons show ?case by (cases "json_read s") auto
qed

lemma utf8_high:
  "utf8_2 a b \<Longrightarrow> 0x80 \<le> (of_char a :: nat) \<and> 0x80 \<le> (of_char b :: nat)"
  "utf8_3 a b c \<Longrightarrow> 0x80 \<le> (of_char a :: nat) \<and> 0x80 \<le> (of_char b :: nat) \<and> 0x80 \<le> (of_char c :: nat)"
  "utf8_4 a b c d \<Longrightarrow> 0x80 \<le> (of_char a :: nat) \<and> 0x80 \<le> (of_char b :: nat) \<and>
     0x80 \<le> (of_char c :: nat) \<and> 0x80 \<le> (of_char d :: nat)"
  by (auto simp: utf8_2_def utf8_3_def utf8_4_def in_range_def)

lemma utf8_width_1: "utf8_width (c # cs) = 1 \<longleftrightarrow> of_char c < (0x80::nat)"
  by (auto simp: utf8_width.simps in_range_def split: list.splits if_splits)

lemma utf8_width_high:
  assumes "2 \<le> utf8_width s"
  shows "list_all (\<lambda>b. 0x80 \<le> (of_char b :: nat)) (take (utf8_width s) s)"
proof -
  consider "s = []" | a where "s = [a]" | a b where "s = [a, b]" | a b c where "s = [a, b, c]"
    | a b c d ds where "s = a # b # c # d # ds"
    by (metis list.exhaust)
  then show ?thesis
    using assms
    by cases (auto simp: utf8_width.simps dest: utf8_high split: if_splits)
qed

lemma utf8_width_separator:
  assumes "take 3 s = [CHR 0xE2, CHR 0x80, x]" "x = CHR 0xA8 \<or> x = CHR 0xA9"
  shows "utf8_width s = 3"
proof -
  from assms(1) have "s = CHR 0xE2 # CHR 0x80 # x # drop 3 s"
    using append_take_drop_id [of 3 s] by (metis append_Cons append_Nil)
  moreover have "utf8_width (CHR 0xE2 # CHR 0x80 # x # xs) = 3" for xs
    using assms(2) by (auto simp: utf8_width.simps in_range_def utf8_2_def utf8_3_def)
  ultimately show ?thesis by metis
qed

lemma json_body_unfold:
  assumes "s \<noteq> []" "utf8_width s \<noteq> 0"
  shows "json_body s =
     (if utf8_width s = 1 then json_ascii (hd s) @ json_body (drop 1 s)
      else if take 3 s = [CHR 0xE2, CHR 0x80, CHR 0xA8]
        then [CHR 0x5C, CHR ''u'', CHR ''2'', CHR ''0'', CHR ''2'', CHR ''8''] @ json_body (drop (utf8_width s) s)
      else if take 3 s = [CHR 0xE2, CHR 0x80, CHR 0xA9]
        then [CHR 0x5C, CHR ''u'', CHR ''2'', CHR ''0'', CHR ''2'', CHR ''9''] @ json_body (drop (utf8_width s) s)
      else take (utf8_width s) s @ json_body (drop (utf8_width s) s))"
  using assms by (cases s) (simp_all only: json_body.simps(2) Let_def if_False list.sel drop_Suc_Cons drop_0
      One_nat_def simp_thms list.simps)

text \<open>The reader undoes one character of the writer.\<close>

lemma json_read_step:
  assumes "s \<noteq> []" "utf8_width s = n" "n \<noteq> 0"
  shows "json_read (json_body s @ t) =
    map_option (map_prod (append (take n s)) id) (json_read (json_body (drop n s) @ t))"
proof -
  note unf = json_body_unfold [OF assms(1), unfolded assms(2), OF assms(3)]
  consider (ascii) "n = 1" | (sep) x d where "n = 3" "take 3 s = [CHR 0xE2, CHR 0x80, x]"
      "x = CHR 0xA8 \<and> d = CHR ''8'' \<or> x = CHR 0xA9 \<and> d = CHR ''9''"
      "json_body s = [CHR 0x5C, CHR ''u'', CHR ''2'', CHR ''0'', CHR ''2'', d] @ json_body (drop n s)"
    | (plain) "2 \<le> n" "json_body s = take n s @ json_body (drop n s)"
    using utf8_width_separator [of s] assms(2,3) unf
    by (cases "n = 1"; cases "take 3 s = [CHR 0xE2, CHR 0x80, CHR 0xA8]";
        cases "take 3 s = [CHR 0xE2, CHR 0x80, CHR 0xA9]") auto
  then show ?thesis
  proof cases
    case ascii
    obtain c cs where s: "s = c # cs" using assms(1) by (cases s) auto
    with ascii assms(2) have "of_char c < (0x80::nat)" using utf8_width_1 by simp
    from json_read_ascii [OF this] show ?thesis using unf ascii s by (simp add: map_prod_append_Cons)
  next
    case (sep x d)
    have "json_rune (((2 * 16 + 0) * 16 + 2) * 16 + unhex d) = [CHR 0xE2, CHR 0x80, x]"
      using sep(3) by (auto simp: json_rune_def char_of_eq_iff take_bit_eq_mod)
    with sep show ?thesis by (simp add: quote_def)
  next
    case plain
    with utf8_width_high [of s] assms(2) json_read_high [of "take n s"] show ?thesis by simp
  qed
qed

lemma json_read_body:
  "valid_utf8 s \<Longrightarrow> json_read (json_body s @ quote # rest) = Some (s, rest)"
proof (induction s rule: length_induct)
  case (1 s)
  show ?case
  proof (cases "s = []")
    case True
    then show ?thesis by simp
  next
    case False
    define n where "n = utf8_width s"
    from 1(2) False have n: "n \<noteq> 0" "valid_utf8 (drop n s)"
      by (simp_all add: valid_utf8.simps [of s] n_def split: if_splits)
    with 1(1) False have "json_read (json_body (drop n s) @ quote # rest) = Some (drop n s, rest)"
      by simp
    with json_read_step [OF False n_def [symmetric] n(1)] show ?thesis by simp
  qed
qed

end
