(* ===== verification/Go_Crypto.thy ===== *)
theory Go_Crypto
  imports Go_Prelude
begin

text \<open>
  \<^verbatim>\<open>hex.EncodeToString\<close> of \<^verbatim>\<open>sha256.Sum256\<close>: the hash the operator writes into the pod annotation.
  The standard's definition (FIPS 180-4): padding, message schedule, compression, on 32 bit words.
  A byte string is a HOL \<open>string\<close>.
\<close>

unbundle bit_operations_syntax

type_synonym u32 = "32 word"

definition rotr :: "nat \<Rightarrow> u32 \<Rightarrow> u32" where
  "rotr n x = drop_bit n x OR push_bit (32 - n) x"

definition sha_K :: "u32 list" where
  "sha_K = [
    1116352408, 1899447441, 3049323471, 3921009573, 961987163, 1508970993, 2453635748, 2870763221,
    3624381080, 310598401, 607225278, 1426881987, 1925078388, 2162078206, 2614888103, 3248222580,
    3835390401, 4022224774, 264347078, 604807628, 770255983, 1249150122, 1555081692, 1996064986,
    2554220882, 2821834349, 2952996808, 3210313671, 3336571891, 3584528711, 113926993, 338241895,
    666307205, 773529912, 1294757372, 1396182291, 1695183700, 1986661051, 2177026350, 2456956037,
    2730485921, 2820302411, 3259730800, 3345764771, 3516065817, 3600352804, 4094571909, 275423344,
    430227734, 506948616, 659060556, 883997877, 958139571, 1322822218, 1537002063, 1747873779,
    1955562222, 2024104815, 2227730452, 2361852424, 2428436474, 2756734187, 3204031479, 3329325298]"

definition sha_H0 :: "u32 list" where
  "sha_H0 = [1779033703, 3144134277, 1013904242, 2773480762, 1359893119, 2600822924, 528734635, 1541459225]"

text \<open>The last \<open>n\<close> base-256 digits of a number, most significant first.\<close>

fun be_bytes :: "nat \<Rightarrow> nat \<Rightarrow> nat list" where
  "be_bytes 0 m = []"
| "be_bytes (Suc n) m = be_bytes n (m div 256) @ [m mod 256]"

definition sha_pad :: "nat list \<Rightarrow> nat list" where
  "sha_pad bs = bs @ [128] @ replicate ((119 - length bs mod 64) mod 64) 0 @ be_bytes 8 (8 * length bs)"

fun be_words :: "nat list \<Rightarrow> u32 list" where
  "be_words (a # b # c # d # bs) =
     of_nat (((a * 256 + b) * 256 + c) * 256 + d) # be_words bs"
| "be_words _ = []"

text \<open>The schedule keeps the last sixteen words, oldest first, and emits one word per round.\<close>

definition sha_next :: "u32 list \<Rightarrow> u32" where
  "sha_next ws =
     (let w15 = ws ! 1; w2 = ws ! 14;
          s0 = rotr 7 w15 XOR rotr 18 w15 XOR drop_bit 3 w15;
          s1 = rotr 17 w2 XOR rotr 19 w2 XOR drop_bit 10 w2
      in ws ! 0 + s0 + ws ! 9 + s1)"

fun sha_round :: "u32 \<Rightarrow> u32 \<Rightarrow> u32 list \<Rightarrow> u32 list" where
  "sha_round k w [a, b, c, d, e, f, g, h] =
     (let S1 = rotr 6 e XOR rotr 11 e XOR rotr 25 e;
          ch = (e AND f) XOR (NOT e AND g);
          t1 = h + S1 + ch + k + w;
          S0 = rotr 2 a XOR rotr 13 a XOR rotr 22 a;
          maj = (a AND b) XOR (a AND c) XOR (b AND c);
          t2 = S0 + maj
      in [t1 + t2, a, b, c, d + t1, e, f, g])"
| "sha_round k w st = st"

fun sha_rounds :: "u32 list \<Rightarrow> u32 list \<Rightarrow> u32 list \<Rightarrow> u32 list" where
  "sha_rounds [] ws st = st"
| "sha_rounds (k # ks) [] st = st"
| "sha_rounds (k # ks) (w # ws) st = sha_rounds ks (ws @ [sha_next (w # ws)]) (sha_round k w st)"

fun sha_blocks :: "nat \<Rightarrow> u32 list \<Rightarrow> u32 list \<Rightarrow> u32 list" where
  "sha_blocks 0 ws H = H"
| "sha_blocks (Suc n) ws H =
     sha_blocks n (drop 16 ws) (map2 (+) H (sha_rounds sha_K (take 16 ws) H))"

definition Sum256 :: "string \<Rightarrow> u32 list" where
  "Sum256 s =
     (let ws = be_words (sha_pad (map of_char s)) in sha_blocks (length ws div 16) ws sha_H0)"

definition hex_digit :: "nat \<Rightarrow> char" where
  "hex_digit n = (if n < 10 then char_of (48 + n) else char_of (87 + n))"

fun hex_nat :: "nat \<Rightarrow> nat \<Rightarrow> string" where
  "hex_nat 0 m = []"
| "hex_nat (Suc n) m = hex_nat n (m div 16) @ [hex_digit (m mod 16)]"

definition EncodeToString :: "u32 list \<Rightarrow> string" where
  "EncodeToString ws = concat (map (\<lambda>w. hex_nat 8 (unat w)) ws)"

text \<open>\<^verbatim>\<open>h := sha256.Sum256(data); hex.EncodeToString(h[:])\<close>\<close>

definition sha256hex :: "string \<Rightarrow> string" where
  "sha256hex s = EncodeToString (Sum256 s)"

section \<open>The shape of a hash\<close>

lemma length_hex_nat [simp]: "length (hex_nat n m) = n"
  by (induction n arbitrary: m) simp_all

lemma length_sha_round: "length st = 8 \<Longrightarrow> length (sha_round k w st) = 8"
  by (cases "(k, w, st)" rule: sha_round.cases) (simp_all add: Let_def)

lemma length_sha_rounds: "length st = 8 \<Longrightarrow> length (sha_rounds ks ws st) = 8"
  by (induction ks ws st rule: sha_rounds.induct) (simp_all add: length_sha_round)

lemma length_sha_blocks: "length H = 8 \<Longrightarrow> length (sha_blocks n ws H) = 8"
  by (induction n ws H rule: sha_blocks.induct) (simp_all add: length_sha_rounds)

lemma length_sha256hex [simp]: "length (sha256hex s) = 64"
proof -
  have "length (Sum256 s) = 8"
    unfolding Sum256_def Let_def by (rule length_sha_blocks) (simp add: sha_H0_def)
  then show ?thesis
    by (simp add: sha256hex_def EncodeToString_def length_concat sum_list_triv o_def)
qed

lemma sha256hex_not_Nil [simp]: "sha256hex s \<noteq> []"
  by (metis length_sha256hex list.size(3) zero_neq_numeral)

end
