(* ===== verification/Config_Secret.thy ===== *)
theory Config_Secret
  imports Workload Go_Json Go_Crypto
begin

text \<open>
  The generated server configuration of user-group mode: \<^verbatim>\<open>buildServerConfigJSON\<close>,
  \<^verbatim>\<open>reconcileConfigSecret\<close> and \<^verbatim>\<open>cleanupConfigSecret\<close> of \<^verbatim>\<open>enshroudedserver_controller.go\<close>.

  Shown: the JSON text determines the configuration (so a change of any setting or password changes
  the text that is hashed), and which groups get which password.
\<close>

section \<open>The code\<close>

record userGroupJSON =
  ugj_Name :: string
  ugj_Password :: string
  ugj_CanKickBan :: bool
  ugj_CanAccessInventories :: bool
  ugj_CanEditWorld :: bool
  ugj_CanEditBase :: bool
  ugj_CanExtendBase :: bool
  ugj_ReservedSlots :: int32

record enshroudedConfigJSON =
  cfg_Name :: string
  cfg_SaveDirectory :: string
  cfg_LogDirectory :: string
  cfg_IP :: string
  cfg_QueryPort :: int32
  cfg_SlotCount :: int32
  cfg_UserGroups :: "userGroupJSON list"

definition marshalGroup :: "userGroupJSON \<Rightarrow> string" where
  "marshalGroup g = json_object [
     json_field ''name'' (json_string (ugj_Name g)),
     json_field ''password'' (json_string (ugj_Password g)),
     json_field ''canKickBan'' (json_bool (ugj_CanKickBan g)),
     json_field ''canAccessInventories'' (json_bool (ugj_CanAccessInventories g)),
     json_field ''canEditWorld'' (json_bool (ugj_CanEditWorld g)),
     json_field ''canEditBase'' (json_bool (ugj_CanEditBase g)),
     json_field ''canExtendBase'' (json_bool (ugj_CanExtendBase g)),
     json_field ''reservedSlots'' (json_int (ugj_ReservedSlots g))]"

text \<open>\<^verbatim>\<open>json.Marshal(cfg)\<close>, which cannot fail on these types.\<close>

definition marshalConfig :: "enshroudedConfigJSON \<Rightarrow> string" where
  "marshalConfig cfg = json_object [
     json_field ''name'' (json_string (cfg_Name cfg)),
     json_field ''saveDirectory'' (json_string (cfg_SaveDirectory cfg)),
     json_field ''logDirectory'' (json_string (cfg_LogDirectory cfg)),
     json_field ''ip'' (json_string (cfg_IP cfg)),
     json_field ''queryPort'' (json_int (cfg_QueryPort cfg)),
     json_field ''slotCount'' (json_int (cfg_SlotCount cfg)),
     json_field ''userGroups'' (json_array (map marshalGroup (cfg_UserGroups cfg)))]"

text \<open>
  The verb \<^verbatim>\<open>%q\<close> in error texts: \<^verbatim>\<open>strconv.Quote\<close>, with every character beyond ASCII taken as
  printable.
\<close>

definition quoted_ascii :: "char \<Rightarrow> string" where
  "quoted_ascii c =
     (if c = CHR 0x5C \<or> c = quote then [CHR 0x5C, c]
      else if c = CHR 0x07 then [CHR 0x5C, CHR ''a''] else if c = CHR 0x08 then [CHR 0x5C, CHR ''b'']
      else if c = CHR 0x0C then [CHR 0x5C, CHR ''f''] else if c = CHR 0x0A then [CHR 0x5C, CHR ''n'']
      else if c = CHR 0x0D then [CHR 0x5C, CHR ''r''] else if c = CHR 0x09 then [CHR 0x5C, CHR ''t'']
      else if c = CHR 0x0B then [CHR 0x5C, CHR ''v'']
      else if of_char c < (0x20::nat) \<or> of_char c = (0x7F::nat)
      then [CHR 0x5C, CHR ''x'', json_hex (of_char c div 16), json_hex (of_char c mod 16)]
      else [c])"

function quoted_body :: "string \<Rightarrow> string" where
  "quoted_body s =
     (if s = [] then []
      else if utf8_width s = 0
      then [CHR 0x5C, CHR ''x'', json_hex (of_char (hd s) div 16), json_hex (of_char (hd s) mod 16)] @ quoted_body (tl s)
      else if utf8_width s = 1 then quoted_ascii (hd s) @ quoted_body (tl s)
      else take (utf8_width s) s @ quoted_body (drop (utf8_width s) s))"
  by pat_completeness auto
termination
  by (relation "measure length") auto

declare quoted_body.simps [simp del]

definition quoted :: "string \<Rightarrow> string" where
  "quoted s = [quote] @ quoted_body s @ [quote]"

definition groupPassword ::
  "('w, 'q) platform \<Rightarrow> 'q EnshroudedServer \<Rightarrow> UserGroup \<Rightarrow> ('w, 'q, gerror + string) M" where
  "groupPassword p server g =
    (case ug_PasswordSecretRef g of
       None \<Rightarrow> State_Monad.return (Inr '''')
     | Some ref \<Rightarrow> do {
         r \<leftarrow> r_Get p KSecret (snamespace server) (skr_Name ref);
         State_Monad.return (case as_Secret r of
           Inl err \<Rightarrow> Inl (wrapErr (''UserGroup '' @ quoted (ug_Name g) @ '': Secret '' @ quoted (skr_Name ref)) err)
         | Inr secret \<Rightarrow> Inr (case sec_Data secret (skr_Key ref) of Some d \<Rightarrow> d | None \<Rightarrow> ''''))
       })"

definition mkGroup :: "UserGroup \<Rightarrow> string \<Rightarrow> userGroupJSON" where
  "mkGroup g password = \<lparr>ugj_Name = ug_Name g, ugj_Password = password,
     ugj_CanKickBan = ug_CanKickBan g, ugj_CanAccessInventories = ug_CanAccessInventories g,
     ugj_CanEditWorld = ug_CanEditWorld g, ugj_CanEditBase = ug_CanEditBase g,
     ugj_CanExtendBase = ug_CanExtendBase g, ugj_ReservedSlots = ug_ReservedSlots g\<rparr>"

fun buildGroups ::
  "('w, 'q) platform \<Rightarrow> 'q EnshroudedServer \<Rightarrow> userGroupJSON list \<Rightarrow> UserGroup list \<Rightarrow>
   ('w, 'q, gerror + userGroupJSON list) M" where
  "buildGroups p server groups [] = State_Monad.return (Inr groups)"
| "buildGroups p server groups (g # gs) = do {
     r \<leftarrow> groupPassword p server g;
     (case r of
        Inl err \<Rightarrow> State_Monad.return (Inl err)
      | Inr password \<Rightarrow> buildGroups p server (groups @ [mkGroup g password]) gs)
   }"

definition mkConfig :: "'q EnshroudedServerSpec \<Rightarrow> userGroupJSON list \<Rightarrow> enshroudedConfigJSON" where
  "mkConfig spec groups = \<lparr>
     cfg_Name = (if ServerName spec = '''' then ''Enshrouded Server'' else ServerName spec),
     cfg_SaveDirectory = ''./savegame'',
     cfg_LogDirectory = ''./logs'',
     cfg_IP = (if ServerIP spec = '''' then ''0.0.0.0'' else ServerIP spec),
     cfg_QueryPort = (if Port spec = 0 then 15637 else Port spec),
     cfg_SlotCount = (if ServerSlots spec = 0 then 16 else ServerSlots spec),
     cfg_UserGroups = groups\<rparr>"

definition buildServerConfigJSON ::
  "('w, 'q) platform \<Rightarrow> 'q EnshroudedServer \<Rightarrow> ('w, 'q, gerror + (string \<times> string)) M" where
  "buildServerConfigJSON p server = do {
     r \<leftarrow> buildGroups p server [] (UserGroups (Spec server));
     (case r of
        Inl err \<Rightarrow> State_Monad.return (Inl err)
      | Inr groups \<Rightarrow>
         let data = marshalConfig (mkConfig (Spec server) groups)
         in State_Monad.return (Inr (data, sha256hex data)))
   }"

definition reconcileConfigSecret ::
  "('w, 'q) platform \<Rightarrow> 'q EnshroudedServer \<Rightarrow> ('w, 'q, gerror + string) M" where
  "reconcileConfigSecret p server = do {
     r \<leftarrow> buildServerConfigJSON p server;
     (case r of
        Inl err \<Rightarrow> State_Monad.return (Inl err)
      | Inr (data, configHash) \<Rightarrow>
         let secretName = sname server @ ''-config'' in
         (case cu_SetControllerReference p server
                 (new_meta secretName (snamespace server) (labelsForServer (sname server))) of
            Inl err \<Rightarrow> State_Monad.return (Inl err)
          | Inr meta \<Rightarrow>
             let desired = \<lparr>sec_Meta = meta, sec_Data = [configSecretKey \<mapsto> data]\<rparr> in do {
               g \<leftarrow> r_Get p KSecret (snamespace server) secretName;
               (case as_Secret g of
                  Inl err \<Rightarrow>
                    if \<not> IsNotFound err then State_Monad.return (Inl err)
                    else do {
                      e \<leftarrow> r_Create p (OSecret desired);
                      State_Monad.return (case e of Some x \<Rightarrow> Inl x | None \<Rightarrow> Inr configHash)
                    }
                | Inr existing \<Rightarrow> do {
                    u \<leftarrow> r_Update p (OSecret (existing\<lparr>sec_Data := sec_Data desired\<rparr>));
                    State_Monad.return (case u of Inl x \<Rightarrow> Inl x | Inr _ \<Rightarrow> Inr configHash)
                  })
             }))
   }"

definition cleanupConfigSecret ::
  "('w, 'q) platform \<Rightarrow> 'q EnshroudedServer \<Rightarrow> ('w, 'q, gerror option) M" where
  "cleanupConfigSecret p server = do {
     g \<leftarrow> r_Get p KSecret (snamespace server) (sname server @ ''-config'');
     (case as_Secret g of
        Inl err \<Rightarrow> State_Monad.return (IgnoreNotFound (Some err))
      | Inr existing \<Rightarrow> do {
          e \<leftarrow> r_Delete p (OSecret existing);
          State_Monad.return (IgnoreNotFound e)
        })
   }"

section \<open>The text determines the configuration\<close>

definition utf8_group :: "userGroupJSON \<Rightarrow> bool" where
  "utf8_group g \<longleftrightarrow> valid_utf8 (ugj_Name g) \<and> valid_utf8 (ugj_Password g)"

definition utf8_config :: "enshroudedConfigJSON \<Rightarrow> bool" where
  "utf8_config c \<longleftrightarrow> valid_utf8 (cfg_Name c) \<and> valid_utf8 (cfg_SaveDirectory c) \<and>
     valid_utf8 (cfg_LogDirectory c) \<and> valid_utf8 (cfg_IP c) \<and> list_all utf8_group (cfg_UserGroups c)"

lemma json_string_cancel:
  assumes "valid_utf8 a" "valid_utf8 b" "json_string a @ s = json_string b @ t"
  shows "a = b \<and> s = t"
proof -
  from assms(3) have "json_body a @ quote # s = json_body b @ quote # t"
    by (simp add: json_string_def)
  from arg_cong [OF this, of json_read] have "Some (a, s) = Some (b, t)"
    by (simp only: json_read_body [OF assms(1)] json_read_body [OF assms(2)])
  then show ?thesis by simp
qed

lemma json_bool_cancel: "json_bool a @ s = json_bool b @ t \<longleftrightarrow> a = b \<and> s = t"
  by (auto simp: json_bool_def)

text \<open>A number ends where its digits end.\<close>

definition no_digit_start :: "string \<Rightarrow> bool" where
  "no_digit_start s \<longleftrightarrow> (case s of [] \<Rightarrow> True | c # _ \<Rightarrow> \<not> is_digit c)"

lemma digits_cancel:
  assumes "list_all is_digit a" "list_all is_digit b" "no_digit_start s" "no_digit_start t"
    "a @ s = b @ t"
  shows "a = b \<and> s = t"
proof -
  have tw: "takeWhile is_digit (x @ y) = x" if "list_all is_digit x" "no_digit_start y" for x y
    using that by (induction x) (auto simp: no_digit_start_def split: list.splits)
  from tw [OF assms(1,3)] tw [OF assms(2,4)] assms(5) show ?thesis by (metis same_append_eq)
qed

lemma show_nat_cancel:
  assumes "no_digit_start s" "no_digit_start t" "show_nat m @ s = show_nat n @ t"
  shows "m = n \<and> s = t"
proof -
  have d: "list_all is_digit (show_nat n)" for n
    using show_nat_digits [of n] by (simp add: list_all_iff)
  from digits_cancel [OF d d assms] show ?thesis by simp
qed

lemma show_nat_minus: "show_nat n @ y \<noteq> CHR ''-'' # z"
  using minus_not_digit [of n] show_nat_not_Nil [of n] by (cases "show_nat n") auto

lemma show_int_cancel:
  assumes "no_digit_start s" "no_digit_start t" "show_int i @ s = show_int j @ t"
  shows "i = j \<and> s = t"
proof -
  consider "i < 0" "j < 0" | "i < 0" "0 \<le> j" | "0 \<le> i" "j < 0" | "0 \<le> i" "0 \<le> j" by linarith
  then show ?thesis
  proof cases
    case 1
    with assms(3) have "show_nat (nat (- i)) @ s = show_nat (nat (- j)) @ t" by (simp add: show_int_def)
    from show_nat_cancel [OF assms(1,2) this] 1 show ?thesis by (simp add: nat_eq_iff)
  next
    case 2
    with assms(3) show_nat_minus [of "nat j" t] show ?thesis by (simp add: show_int_def) metis
  next
    case 3
    with assms(3) show_nat_minus [of "nat i" s] show ?thesis by (simp add: show_int_def)
  next
    case 4
    with assms(3) have "show_nat (nat i) @ s = show_nat (nat j) @ t" by (simp add: show_int_def)
    from show_nat_cancel [OF assms(1,2) this] 4 show ?thesis by (simp add: nat_eq_iff)
  qed
qed

lemma json_int_cancel:
  assumes "no_digit_start s" "no_digit_start t" "json_int i @ s = json_int j @ t"
  shows "i = j \<and> s = t"
  using show_int_cancel [OF assms(1,2), of "sint i" "sint j"] assms(3)
  by (auto simp: json_int_def intro: signed_word_eqI)

text \<open>
  The texts of two structs, read field by field from the left: each rule drops the first field of
  both sides.
\<close>

definition fields_eq :: "string list \<Rightarrow> string \<Rightarrow> string list \<Rightarrow> string \<Rightarrow> bool" where
  "fields_eq fs s gs t \<longleftrightarrow> json_commas fs @ ''}'' @ s = json_commas gs @ ''}'' @ t"

lemma json_object_eq: "json_object fs @ s = json_object gs @ t \<longleftrightarrow> fields_eq fs s gs t"
  by (simp add: json_object_def fields_eq_def)

lemma field_string:
  assumes "fields_eq (json_field n (json_string a) # f # fs) s (json_field n (json_string b) # g # gs) t"
    "valid_utf8 a" "valid_utf8 b"
  shows "a = b \<and> fields_eq (f # fs) s (g # gs) t"
  using assms(1) json_string_cancel [OF assms(2,3)] by (auto simp: fields_eq_def json_field_def)

lemma field_bool:
  assumes "fields_eq (json_field n (json_bool a) # f # fs) s (json_field n (json_bool b) # g # gs) t"
  shows "a = b \<and> fields_eq (f # fs) s (g # gs) t"
  using assms by (simp add: fields_eq_def json_field_def json_bool_cancel)

lemma no_digit_sep [simp]: "no_digit_start (CHR '','' # x)" "no_digit_start (CHR ''}'' # x)"
  by (simp_all add: no_digit_start_def is_digit_def)

lemma field_int:
  assumes "fields_eq (json_field n (json_int a) # f # fs) s (json_field n (json_int b) # g # gs) t"
  shows "a = b \<and> fields_eq (f # fs) s (g # gs) t"
proof -
  from assms have "json_int a @ CHR '','' # (json_commas (f # fs) @ ''}'' @ s) =
      json_int b @ CHR '','' # (json_commas (g # gs) @ ''}'' @ t)"
    by (simp add: fields_eq_def json_field_def)
  from json_int_cancel [OF _ _ this] show ?thesis by (simp add: fields_eq_def)
qed

lemma last_field_int:
  assumes "fields_eq [json_field n (json_int a)] s [json_field n (json_int b)] t"
  shows "a = b \<and> s = t"
proof -
  from assms have "json_int a @ CHR ''}'' # s = json_int b @ CHR ''}'' # t"
    by (simp add: fields_eq_def json_field_def)
  from json_int_cancel [OF _ _ this] show ?thesis by simp
qed

lemma marshalGroup_cancel:
  assumes "utf8_group g" "utf8_group h" "marshalGroup g @ s = marshalGroup h @ t"
  shows "g = h \<and> s = t"
proof -
  note u = assms(1,2) [unfolded utf8_group_def]
  note name = field_string [OF assms(3) [unfolded marshalGroup_def json_object_eq] conjunct1 [OF u(1)] conjunct1 [OF u(2)]]
  note password = field_string [OF conjunct2 [OF name] conjunct2 [OF u(1)] conjunct2 [OF u(2)]]
  note kick = field_bool [OF conjunct2 [OF password]]
  note inventories = field_bool [OF conjunct2 [OF kick]]
  note world = field_bool [OF conjunct2 [OF inventories]]
  note base = field_bool [OF conjunct2 [OF world]]
  note extend = field_bool [OF conjunct2 [OF base]]
  note slots = last_field_int [OF conjunct2 [OF extend]]
  note firsts = name password kick inventories world base extend
  from firsts [THEN conjunct1] slots show ?thesis by simp
qed

lemma commas_cancel:
  assumes "\<And>g h s t. P g \<Longrightarrow> P h \<Longrightarrow> f g @ s = f h @ t \<Longrightarrow> g = h \<and> s = t"
    and "\<And>g s t. f g @ s \<noteq> CHR '']'' # t"
  shows "list_all P gs \<Longrightarrow> list_all P hs \<Longrightarrow>
    json_commas (map f gs) @ CHR '']'' # s = json_commas (map f hs) @ CHR '']'' # t \<Longrightarrow>
    gs = hs \<and> s = t"
proof (induction gs arbitrary: hs rule: induct_list012)
  case 1
  show ?case
  proof (cases hs)
    case (Cons h hs')
    with 1 have "\<exists>z. f h @ z = CHR '']'' # s" by (cases hs') auto
    with assms(2) show ?thesis by metis
  qed (use 1 in simp)
next
  case (2 g)
  show ?case
  proof (cases hs)
    case Nil
    with 2 assms(2) show ?thesis by simp
  next
    case (Cons h hs')
    have "g = h \<and> hs' = [] \<and> s = t"
    proof (cases hs')
      case Nil
      with 2 Cons assms(1) [of g h "CHR '']'' # s" "CHR '']'' # t"] show ?thesis by auto
    next
      case (Cons h' hs'')
      with 2 \<open>hs = h # hs'\<close> assms(1) [of g h "CHR '']'' # s" "CHR '','' # (json_commas (f h' # map f hs'') @ CHR '']'' # t)"]
      show ?thesis by auto
    qed
    with Cons show ?thesis by simp
  qed
next
  case (3 g g' gs)
  show ?case
  proof (cases hs)
    case Nil
    with 3 assms(2) show ?thesis by simp
  next
    case (Cons h hs')
    show ?thesis
    proof (cases hs')
      case Nil
      with 3 Cons assms(1) [of g h "CHR '','' # (json_commas (f g' # map f gs) @ CHR '']'' # s)" "CHR '']'' # t"]
      show ?thesis by auto
    next
      case C: (Cons h' hs'')
      let ?r = "json_commas (f g' # map f gs) @ CHR '']'' # s"
      let ?q = "json_commas (f h' # map f hs'') @ CHR '']'' # t"
      from 3 Cons C assms(1) [of g h "CHR '','' # ?r" "CHR '','' # ?q"] have "g = h" "?r = ?q" by auto
      with 3(2) [of hs'] 3(3,4) Cons C show ?thesis by simp
    qed
  qed
qed

lemma array_groups_cancel:
  assumes "list_all utf8_group gs" "list_all utf8_group hs"
    "json_array (map marshalGroup gs) @ s = json_array (map marshalGroup hs) @ t"
  shows "gs = hs \<and> s = t"
proof (rule commas_cancel [where P = utf8_group and f = marshalGroup])
  show "marshalGroup g @ x \<noteq> CHR '']'' # y" for g x y by (simp add: marshalGroup_def json_object_def)
qed (use assms in \<open>auto simp: json_array_def dest: marshalGroup_cancel\<close>)

lemma marshalConfig_inject:
  assumes "utf8_config c" "utf8_config d" "marshalConfig c = marshalConfig d"
  shows "c = d"
proof -
  from assms(3) have "marshalConfig c @ [] = marshalConfig d @ []" by simp
  note start = this [unfolded marshalConfig_def json_object_eq]
  from assms(1) have u: "valid_utf8 (cfg_Name c)" "valid_utf8 (cfg_SaveDirectory c)"
    "valid_utf8 (cfg_LogDirectory c)" "valid_utf8 (cfg_IP c)" "list_all utf8_group (cfg_UserGroups c)"
    by (simp_all add: utf8_config_def)
  from assms(2) have v: "valid_utf8 (cfg_Name d)" "valid_utf8 (cfg_SaveDirectory d)"
    "valid_utf8 (cfg_LogDirectory d)" "valid_utf8 (cfg_IP d)" "list_all utf8_group (cfg_UserGroups d)"
    by (simp_all add: utf8_config_def)
  note name = field_string [OF start u(1) v(1)]
  note save = field_string [OF conjunct2 [OF name] u(2) v(2)]
  note logd = field_string [OF conjunct2 [OF save] u(3) v(3)]
  note ip = field_string [OF conjunct2 [OF logd] u(4) v(4)]
  note port = field_int [OF conjunct2 [OF ip]]
  note slots = field_int [OF conjunct2 [OF port]]
  note firsts = name save logd ip port slots
  have "cfg_UserGroups c = cfg_UserGroups d"
    using conjunct2 [OF slots] array_groups_cancel [OF u(5) v(5)]
    by (simp only: fields_eq_def json_field_def json_commas.simps append_assoc same_append_eq)
  with firsts [THEN conjunct1] show ?thesis by simp
qed

section \<open>What the calls leave in the store\<close>

text \<open>The password a group gets, read from the store.\<close>

definition storedPassword :: "(okey \<Rightarrow> 'q kobj option) \<Rightarrow> string \<Rightarrow> UserGroup \<Rightarrow> string" where
  "storedPassword S ns g =
    (case ug_PasswordSecretRef g of
       None \<Rightarrow> ''''
     | Some ref \<Rightarrow>
        (case S (KSecret, ns, skr_Name ref) of
           Some (OSecret x) \<Rightarrow> (case sec_Data x (skr_Key ref) of Some d \<Rightarrow> d | None \<Rightarrow> '''')
         | _ \<Rightarrow> ''''))"

definition configOf :: "(okey \<Rightarrow> 'q kobj option) \<Rightarrow> 'q EnshroudedServer \<Rightarrow> enshroudedConfigJSON" where
  "configOf S server = mkConfig (Spec server)
     (map (\<lambda>g. mkGroup g (storedPassword S (snamespace server) g)) (UserGroups (Spec server)))"

definition configText :: "(okey \<Rightarrow> 'q kobj option) \<Rightarrow> 'q EnshroudedServer \<Rightarrow> string" where
  "configText S server = marshalConfig (configOf S server)"

text \<open>
  The settings as a JSON value, spelled out from the resource: every member with its name, the
  defaults of the settings that are not given, and each group with its own permissions and the
  password that its Secret holds.
\<close>

definition group_settings :: "(okey \<Rightarrow> 'q kobj option) \<Rightarrow> string \<Rightarrow> UserGroup \<Rightarrow> json" where
  "group_settings S ns g = JObject [
     (''name'', JString (ug_Name g)),
     (''password'', JString (storedPassword S ns g)),
     (''canKickBan'', JBool (ug_CanKickBan g)),
     (''canAccessInventories'', JBool (ug_CanAccessInventories g)),
     (''canEditWorld'', JBool (ug_CanEditWorld g)),
     (''canEditBase'', JBool (ug_CanEditBase g)),
     (''canExtendBase'', JBool (ug_CanExtendBase g)),
     (''reservedSlots'', JInt (ug_ReservedSlots g))]"

definition server_settings :: "(okey \<Rightarrow> 'q kobj option) \<Rightarrow> 'q EnshroudedServer \<Rightarrow> json" where
  "server_settings S server = JObject [
     (''name'', JString (if ServerName (Spec server) = '''' then ''Enshrouded Server'' else ServerName (Spec server))),
     (''saveDirectory'', JString ''./savegame''),
     (''logDirectory'', JString ''./logs''),
     (''ip'', JString (if ServerIP (Spec server) = '''' then ''0.0.0.0'' else ServerIP (Spec server))),
     (''queryPort'', JInt (if Port (Spec server) = 0 then 15637 else Port (Spec server))),
     (''slotCount'', JInt (if ServerSlots (Spec server) = 0 then 16 else ServerSlots (Spec server))),
     (''userGroups'', JArray (map (group_settings S (snamespace server)) (UserGroups (Spec server))))]"

lemma marshalGroup_settings:
  "marshalGroup (mkGroup g (storedPassword S ns g)) = json_text (group_settings S ns g)"
  by (simp add: marshalGroup_def mkGroup_def group_settings_def json_object_def json_field_def json_bool_def json_int_def)

lemma configText_settings: "configText S server = json_text (server_settings S server)"
  by (simp add: configText_def configOf_def marshalConfig_def mkConfig_def server_settings_def json_object_def
      json_array_def json_field_def json_int_def marshalGroup_settings comp_def)

definition configKey :: "'q EnshroudedServer \<Rightarrow> okey" where
  "configKey server = (KSecret, snamespace server, sname server @ ''-config'')"

definition config_good :: "'q EnshroudedServer \<Rightarrow> string \<Rightarrow> 'q kobj option \<Rightarrow> 'q kobj \<Rightarrow> bool" where
  "config_good server text old x \<longleftrightarrow>
     (\<exists>y. x = OSecret y \<and> sec_Data y = [configSecretKey \<mapsto> text] \<and>
        (case old of Some z \<Rightarrow> sec_Meta y = meta_of z | None \<Rightarrow> owned_by server (sec_Meta y)))"

context kube_api
begin

lemma runs_groupPassword:
  "runs store S (groupPassword p server g)
     (\<lambda>r S'. S' = S \<and> (\<forall>pw. r = Inr pw \<longrightarrow> pw = storedPassword S (snamespace server) g))"
  unfolding groupPassword_def
  by (intro runs_intros) (auto simp: storedPassword_def as_Inr split: sum.splits)

lemma runs_buildGroups:
  "runs store S (buildGroups p server groups ugs)
     (\<lambda>r S'. S' = S \<and> (\<forall>gs. r = Inr gs \<longrightarrow>
        gs = groups @ map (\<lambda>g. mkGroup g (storedPassword S (snamespace server) g)) ugs))"
proof (induction ugs arbitrary: groups)
  case Nil
  show ?case by (simp add: runs_return)
next
  case (Cons g ugs)
  show ?case unfolding buildGroups.simps
    by (intro runs_bind runs_conseq [OF runs_groupPassword])
      (auto split: sum.split intro!: runs_return runs_conseq [OF Cons.IH])
qed

lemma runs_buildServerConfigJSON:
  assumes "\<And>e. Q (Inl e) S" "Q (Inr (configText S server, sha256hex (configText S server))) S"
  shows "runs store S (buildServerConfigJSON p server) Q"
  unfolding buildServerConfigJSON_def
  by (intro runs_bind runs_conseq [OF runs_buildGroups])
    (use assms in \<open>auto split: sum.split intro!: runs_return simp: configText_def configOf_def Let_def\<close>)

lemma runs_reconcileConfigSecret:
  "runs store S (reconcileConfigSecret p server)
     (\<lambda>r S'. (\<forall>k. k \<noteq> configKey server \<longrightarrow> S' k = S k) \<and>
       (\<forall>h. r = Inr h \<longrightarrow> h = sha256hex (configText S server) \<and>
          put accept (configKey server) (config_good server (configText S server)) S S'))"
  unfolding reconcileConfigSecret_def
  by (intro runs_buildServerConfigJSON runs_intros)
    (auto simp: as_Inr key_of_def set_owner_fields configKey_def config_good_def intro!: putI dest: as_notfound)

lemma runs_cleanupConfigSecret:
  "runs store S (cleanupConfigSecret p server)
     (\<lambda>e S'. (\<forall>k. k \<noteq> configKey server \<longrightarrow> S' k = S k) \<and>
       (e = None \<longrightarrow> S' (configKey server) = None \<or>
          (\<exists>y. S' (configKey server) = Some y \<and> om_DeletionTimestamp (meta_of y) \<noteq> None)))"
  unfolding cleanupConfigSecret_def
  by (intro runs_intros) (auto simp: as_Inr key_of_def configKey_def IgnoreNotFound_def dest: as_notfound split: if_splits)

end

section \<open>Properties\<close>

text \<open>
  C30. On an API server that keeps its promises, a successful \<^verbatim>\<open>reconcileConfigSecret\<close> leaves in the
  Secret \<^verbatim>\<open><name>-config\<close>, under the key \<^verbatim>\<open>enshrouded_server.json\<close> and no other, the text of the JSON
  object with the server's name, directories, address, query port, slot count and user groups, each
  group with its own permissions and reserved slots and the password that the referenced Secret
  holds; it changes no other object and returns the SHA-256 of that text.
\<close>

theorem config_secret_holds_settings:
  assumes "kube_api p store accept" "run_state (reconcileConfigSecret p server) s = (Inr hash, s')"
  shows "\<exists>y. store (env s') = (store (env s))(configKey server \<mapsto> accept (store (env s) (configKey server)) (OSecret y)) \<and>
     sec_Data y = [''enshrouded_server.json'' \<mapsto> json_text (server_settings (store (env s)) server)] \<and>
     hash = sha256hex (json_text (server_settings (store (env s)) server))"
  using runsD [OF kube_api.runs_reconcileConfigSecret [OF assms(1)] refl assms(2)]
  by (auto simp: put_def config_good_def configText_settings configSecretKey_def)

definition demo_groups :: "int EnshroudedServer" where
  "demo_groups = demo\<lparr>Spec := demo_spec\<lparr>UserGroups := [\<lparr>ug_Name = ''Friends'',
     ug_PasswordSecretRef = Some \<lparr>skr_Name = ''pw'', skr_Key = ''friends''\<rparr>, ug_CanKickBan = False,
     ug_CanAccessInventories = True, ug_CanEditWorld = True, ug_CanEditBase = True,
     ug_CanExtendBase = True, ug_ReservedSlots = 2\<rparr>]\<rparr>\<rparr>"

definition demo_password :: "int kobj" where
  "demo_password = OSecret \<lparr>sec_Meta = new_meta ''pw'' ''games'' Map.empty, sec_Data = [''friends'' \<mapsto> ''s3cret'']\<rparr>"

theorem config_secret_holds_settings_witness:
  "\<exists>hash s' x. run_state (reconcileConfigSecret mem_platform demo_groups) (world_init [demo_password]) = (Inr hash, s') \<and>
     mem_store (env s') (KSecret, ''games'', ''srv-config'') = Some x \<and>
     hash = sha256hex (json_text (server_settings (mem_store (mem_init [demo_password])) demo_groups)) \<and>
     map (storedPassword (mem_store (mem_init [demo_password])) ''games'') (UserGroups (Spec demo_groups)) = [''s3cret'']"
proof -
  let ?w = "world_init [demo_password]"
  obtain r s' where run: "run_state (reconcileConfigSecret mem_platform demo_groups) ?w = (r, s')"
    by (metis prod.exhaust)
  have "\<exists>hash. r = Inr hash"
    using run
    by (auto simp: reconcileConfigSecret_def buildServerConfigJSON_def groupPassword_def r_Get_def r_Create_def
        demo_groups_def demo_password_def sname_def snamespace_def mem_SetControllerReference_def mem_Create_def mem_eval Let_def notFound_def IsNotFound_def)
  then obtain hash where hash: "r = Inr hash" by blast
  have "configKey demo_groups = (KSecret, ''games'', ''srv-config'')"
    by (simp add: configKey_def demo_groups_def sname_def snamespace_def demo_def new_meta_def)
  with config_secret_holds_settings [OF mem_api.kube_api_axioms run [unfolded hash]]
  obtain x where "mem_store (env s') (KSecret, ''games'', ''srv-config'') = Some x"
    "hash = sha256hex (json_text (server_settings (mem_store (mem_init [demo_password])) demo_groups))"
    by (auto simp: world_init_def)
  moreover have "map (storedPassword (mem_store (mem_init [demo_password])) ''games'') (UserGroups (Spec demo_groups)) = [''s3cret'']"
    by (simp add: storedPassword_def demo_groups_def demo_password_def sname_def snamespace_def mem_eval)
  ultimately show ?thesis using run [unfolded hash] by (intro exI conjI)
qed

text \<open>
  C31. The text determines the settings: for settings in UTF-8 the texts of two configurations, and
  with them what is hashed into the pod annotation, are equal only if every setting, every group
  with its permissions, and every password are equal.
\<close>

theorem config_text_tracks_settings:
  assumes "utf8_config (configOf S server)" "utf8_config (configOf S' server')"
  shows "marshalConfig (configOf S server) = marshalConfig (configOf S' server') \<longleftrightarrow>
    configOf S server = configOf S' server'"
  using marshalConfig_inject [OF assms] by auto


theorem config_text_tracks_settings_witness:
  "marshalConfig (configOf Map.empty demo) \<noteq> marshalConfig (configOf Map.empty (demo\<lparr>Spec := demo_spec\<lparr>ServerSlots := 8\<rparr>\<rparr>))"
proof -
  have "utf8_config (configOf Map.empty demo)" "utf8_config (configOf Map.empty (demo\<lparr>Spec := demo_spec\<lparr>ServerSlots := 8\<rparr>\<rparr>))"
    by (simp_all add: utf8_config_def configOf_def mkConfig_def demo_def demo_spec_def) code_simp+
  from config_text_tracks_settings [OF this] show ?thesis
    by (simp add: configOf_def mkConfig_def demo_def demo_spec_def)
qed

end
