(* ===== verification/Child_Resources.thy ===== *)
theory Child_Resources
  imports Workload
begin

text \<open>
  The objects around the StatefulSet: the savegame claim, the Service and the NetworkPolicy
  (\<^verbatim>\<open>enshroudedserver_controller.go\<close>), the PodDisruptionBudget (\<^verbatim>\<open>enshroudedserver_pdb.go\<close>) and the
  ServiceAccount, Role and RoleBinding of the metrics sidecar (\<^verbatim>\<open>enshroudedserver_sidecar.go\<close>).

  Shown for each: on an API server that keeps its promises (\<open>kube_api\<close>) a successful call leaves
  the wanted object in the store and changes nothing else; every write of a call goes to the
  object of that call; the claim is never updated or deleted here. For the NetworkPolicy, which
  packets it lets through; for the PodDisruptionBudget, when it blocks evictions.
\<close>

section \<open>The code\<close>

text \<open>\<^verbatim>\<open>isInMaintenanceWindow\<close> reads the clock itself, unless the list is empty.\<close>

definition inMaintenanceNow :: "('w, 'q) platform \<Rightarrow> string list \<Rightarrow> ('w, 'q, bool) M" where
  "inMaintenanceNow p windows =
     (if windows = [] then State_Monad.return False
      else do {
        now \<leftarrow> time_Now p;
        State_Monad.return (isInMaintenanceWindow (tm_LoadLocation p) now windows)
      })"

subsection \<open>The savegame claim\<close>

definition pvcName :: "'q EnshroudedServer \<Rightarrow> string" where
  "pvcName server = sname server @ ''-savegame''"

definition desiredPVC :: "'q EnshroudedServer \<Rightarrow> 'q \<Rightarrow> 'q PersistentVolumeClaim" where
  "desiredPVC server storageSize = \<lparr>
     pvc_Meta = new_meta (pvcName server) (snamespace server) (labelsForServer (sname server)),
     pvc_AccessModes = [''ReadWriteOnce''],
     pvc_Storage = storageSize,
     pvc_StorageClassName = StorageClassName (Storage (Spec server))\<rparr>"

definition reconcilePVC :: "('w, 'q) platform \<Rightarrow> 'q EnshroudedServer \<Rightarrow> ('w, 'q, gerror option) M" where
  "reconcilePVC p server =
    (case (if q_IsZero p (Size (Storage (Spec server))) then MustParse p ''10Gi''
           else Inr (Size (Storage (Spec server)))) of
       Inl panic \<Rightarrow> State_Monad.return (Some panic)
     | Inr storageSize \<Rightarrow> do {
         g \<leftarrow> r_Get p KPersistentVolumeClaim (snamespace server) (pvcName server);
         (case as_PersistentVolumeClaim g of
            Inl err \<Rightarrow>
              if \<not> IsNotFound err then State_Monad.return (Some err)
              else r_Create p (OPersistentVolumeClaim (desiredPVC server storageSize))
          | Inr existing \<Rightarrow> State_Monad.return None)
       })"

subsection \<open>The Service\<close>

definition desiredService :: "'q EnshroudedServer \<Rightarrow> Service" where
  "desiredService server =
    (let port = (if Port (Spec server) = 0 then 15637 else Port (Spec server));
         steamPort = (if SteamPort (Spec server) = 0 then 27015 else SteamPort (Spec server))
     in \<lparr>svc_Meta = new_meta (sname server) (snamespace server) (labelsForServer (sname server)),
         svc_Type = ''LoadBalancer'',
         svc_Selector = labelsForServer (sname server),
         svc_Ports = [\<lparr>sp_Name = ''query'', sp_Port = port, sp_Protocol = UDP\<rparr>,
                      \<lparr>sp_Name = ''steam'', sp_Port = steamPort, sp_Protocol = UDP\<rparr>],
         svc_other = []\<rparr>)"

definition reconcileService :: "('w, 'q) platform \<Rightarrow> 'q EnshroudedServer \<Rightarrow> ('w, 'q, gerror option) M" where
  "reconcileService p server =
    (case cu_SetControllerReference p server (svc_Meta (desiredService server)) of
       Inl err \<Rightarrow> State_Monad.return (Some err)
     | Inr meta \<Rightarrow>
        let desired = (desiredService server)\<lparr>svc_Meta := meta\<rparr> in do {
          g \<leftarrow> r_Get p KService (snamespace server) (sname server);
          (case as_Service g of
             Inl err \<Rightarrow>
               if \<not> IsNotFound err then State_Monad.return (Some err)
               else r_Create p (OService desired)
           | Inr existing \<Rightarrow> do {
               u \<leftarrow> r_Update p (OService (existing\<lparr>svc_Ports := svc_Ports desired,
                     svc_Selector := svc_Selector desired, svc_Type := svc_Type desired\<rparr>));
               State_Monad.return (err_of u)
             })
        })"

subsection \<open>The NetworkPolicy\<close>

definition desiredNetworkPolicySpec :: "'q EnshroudedServer \<Rightarrow> NetworkPolicySpec" where
  "desiredNetworkPolicySpec server =
    (let port = (if Port (Spec server) = 0 then 15637 else Port (Spec server));
         steamPort = (if SteamPort (Spec server) = 0 then 27015 else SteamPort (Spec server));
         gamePorts = [\<lparr>npp_Protocol = UDP, npp_Port = port\<rparr>, \<lparr>npp_Protocol = UDP, npp_Port = steamPort\<rparr>];
         mp = (if ms_MetricsPort (MetricsSidecar (Spec server)) = 0 then 9090
               else ms_MetricsPort (MetricsSidecar (Spec server)))
     in \<lparr>nps_PodSelector = labelsForServer (sname server),
         nps_PolicyTypes = [PolicyTypeIngress, PolicyTypeEgress],
         nps_Ingress = [\<lparr>npi_Ports = gamePorts\<rparr>] @
           (if ms_Enabled (MetricsSidecar (Spec server))
            then [\<lparr>npi_Ports = [\<lparr>npp_Protocol = TCP, npp_Port = mp\<rparr>]\<rparr>] else []),
         nps_Egress = [
           \<lparr>npe_Ports = [\<lparr>npp_Protocol = UDP, npp_Port = 53\<rparr>, \<lparr>npp_Protocol = TCP, npp_Port = 53\<rparr>],
             npe_To = []\<rparr>,
           \<lparr>npe_Ports = [\<lparr>npp_Protocol = TCP, npp_Port = 443\<rparr>],
             npe_To = [\<lparr>ipb_CIDR = ''0.0.0.0/0'', ipb_Except = [''169.254.0.0/16'']\<rparr>]\<rparr>,
           \<lparr>npe_Ports = gamePorts, npe_To = []\<rparr>]\<rparr>)"

definition reconcileNetworkPolicy ::
  "('w, 'q) platform \<Rightarrow> 'q EnshroudedServer \<Rightarrow> ('w, 'q, gerror option) M" where
  "reconcileNetworkPolicy p server =
    (let name = sname server @ ''-netpol'' in
     case cu_SetControllerReference p server
            (new_meta name (snamespace server) (labelsForServer (sname server))) of
       Inl err \<Rightarrow> State_Monad.return (Some err)
     | Inr meta \<Rightarrow>
        let desired = \<lparr>np_Meta = meta, np_Spec = desiredNetworkPolicySpec server\<rparr> in do {
          g \<leftarrow> r_Get p KNetworkPolicy (snamespace server) name;
          (case as_NetworkPolicy g of
             Inl err \<Rightarrow>
               if \<not> IsNotFound err then State_Monad.return (Some err)
               else r_Create p (ONetworkPolicy desired)
           | Inr existing \<Rightarrow> do {
               u \<leftarrow> r_Update p (ONetworkPolicy (existing\<lparr>np_Spec := np_Spec desired\<rparr>));
               State_Monad.return (err_of u)
             })
        })"

subsection \<open>The PodDisruptionBudget\<close>

definition desiredPDB :: "'q EnshroudedServer \<Rightarrow> IntOrString \<Rightarrow> PodDisruptionBudget" where
  "desiredPDB server maxUnavailable = \<lparr>
     pdb_Meta = new_meta (sname server) (snamespace server) (labelsForServer (sname server)),
     pdb_MaxUnavailable = Some maxUnavailable,
     pdb_Selector = labelsForServer (sname server),
     pdb_other = []\<rparr>"

text \<open>\<^verbatim>\<open>&&\<close> reads the clock only when the first two conditions hold.\<close>

definition playersProtected :: "('w, 'q) platform \<Rightarrow> 'q EnshroudedServer \<Rightarrow> ('w, 'q, bool) M" where
  "playersProtected p server =
    (if DeferWhilePlaying (UpdatePolicy (Spec server)) \<and> 0 <s ActivePlayers (Status server)
     then do {
       inWin \<leftarrow> inMaintenanceNow p (MaintenanceWindows (UpdatePolicy (Spec server)));
       State_Monad.return (\<not> inWin)
     }
     else State_Monad.return False)"

definition reconcilePDB :: "('w, 'q) platform \<Rightarrow> 'q EnshroudedServer \<Rightarrow> ('w, 'q, gerror option) M" where
  "reconcilePDB p server = do {
     protect \<leftarrow> playersProtected p server;
     (let maxUnavailable = FromInt (if protect then 0 else 1) in
      case cu_SetControllerReference p server (pdb_Meta (desiredPDB server maxUnavailable)) of
        Inl err \<Rightarrow> State_Monad.return
          (Some (wrapErr (''setting owner on PodDisruptionBudget '' @ sname server) err))
      | Inr meta \<Rightarrow>
         let desired = (desiredPDB server maxUnavailable)\<lparr>pdb_Meta := meta\<rparr> in do {
           g \<leftarrow> r_Get p KPodDisruptionBudget (snamespace server) (sname server);
           (case as_PodDisruptionBudget g of
              Inl err \<Rightarrow>
                if \<not> IsNotFound err
                then State_Monad.return (Some (wrapErr (''getting PodDisruptionBudget '' @ sname server) err))
                else do {
                  c \<leftarrow> r_Create p (OPodDisruptionBudget desired);
                  State_Monad.return (case c of
                    None \<Rightarrow> None
                  | Some e \<Rightarrow> if IsAlreadyExists e then None
                              else Some (wrapErr (''creating PodDisruptionBudget '' @ sname server) e))
                }
            | Inr existing \<Rightarrow>
                if (case pdb_MaxUnavailable existing of
                      None \<Rightarrow> True
                    | Some m \<Rightarrow> intstr_String m \<noteq> intstr_String maxUnavailable)
                then do {
                  u \<leftarrow> r_Update p (OPodDisruptionBudget (existing\<lparr>pdb_MaxUnavailable := Some maxUnavailable\<rparr>));
                  State_Monad.return
                    (map_option (wrapErr (''updating PodDisruptionBudget '' @ sname server)) (err_of u))
                }
                else State_Monad.return None)
         })
   }"

subsection \<open>Access rights of the metrics sidecar\<close>

definition reconcileSidecarServiceAccount ::
  "('w, 'q) platform \<Rightarrow> 'q EnshroudedServer \<Rightarrow> ('w, 'q, gerror option) M" where
  "reconcileSidecarServiceAccount p server =
    (let name = sidecarServiceAccountName (sname server) in
     case cu_SetControllerReference p server
            (new_meta name (snamespace server) (labelsForServer (sname server))) of
       Inl err \<Rightarrow> State_Monad.return (Some (wrapErr (''setting owner on ServiceAccount '' @ name) err))
     | Inr meta \<Rightarrow> do {
         g \<leftarrow> r_Get p KServiceAccount (snamespace server) name;
         (case as_ServiceAccount g of
            Inl err \<Rightarrow>
              if \<not> IsNotFound err
              then State_Monad.return (Some (wrapErr (''getting ServiceAccount '' @ name) err))
              else do {
                c \<leftarrow> r_Create p (OServiceAccount \<lparr>sa_Meta = meta\<rparr>);
                State_Monad.return (case c of
                  None \<Rightarrow> None
                | Some e \<Rightarrow> if IsAlreadyExists e then None
                            else Some (wrapErr (''creating ServiceAccount '' @ name) e))
              }
          | Inr existing \<Rightarrow> State_Monad.return None)
       })"

definition apiGroup :: string where
  "apiGroup = ''enshrouded.enshrouded.io''"

definition sidecarRules :: "PolicyRule list" where
  "sidecarRules = [
     \<lparr>rule_APIGroups = [apiGroup], rule_Resources = [''enshroudedservers''], rule_Verbs = [''get'']\<rparr>,
     \<lparr>rule_APIGroups = [apiGroup], rule_Resources = [''enshroudedservers/status''],
       rule_Verbs = [''get'', ''update'', ''patch'']\<rparr>]"

definition reconcileSidecarRole ::
  "('w, 'q) platform \<Rightarrow> 'q EnshroudedServer \<Rightarrow> ('w, 'q, gerror option) M" where
  "reconcileSidecarRole p server =
    (let name = sidecarServiceAccountName (sname server) in
     case cu_SetControllerReference p server
            (new_meta name (snamespace server) (labelsForServer (sname server))) of
       Inl err \<Rightarrow> State_Monad.return (Some (wrapErr (''setting owner on Role '' @ name) err))
     | Inr meta \<Rightarrow>
        let desired = \<lparr>role_Meta = meta, role_Rules = sidecarRules\<rparr> in do {
          g \<leftarrow> r_Get p KRole (snamespace server) name;
          (case as_Role g of
             Inl err \<Rightarrow>
               if \<not> IsNotFound err
               then State_Monad.return (Some (wrapErr (''getting Role '' @ name) err))
               else do {
                 c \<leftarrow> r_Create p (ORole desired);
                 State_Monad.return (case c of
                   None \<Rightarrow> None
                 | Some e \<Rightarrow> if IsAlreadyExists e then None
                             else Some (wrapErr (''creating Role '' @ name) e))
               }
           | Inr existing \<Rightarrow> do {
               u \<leftarrow> r_Update p (ORole (existing\<lparr>role_Rules := role_Rules desired\<rparr>));
               State_Monad.return (map_option (wrapErr (''updating Role '' @ name)) (err_of u))
             })
        })"

definition desiredRoleBinding :: "'q EnshroudedServer \<Rightarrow> ObjectMeta \<Rightarrow> RoleBinding" where
  "desiredRoleBinding server meta =
    (let name = sidecarServiceAccountName (sname server) in
     \<lparr>rb_Meta = meta, rb_SubjectKind = ''ServiceAccount'', rb_SubjectName = name,
      rb_SubjectNamespace = snamespace server, rb_RoleRefAPIGroup = ''rbac.authorization.k8s.io'',
      rb_RoleRefKind = ''Role'', rb_RoleRefName = name\<rparr>)"

definition reconcileSidecarRoleBinding ::
  "('w, 'q) platform \<Rightarrow> 'q EnshroudedServer \<Rightarrow> ('w, 'q, gerror option) M" where
  "reconcileSidecarRoleBinding p server =
    (let name = sidecarServiceAccountName (sname server) in
     case cu_SetControllerReference p server
            (new_meta name (snamespace server) (labelsForServer (sname server))) of
       Inl err \<Rightarrow> State_Monad.return (Some (wrapErr (''setting owner on RoleBinding '' @ name) err))
     | Inr meta \<Rightarrow> do {
         g \<leftarrow> r_Get p KRoleBinding (snamespace server) name;
         (case as_RoleBinding g of
            Inl err \<Rightarrow>
              if \<not> IsNotFound err
              then State_Monad.return (Some (wrapErr (''getting RoleBinding '' @ name) err))
              else do {
                c \<leftarrow> r_Create p (ORoleBinding (desiredRoleBinding server meta));
                State_Monad.return (case c of
                  None \<Rightarrow> None
                | Some e \<Rightarrow> if IsAlreadyExists e then None
                            else Some (wrapErr (''creating RoleBinding '' @ name) e))
              }
          | Inr existing \<Rightarrow> State_Monad.return None)
       })"

definition reconcileMetricsSidecarRBAC ::
  "('w, 'q) platform \<Rightarrow> 'q EnshroudedServer \<Rightarrow> ('w, 'q, gerror option) M" where
  "reconcileMetricsSidecarRBAC p server =
    (if \<not> ms_Enabled (MetricsSidecar (Spec server)) then State_Monad.return None
     else seq_err (reconcileSidecarServiceAccount p server)
            (seq_err (reconcileSidecarRole p server) (reconcileSidecarRoleBinding p server)))"

section \<open>What the NetworkPolicy lets through\<close>

text \<open>
  The meaning of a policy that selects a pod: a packet to the pod passes if an ingress rule lists its
  protocol and port; a packet from the pod passes if an egress rule lists them and the rule has no
  peer list or one of its blocks contains the remote address outside the exceptions.
\<close>

record packet =
  pk_Protocol :: Protocol
  pk_Port :: int32
  pk_Remote :: "32 word"

fun cidr_numbers :: "nat \<Rightarrow> string \<Rightarrow> nat list" where
  "cidr_numbers n [] = [n]"
| "cidr_numbers n (c # cs) =
     (if is_digit c then cidr_numbers (n * 10 + digit_val c) cs else n # cidr_numbers 0 cs)"

fun cidr_block :: "nat list \<Rightarrow> 32 word \<Rightarrow> bool" where
  "cidr_block [a, b, c, d, len] ip \<longleftrightarrow>
     drop_bit (32 - len) ip = drop_bit (32 - len) (word_of_nat (((a * 256 + b) * 256 + c) * 256 + d))"
| "cidr_block _ ip \<longleftrightarrow> False"

definition in_cidr :: "string \<Rightarrow> 32 word \<Rightarrow> bool" where
  "in_cidr s ip \<longleftrightarrow> cidr_block (cidr_numbers 0 s) ip"

definition port_matches :: "NetworkPolicyPort list \<Rightarrow> packet \<Rightarrow> bool" where
  "port_matches ports k \<longleftrightarrow> (\<exists>q \<in> set ports. npp_Protocol q = pk_Protocol k \<and> npp_Port q = pk_Port k)"

definition block_matches :: "IPBlock \<Rightarrow> packet \<Rightarrow> bool" where
  "block_matches b k \<longleftrightarrow> in_cidr (ipb_CIDR b) (pk_Remote k) \<and> (\<forall>x \<in> set (ipb_Except b). \<not> in_cidr x (pk_Remote k))"

definition ingress_allowed :: "NetworkPolicySpec \<Rightarrow> packet \<Rightarrow> bool" where
  "ingress_allowed spec k \<longleftrightarrow> PolicyTypeIngress \<in> set (nps_PolicyTypes spec) \<longrightarrow>
     (\<exists>r \<in> set (nps_Ingress spec). port_matches (npi_Ports r) k)"

definition egress_allowed :: "NetworkPolicySpec \<Rightarrow> packet \<Rightarrow> bool" where
  "egress_allowed spec k \<longleftrightarrow> PolicyTypeEgress \<in> set (nps_PolicyTypes spec) \<longrightarrow>
     (\<exists>r \<in> set (nps_Egress spec). port_matches (npe_Ports r) k \<and>
        (npe_To r = [] \<or> (\<exists>b \<in> set (npe_To r). block_matches b k)))"

definition gamePort :: "'q EnshroudedServer \<Rightarrow> int32" where
  "gamePort server = (if Port (Spec server) = 0 then 15637 else Port (Spec server))"

definition steamPortOf :: "'q EnshroudedServer \<Rightarrow> int32" where
  "steamPortOf server = (if SteamPort (Spec server) = 0 then 27015 else SteamPort (Spec server))"

definition metricsPortOf :: "'q EnshroudedServer \<Rightarrow> int32" where
  "metricsPortOf server = (if ms_MetricsPort (MetricsSidecar (Spec server)) = 0 then 9090
     else ms_MetricsPort (MetricsSidecar (Spec server)))"

definition link_local :: "32 word \<Rightarrow> bool" where
  "link_local ip \<longleftrightarrow> drop_bit 16 ip = 0xA9FE"

lemma cidr_all: "in_cidr ''0.0.0.0/0'' ip"
proof -
  have "drop_bit 32 ip = 0" by (rule bit_word_eqI) (simp add: bit_drop_bit_eq)
  then show ?thesis by (simp add: in_cidr_def is_digit_def digit_val_def)
qed

lemma cidr_link_local: "in_cidr ''169.254.0.0/16'' ip \<longleftrightarrow> link_local ip"
  by (simp add: in_cidr_def is_digit_def digit_val_def link_local_def)

text \<open>
  The traffic a server's policy is meant to pass, for the pods with the server's labels: in, UDP on
  the two game ports and, with the metrics sidecar, TCP on the metrics port; out, DNS, TCP 443 to
  every address outside the link-local range, and UDP on the game ports.
\<close>

definition passes_server_traffic :: "'q EnshroudedServer \<Rightarrow> NetworkPolicySpec \<Rightarrow> bool" where
  "passes_server_traffic server spec \<longleftrightarrow>
     nps_PodSelector spec = labelsForServer (sname server) \<and>
     (\<forall>k. (ingress_allowed spec k \<longleftrightarrow>
        pk_Protocol k = UDP \<and> pk_Port k \<in> {gamePort server, steamPortOf server} \<or>
        ms_Enabled (MetricsSidecar (Spec server)) \<and> pk_Protocol k = TCP \<and> pk_Port k = metricsPortOf server) \<and>
      (egress_allowed spec k \<longleftrightarrow>
        pk_Port k = 53 \<or>
        pk_Protocol k = TCP \<and> pk_Port k = 443 \<and> \<not> link_local (pk_Remote k) \<or>
        pk_Protocol k = UDP \<and> pk_Port k \<in> {gamePort server, steamPortOf server}))"

lemma desiredNetworkPolicySpec_passes: "passes_server_traffic server (desiredNetworkPolicySpec server)"
proof -
  have proto: "UDP = x \<longleftrightarrow> x = UDP" "TCP = x \<longleftrightarrow> x = TCP" "x = TCP \<longleftrightarrow> x \<noteq> UDP" for x
    by (cases x; simp)+
  show ?thesis
    unfolding passes_server_traffic_def ingress_allowed_def egress_allowed_def desiredNetworkPolicySpec_def Let_def
      gamePort_def [symmetric] steamPortOf_def [symmetric] metricsPortOf_def [symmetric]
    by (auto simp: port_matches_def block_matches_def cidr_all cidr_link_local proto)
qed


section \<open>What the calls leave in the store\<close>

text \<open>
  The content of each object, spelled out. \<open>good old x\<close> says that \<open>x\<close> is what should be written when
  \<open>old\<close> is stored: the objects that are only created (claim, service account, role binding) have no
  \<open>old\<close>; of the others an update replaces the managed fields and keeps the rest.
\<close>

definition pvc_good :: "('w, 'q) platform \<Rightarrow> 'q EnshroudedServer \<Rightarrow> 'q kobj option \<Rightarrow> 'q kobj \<Rightarrow> bool" where
  "pvc_good p server old x \<longleftrightarrow> old = None \<and>
     (\<exists>y. x = OPersistentVolumeClaim y \<and> om_OwnerReferences (pvc_Meta y) = [] \<and>
        pvc_AccessModes y = [''ReadWriteOnce''] \<and> pvc_StorageClassName y = StorageClassName (Storage (Spec server)) \<and>
        (if q_IsZero p (Size (Storage (Spec server))) then q_Parse p ''10Gi'' = Some (pvc_Storage y)
         else pvc_Storage y = Size (Storage (Spec server))))"

definition service_good :: "'q EnshroudedServer \<Rightarrow> 'q kobj option \<Rightarrow> 'q kobj \<Rightarrow> bool" where
  "service_good server old x \<longleftrightarrow>
     (\<exists>y. x = OService y \<and> svc_Type y = ''LoadBalancer'' \<and> svc_Selector y = labelsForServer (sname server) \<and>
        svc_Ports y = [\<lparr>sp_Name = ''query'', sp_Port = gamePort server, sp_Protocol = UDP\<rparr>,
                       \<lparr>sp_Name = ''steam'', sp_Port = steamPortOf server, sp_Protocol = UDP\<rparr>] \<and>
        (case old of
           Some (OService z) \<Rightarrow> svc_Meta y = svc_Meta z \<and> svc_other y = svc_other z
         | _ \<Rightarrow> owned_by server (svc_Meta y)))"

definition netpol_good :: "'q EnshroudedServer \<Rightarrow> 'q kobj option \<Rightarrow> 'q kobj \<Rightarrow> bool" where
  "netpol_good server old x \<longleftrightarrow>
     (\<exists>y. x = ONetworkPolicy y \<and> passes_server_traffic server (np_Spec y) \<and>
        (case old of Some z \<Rightarrow> np_Meta y = meta_of z | None \<Rightarrow> owned_by server (np_Meta y)))"

text \<open>
  The limit of the PodDisruptionBudget: 0 only if updates are deferred while playing and players are
  connected, 1 only if they are not or there are maintenance windows.
\<close>

definition limit_fits :: "'q EnshroudedServer \<Rightarrow> string \<Rightarrow> bool" where
  "limit_fits server l \<longleftrightarrow>
    (let deferring = DeferWhilePlaying (UpdatePolicy (Spec server)) \<and> 0 <s ActivePlayers (Status server) in
     l = ''0'' \<and> deferring \<or>
     l = ''1'' \<and> \<not> (deferring \<and> MaintenanceWindows (UpdatePolicy (Spec server)) = []))"

definition pdb_good :: "'q EnshroudedServer \<Rightarrow> 'q kobj option \<Rightarrow> 'q kobj \<Rightarrow> bool" where
  "pdb_good server old x \<longleftrightarrow>
     (\<exists>y m. x = OPodDisruptionBudget y \<and> pdb_MaxUnavailable y = Some m \<and> limit_fits server (intstr_String m) \<and>
        (case old of
           Some (OPodDisruptionBudget z) \<Rightarrow> y = z\<lparr>pdb_MaxUnavailable := Some m\<rparr>
         | _ \<Rightarrow> owned_by server (pdb_Meta y) \<and> pdb_Selector y = labelsForServer (sname server)))"

definition pdb_keep :: "'q EnshroudedServer \<Rightarrow> 'q kobj \<Rightarrow> bool" where
  "pdb_keep server x \<longleftrightarrow>
     (\<exists>y m. x = OPodDisruptionBudget y \<and> pdb_MaxUnavailable y = Some m \<and> limit_fits server (intstr_String m))"

definition serviceaccount_good :: "'q EnshroudedServer \<Rightarrow> 'q kobj option \<Rightarrow> 'q kobj \<Rightarrow> bool" where
  "serviceaccount_good server old x \<longleftrightarrow> old = None \<and> (\<exists>y. x = OServiceAccount y \<and> owned_by server (sa_Meta y))"

definition role_good :: "'q EnshroudedServer \<Rightarrow> 'q kobj option \<Rightarrow> 'q kobj \<Rightarrow> bool" where
  "role_good server old x \<longleftrightarrow>
     (\<exists>y. x = ORole y \<and>
        role_Rules y = [
          \<lparr>rule_APIGroups = [''enshrouded.enshrouded.io''], rule_Resources = [''enshroudedservers''],
            rule_Verbs = [''get'']\<rparr>,
          \<lparr>rule_APIGroups = [''enshrouded.enshrouded.io''], rule_Resources = [''enshroudedservers/status''],
            rule_Verbs = [''get'', ''update'', ''patch'']\<rparr>] \<and>
        (case old of Some z \<Rightarrow> role_Meta y = meta_of z | None \<Rightarrow> owned_by server (role_Meta y)))"

definition rolebinding_good :: "'q EnshroudedServer \<Rightarrow> 'q kobj option \<Rightarrow> 'q kobj \<Rightarrow> bool" where
  "rolebinding_good server old x \<longleftrightarrow> old = None \<and>
     (\<exists>y. x = ORoleBinding y \<and> owned_by server (rb_Meta y) \<and>
        rb_SubjectKind y = ''ServiceAccount'' \<and> rb_SubjectName y = sname server @ ''-metrics'' \<and>
        rb_SubjectNamespace y = snamespace server \<and> rb_RoleRefAPIGroup y = ''rbac.authorization.k8s.io'' \<and>
        rb_RoleRefKind y = ''Role'' \<and> rb_RoleRefName y = sname server @ ''-metrics'')"

lemma desiredService_ports:
  "svc_Ports (desiredService server) = [\<lparr>sp_Name = ''query'', sp_Port = gamePort server, sp_Protocol = UDP\<rparr>,
     \<lparr>sp_Name = ''steam'', sp_Port = steamPortOf server, sp_Protocol = UDP\<rparr>]"
  by (simp add: desiredService_def Let_def gamePort_def steamPortOf_def)

lemmas child_good_defs = pvc_good_def service_good_def netpol_good_def pdb_good_def pdb_keep_def
  serviceaccount_good_def role_good_def rolebinding_good_def

lemma desired_meta [simp]:
  "svc_Meta (desiredService server) = new_meta (sname server) (snamespace server) (labelsForServer (sname server))"
  "svc_Selector (desiredService server) = labelsForServer (sname server)"
  "svc_Type (desiredService server) = ''LoadBalancer''"
  "svc_other (desiredService server) = []"
  "pvc_Meta (desiredPVC server sz) = new_meta (pvcName server) (snamespace server) (labelsForServer (sname server))"
  "pdb_Meta (desiredPDB server m) = new_meta (sname server) (snamespace server) (labelsForServer (sname server))"
  "pdb_MaxUnavailable (desiredPDB server m) = Some m"
  "pdb_Selector (desiredPDB server m) = labelsForServer (sname server)"
  by (simp_all add: desiredService_def Let_def desiredPVC_def desiredPDB_def)

lemma show_int_01: "show_int 0 = ''0''" "show_int 1 = ''1''"
  by (simp_all add: show_int_def show_nat.simps char_of_def bit_0)

context kube_api
begin

lemma runs_inMaintenanceNow [runs_intros]:
  "(\<And>b. (b \<Longrightarrow> windows \<noteq> []) \<Longrightarrow> Q b S) \<Longrightarrow> runs store S (inMaintenanceNow p windows) Q"
  unfolding inMaintenanceNow_def by (intro runs_intros) auto

lemma runs_playersProtected [runs_intros]:
  "(\<And>b. limit_fits server (if b then ''0'' else ''1'') \<Longrightarrow> Q b S) \<Longrightarrow> runs store S (playersProtected p server) Q"
  unfolding playersProtected_def limit_fits_def by (intro runs_intros) auto

lemmas child_intros = ensures_err ensures_put ensures_keep
lemmas child_simps = as_Inr key_of_def set_owner_fields child_good_defs MustParse_def
  desiredService_ports desiredNetworkPolicySpec_passes

lemma runs_reconcilePVC:
  "runs store S (reconcilePVC p server)
     (ensures accept (KPersistentVolumeClaim, snamespace server, pvcName server)
        (\<lambda>_. True) (pvc_good p server) S)"
  unfolding reconcilePVC_def
  by (intro runs_intros)
    (auto intro!: child_intros dest: as_notfound simp: child_simps desiredPVC_def new_meta_def split: if_splits option.splits)

lemma runs_reconcileService:
  "runs store S (reconcileService p server)
     (ensures accept (KService, snamespace server, sname server) (\<lambda>_. False) (service_good server) S)"
  unfolding reconcileService_def
  by (intro runs_intros) (auto intro!: child_intros dest: as_notfound simp: child_simps)

lemma runs_reconcileNetworkPolicy:
  "runs store S (reconcileNetworkPolicy p server)
     (ensures accept (KNetworkPolicy, snamespace server, sname server @ ''-netpol'')
        (\<lambda>_. False) (netpol_good server) S)"
  unfolding reconcileNetworkPolicy_def
  by (intro runs_intros) (auto intro!: child_intros dest: as_notfound simp: child_simps)

lemma runs_reconcilePDB:
  "runs store S (reconcilePDB p server)
     (ensures accept (KPodDisruptionBudget, snamespace server, sname server) (pdb_keep server) (pdb_good server) S)"
  unfolding reconcilePDB_def
  by (intro runs_intros)
    (auto intro!: child_intros dest: as_notfound simp: child_simps desiredPDB_def show_int_01
      split: if_splits option.splits)

lemma runs_reconcileSidecarServiceAccount:
  "runs store S (reconcileSidecarServiceAccount p server)
     (ensures accept (KServiceAccount, snamespace server, sidecarServiceAccountName (sname server))
        (\<lambda>_. True) (serviceaccount_good server) S)"
  unfolding reconcileSidecarServiceAccount_def
  by (intro runs_intros)
    (auto intro!: child_intros dest: as_notfound simp: child_simps split: if_splits option.splits)

lemma runs_reconcileSidecarRole:
  "runs store S (reconcileSidecarRole p server)
     (ensures accept (KRole, snamespace server, sidecarServiceAccountName (sname server))
        (\<lambda>_. False) (role_good server) S)"
  unfolding reconcileSidecarRole_def
  by (intro runs_intros)
    (auto intro!: child_intros dest: as_notfound simp: child_simps sidecarRules_def apiGroup_def split: if_splits option.splits)

lemma runs_reconcileSidecarRoleBinding:
  "runs store S (reconcileSidecarRoleBinding p server)
     (ensures accept (KRoleBinding, snamespace server, sidecarServiceAccountName (sname server))
        (\<lambda>_. True) (rolebinding_good server) S)"
  unfolding reconcileSidecarRoleBinding_def
  by (intro runs_intros)
    (auto intro!: child_intros dest: as_notfound simp: child_simps desiredRoleBinding_def sidecarServiceAccountName_def Let_def
      split: if_splits option.splits)

end

section \<open>What the calls write\<close>

text \<open>Every write goes to one object; the savegame claim is only ever created.\<close>

definition creates_only :: "'q event \<Rightarrow> bool" where
  "creates_only e \<longleftrightarrow> (\<forall>x. written e = Some x \<longrightarrow> (\<exists>r. e = EvCreate x r))"

definition sidecar_keys :: "'q EnshroudedServer \<Rightarrow> okey set" where
  "sidecar_keys server = {KServiceAccount, KRole, KRoleBinding} \<times> {snamespace server} \<times>
     {sidecarServiceAccountName (sname server)}"

context kube_reads
begin

lemmas child_emits_simps = within_def creates_only_def key_of_def set_owner_fields as_Inr

lemma emits_inMaintenanceNow [emits_intros]:
  "(\<And>t. \<phi> (EvNow t)) \<Longrightarrow> emits \<phi> (inMaintenanceNow p windows)"
  unfolding inMaintenanceNow_def by (intro emits_intros)

lemma emits_playersProtected [emits_intros]:
  "(\<And>t. \<phi> (EvNow t)) \<Longrightarrow> emits \<phi> (playersProtected p server)"
  unfolding playersProtected_def by (intro emits_intros)

lemma emits_reconcilePVC:
  "emits (\<lambda>e. within {(KPersistentVolumeClaim, snamespace server, pvcName server)} e \<and> creates_only e)
     (reconcilePVC p server)"
  unfolding reconcilePVC_def by (intro emits_intros) (auto simp: child_emits_simps)

lemma emits_reconcileService:
  "emits (within {(KService, snamespace server, sname server)}) (reconcileService p server)"
  unfolding reconcileService_def by (intro emits_intros) (auto simp: child_emits_simps)

lemma emits_reconcileNetworkPolicy:
  "emits (within {(KNetworkPolicy, snamespace server, sname server @ ''-netpol'')})
     (reconcileNetworkPolicy p server)"
  unfolding reconcileNetworkPolicy_def by (intro emits_intros) (auto simp: child_emits_simps)

lemma emits_reconcilePDB:
  "emits (within {(KPodDisruptionBudget, snamespace server, sname server)}) (reconcilePDB p server)"
  unfolding reconcilePDB_def by (intro emits_intros) (auto simp: child_emits_simps)

lemma emits_reconcileMetricsSidecarRBAC:
  "emits (\<lambda>e. within (sidecar_keys server) e \<and> (\<forall>x r. e \<noteq> EvDelete x r)) (reconcileMetricsSidecarRBAC p server)"
  unfolding reconcileMetricsSidecarRBAC_def reconcileSidecarServiceAccount_def reconcileSidecarRole_def
    reconcileSidecarRoleBinding_def
  by (intro emits_intros) (auto simp: child_emits_simps sidecar_keys_def desiredRoleBinding_def Let_def)

end

section \<open>When evictions are blocked\<close>

definition players_protected :: "('w, 'q) platform \<Rightarrow> 'q EnshroudedServer \<Rightarrow> instant \<Rightarrow> bool" where
  "players_protected p server now \<longleftrightarrow>
     DeferWhilePlaying (UpdatePolicy (Spec server)) \<and> 0 <s ActivePlayers (Status server) \<and>
     \<not> list_ex (inWindow (tm_LoadLocation p) now) (MaintenanceWindows (UpdatePolicy (Spec server)))"

lemma run_inMaintenanceNow:
  "\<exists>s'. run_state (inMaintenanceNow p windows) s =
      (list_ex (inWindow (tm_LoadLocation p) (fst (tm_Now p (env s)))) windows, s') \<and>
    (\<exists>es. trace s' = trace s @ es \<and> list_all (\<lambda>e. written e = None) es)"
  by (auto simp: inMaintenanceNow_def time_Now_def isInMaintenanceWindow_iff list_ex_iff split: prod.splits)

lemma run_playersProtected:
  "\<exists>s'. run_state (playersProtected p server) s = (players_protected p server (fst (tm_Now p (env s))), s') \<and>
    (\<exists>es. trace s' = trace s @ es \<and> list_all (\<lambda>e. written e = None) es)"
  using run_inMaintenanceNow [of p "MaintenanceWindows (UpdatePolicy (Spec server))" s]
  by (auto simp: playersProtected_def players_protected_def)

text \<open>An event that writes nothing but a PodDisruptionBudget with this limit.\<close>

definition pdb_budget :: "IntOrString \<Rightarrow> 'q event \<Rightarrow> bool" where
  "pdb_budget m ev \<longleftrightarrow>
     (\<forall>x. written ev = Some x \<longrightarrow> (\<exists>y. x = OPodDisruptionBudget y \<and> pdb_MaxUnavailable y = Some m))"

lemma pdb_budget_simps [simp]:
  "written ev = None \<Longrightarrow> pdb_budget m ev"
  "pdb_budget m (EvCreate (OPodDisruptionBudget y) r) \<longleftrightarrow> pdb_MaxUnavailable y = Some m"
  "pdb_budget m (EvUpdate (OPodDisruptionBudget y) u) \<longleftrightarrow> pdb_MaxUnavailable y = Some m"
  by (simp_all add: pdb_budget_def)

text \<open>
  Every PodDisruptionBudget the operator writes forbids evictions (\<^verbatim>\<open>maxUnavailable: 0\<close>) exactly
  when updates are deferred while playing, players are connected, and the clock, as the operator
  reads it, is in none of the maintenance windows; otherwise it allows one. The write is skipped
  only when the object that was read has that value already.
\<close>

theorem reconcilePDB_budget:
  assumes "run_state (reconcilePDB p server) s = (e, s')"
  shows "\<exists>es. trace s' = trace s @ es \<and>
    list_all (pdb_budget (FromInt (if players_protected p server (fst (tm_Now p (env s))) then 0 else 1))) es \<and>
    (e = None \<longrightarrow> list_all (\<lambda>ev. written ev = None) es \<longrightarrow>
      (\<exists>x m. EvGet KPodDisruptionBudget (snamespace server) (sname server) (Inr (OPodDisruptionBudget x)) \<in> set es \<and>
         pdb_MaxUnavailable x = Some m \<and>
         intstr_String m = (if players_protected p server (fst (tm_Now p (env s))) then ''0'' else ''1'')))"
proof -
  define b where "b = players_protected p server (fst (tm_Now p (env s)))"
  obtain s1 es1 where s1: "run_state (playersProtected p server) s = (b, s1)"
    "trace s1 = trace s @ es1" "list_all (\<lambda>e. written e = None) es1"
    using run_playersProtected [of p server s] b_def by auto
  have q: "list_all (pdb_budget m) es1" for m
    using s1(3) by (auto simp: list_all_iff)
  from assms s1 show ?thesis
    unfolding b_def [symmetric]
    by (simp add: reconcilePDB_def client_defs Let_def,
        auto simp: client_defs as_Inr q show_int_01 split: sum.splits prod.splits option.splits if_splits,
        blast+)
qed

definition demo_busy :: "int EnshroudedServer" where
  "demo_busy = demo\<lparr>Status := (Status demo)\<lparr>ActivePlayers := 3\<rparr>\<rparr>"

theorem reconcilePDB_budget_witness:
  "\<exists>s'. run_state (reconcilePDB mem_platform demo_busy) (world_init []) = (None, s') \<and>
     players_protected mem_platform demo_busy 0 \<and>
     list_all (pdb_budget (FromInt 0)) (trace s')"
proof -
  have prot: "players_protected mem_platform demo_busy 0"
    by (simp add: players_protected_def word_sless_alt demo_busy_def demo_def demo_spec_def)
  have "fst (run_state (reconcilePDB mem_platform demo_busy) (world_init [])) = None"
    using prot
    by (simp add: reconcilePDB_def demo_busy_def playersProtected_def inMaintenanceNow_def demo_def demo_spec_def
        client_defs mem_Get_def world_init_def mem_init_def mem_store_def notFound_def IsNotFound_def Let_def
        mem_SetControllerReference_def mem_Create_def key_of_def)
  then obtain s' where run: "run_state (reconcilePDB mem_platform demo_busy) (world_init []) = (None, s')"
    by (metis prod.collapse)
  from reconcilePDB_budget [OF run] prot run show ?thesis
    by (auto simp: world_init_def mem_init_def)
qed

end
