(* ===== verification/Vertical_Scaling.thy ===== *)
theory Vertical_Scaling
  imports Child_Resources
begin

text \<open>
  Vertical scaling (\<^verbatim>\<open>enshroudedserver_vpa.go\<close>): the VerticalPodAutoscaler object of a server and the
  recommendation that the operator applies to the StatefulSet itself in the mode \<^verbatim>\<open>WhenIdle\<close>.

  Shown: \<^verbatim>\<open>contains\<close> is the substring test; the operator applies a recommendation only in that mode,
  changes nothing of the StatefulSet but the CPU and memory requests of the game container, and
  never lowers the memory request while players are connected.
\<close>

section \<open>The code\<close>

subsection \<open>Error texts\<close>

text \<open>The loop of \<^verbatim>\<open>contains\<close>: the position \<open>i\<close> runs up to \<open>len(s) - len(substr)\<close>.\<close>

function contains_loop :: "string \<Rightarrow> string \<Rightarrow> nat \<Rightarrow> bool" where
  "contains_loop s substr i =
     (if i \<le> length s - length substr then
        if take (length substr) (drop i s) = substr then True else contains_loop s substr (i + 1)
      else False)"
  by pat_completeness auto
termination
  by (relation "measure (\<lambda>(s, substr, i). Suc (length s - length substr) - i)") auto

declare contains_loop.simps [simp del]

definition contains :: "string \<Rightarrow> string \<Rightarrow> bool" where
  "contains s substr \<longleftrightarrow> length substr \<le> length s \<and>
     (s = substr \<or> length substr = 0 \<or> contains_loop s substr 0)"

definition isNoCRDError :: "gerror \<Rightarrow> bool" where
  "isNoCRDError err \<longleftrightarrow>
     (let msg = errText err in
      contains msg ''no kind is registered'' \<or> contains msg ''no matches for kind'' \<or>
      contains msg ''the server could not find the requested resource'')"

subsection \<open>The autoscaler object\<close>

definition resourceListToMap :: "('w, 'q) platform \<Rightarrow> 'q ResourceList \<Rightarrow> (string \<rightharpoonup> string)" where
  "resourceListToMap p rl = (\<lambda>k. map_option (q_String p) (rl k))"

definition labelsForServerMap :: "string \<Rightarrow> labels" where
  "labelsForServerMap name = labelsForServer name"

definition vpaMode :: "'q EnshroudedServer \<Rightarrow> string" where
  "vpaMode server =
     (if vsc_UpdateMode (VerticalScaling (Spec server)) = VPAUpdateModeInPlace then ''InPlace'' else ''Off'')"

definition containerPolicyFor :: "('w, 'q) platform \<Rightarrow> 'q EnshroudedServer \<Rightarrow> ContainerPolicy" where
  "containerPolicyFor p server =
    (let vs = VerticalScaling (Spec server) in
     \<lparr>cpol_ContainerName = ''enshrouded-server'',
      cpol_MinAllowed = (if vsc_MinAllowed vs \<noteq> Map.empty then Some (resourceListToMap p (vsc_MinAllowed vs)) else None),
      cpol_MaxAllowed = (if vsc_MaxAllowed vs \<noteq> Map.empty then Some (resourceListToMap p (vsc_MaxAllowed vs)) else None)\<rparr>)"

definition desiredVPA :: "('w, 'q) platform \<Rightarrow> 'q EnshroudedServer \<Rightarrow> VerticalPodAutoscaler" where
  "desiredVPA p server = \<lparr>
     vpa_Meta = new_meta (sname server) (snamespace server) (labelsForServerMap (sname server)),
     vpa_TargetKind = ''StatefulSet'',
     vpa_TargetName = sname server,
     vpa_UpdateMode = Some (vpaMode server),
     vpa_ContainerPolicies = [containerPolicyFor p server],
     vpa_Recommendations = None,
     vpa_other = []\<rparr>"

text \<open>A nested string that is missing reads as the empty string.\<close>

definition nestedString :: "string option \<Rightarrow> string" where
  "nestedString x = (case x of Some s \<Rightarrow> s | None \<Rightarrow> '''')"

definition reconcileVPA :: "('w, 'q) platform \<Rightarrow> 'q EnshroudedServer \<Rightarrow> ('w, 'q, gerror option) M" where
  "reconcileVPA p server =
    (if \<not> vsc_Enabled (VerticalScaling (Spec server)) then do {
       g \<leftarrow> r_Get p KVerticalPodAutoscaler (snamespace server) (sname server);
       (case as_VerticalPodAutoscaler g of
          Inr existing \<Rightarrow> do {
            d \<leftarrow> r_Delete p (OVerticalPodAutoscaler existing);
            State_Monad.return (case d of
              Some err \<Rightarrow> if \<not> IsNotFound err
                then Some (wrapErr (''deleting VerticalPodAutoscaler '' @ sname server) err) else None
            | None \<Rightarrow> None)
          }
        | Inl err \<Rightarrow> State_Monad.return None)
     }
     else do {
       probe \<leftarrow> r_Get p KVerticalPodAutoscaler (snamespace server) ''__crd-probe__'';
       (if (case as_VerticalPodAutoscaler probe of Inl err \<Rightarrow> \<not> IsNotFound err \<and> isNoCRDError err | Inr _ \<Rightarrow> False)
        then State_Monad.return None
        else
          let vpaUpdateMode = vpaMode server; containerPolicy = containerPolicyFor p server in
          (case cu_SetControllerReference p server (vpa_Meta (desiredVPA p server)) of
             Inl err \<Rightarrow> State_Monad.return
               (Some (wrapErr (''setting owner on VerticalPodAutoscaler '' @ sname server) err))
           | Inr meta \<Rightarrow> do {
               g \<leftarrow> r_Get p KVerticalPodAutoscaler (snamespace server) (sname server);
               (case as_VerticalPodAutoscaler g of
                  Inl err \<Rightarrow>
                    if \<not> IsNotFound err
                    then State_Monad.return
                      (Some (wrapErr (''getting VerticalPodAutoscaler '' @ sname server) err))
                    else do {
                      c \<leftarrow> r_Create p (OVerticalPodAutoscaler ((desiredVPA p server)\<lparr>vpa_Meta := meta\<rparr>));
                      State_Monad.return (case c of
                        Some e \<Rightarrow> if IsAlreadyExists e then None
                          else Some (wrapErr (''creating VerticalPodAutoscaler '' @ sname server) e)
                      | None \<Rightarrow> None)
                    }
                | Inr existing \<Rightarrow>
                    if nestedString (vpa_UpdateMode existing) \<noteq> vpaUpdateMode then do {
                      u \<leftarrow> r_Update p (OVerticalPodAutoscaler (existing\<lparr>vpa_UpdateMode := Some vpaUpdateMode,
                            vpa_ContainerPolicies := [containerPolicy]\<rparr>));
                      State_Monad.return
                        (map_option (wrapErr (''updating VerticalPodAutoscaler '' @ sname server)) (err_of u))
                    }
                    else State_Monad.return None)
             }))
     })"

subsection \<open>Applying a recommendation\<close>

text \<open>The target of the first recommendation for the game container.\<close>

fun targetOf :: "Recommendation list \<Rightarrow> string \<times> string" where
  "targetOf [] = ('''', '''')"
| "targetOf (RecOther # recs) = targetOf recs"
| "targetOf (RecMap name cpu memory # recs) =
     (if nestedString name \<noteq> ''enshrouded-server'' then targetOf recs
      else (nestedString cpu, nestedString memory))"

fun containerIdx :: "'q Container list \<Rightarrow> nat option" where
  "containerIdx [] = None"
| "containerIdx (c # cs) = (if ct_Name c = ''enshrouded-server'' then Some 0 else map_option Suc (containerIdx cs))"

text \<open>The CPU half: \<open>(updated, changed)\<close>, or the panic of \<^verbatim>\<open>MustParse\<close>.\<close>

definition applyCPU ::
  "('w, 'q) platform \<Rightarrow> string \<Rightarrow> 'q ResourceList \<Rightarrow> gerror + ('q ResourceList \<times> bool)" where
  "applyCPU p targetCPU current =
    (if targetCPU \<noteq> '''' then
       (case MustParse p targetCPU of
          Inl panic \<Rightarrow> Inl panic
        | Inr newCPU \<Rightarrow>
           if (case current ''cpu'' of None \<Rightarrow> True | Some curCPU \<Rightarrow> \<not> q_Equal p curCPU newCPU)
           then Inr (current(''cpu'' \<mapsto> newCPU), True)
           else Inr (current, False))
     else Inr (current, False))"

definition applyMemory ::
  "('w, 'q) platform \<Rightarrow> int32 \<Rightarrow> string \<Rightarrow> 'q ResourceList \<Rightarrow> 'q ResourceList \<times> bool \<Rightarrow>
   gerror + ('q ResourceList \<times> bool)" where
  "applyMemory p activePlayers targetMemory current = (\<lambda>(updated, changed).
    (if targetMemory \<noteq> '''' then
       (case MustParse p targetMemory of
          Inl panic \<Rightarrow> Inl panic
        | Inr newMem \<Rightarrow>
           let isScaleDown = (case current ''memory'' of Some curMem \<Rightarrow> q_Cmp p newMem curMem < 0 | None \<Rightarrow> False) in
           if isScaleDown \<and> 0 <s activePlayers then Inr (updated, changed)
           else if (case current ''memory'' of None \<Rightarrow> True | Some curMem \<Rightarrow> \<not> q_Equal p curMem newMem)
           then Inr (updated(''memory'' \<mapsto> newMem), True)
           else Inr (updated, changed))
     else Inr (updated, changed)))"

definition withRequests :: "nat \<Rightarrow> 'q ResourceList \<Rightarrow> 'q StatefulSet \<Rightarrow> 'q StatefulSet" where
  "withRequests i updated sts =
    (let t = sts_Template sts; c = pt_Containers t ! i in
     sts\<lparr>sts_Template := t\<lparr>pt_Containers := (pt_Containers t)[i := c\<lparr>ct_Resources :=
       (ct_Resources c)\<lparr>Requests := updated\<rparr>\<rparr>]\<rparr>\<rparr>)"

definition applyVPARecommendation ::
  "('w, 'q) platform \<Rightarrow> 'q EnshroudedServer \<Rightarrow> ('w, 'q, gerror option) M" where
  "applyVPARecommendation p server =
    (if \<not> vsc_Enabled (VerticalScaling (Spec server)) \<or>
        vsc_UpdateMode (VerticalScaling (Spec server)) \<noteq> VPAUpdateModeWhenIdle
     then State_Monad.return None
     else do {
       g \<leftarrow> r_Get p KVerticalPodAutoscaler (snamespace server) (sname server);
       (case as_VerticalPodAutoscaler g of
          Inl err \<Rightarrow> State_Monad.return
            (if IsNotFound err \<or> isNoCRDError err then None
             else Some (wrapErr (''getting VerticalPodAutoscaler '' @ sname server @ '' for recommendation'') err))
        | Inr vpa \<Rightarrow>
          (let (targetCPU, targetMemory) =
             (case vpa_Recommendations vpa of None \<Rightarrow> ('''', '''') | Some recs \<Rightarrow> targetOf recs) in
           if targetCPU = '''' \<and> targetMemory = '''' then State_Monad.return None
           else do {
             h \<leftarrow> r_Get p KStatefulSet (snamespace server) (sname server);
             (case as_StatefulSet h of
                Inl err \<Rightarrow> State_Monad.return
                  (Some (wrapErr (''getting StatefulSet '' @ sname server @ '' for VPA recommendation apply'') err))
              | Inr sts \<Rightarrow>
                (case containerIdx (pt_Containers (sts_Template sts)) of
                   None \<Rightarrow> State_Monad.return None
                 | Some i \<Rightarrow>
                   (let current = Requests (ct_Resources (pt_Containers (sts_Template sts) ! i)) in
                    case applyCPU p targetCPU current of
                      Inl panic \<Rightarrow> State_Monad.return (Some panic)
                    | Inr st1 \<Rightarrow>
                      (case applyMemory p (ActivePlayers (Status server)) targetMemory current st1 of
                         Inl panic \<Rightarrow> State_Monad.return (Some panic)
                       | Inr (updated, changed) \<Rightarrow>
                          if \<not> changed then State_Monad.return None
                          else do {
                            u \<leftarrow> r_Update p (OStatefulSet (withRequests i updated sts));
                            State_Monad.return (map_option
                              (wrapErr (''applying VPA recommendation to StatefulSet '' @ sname server)) (err_of u))
                          }))))
           }))
     })"

section \<open>The substring test\<close>

lemma contains_loop_iff:
  "contains_loop s t i \<longleftrightarrow> (\<exists>j. i \<le> j \<and> j \<le> length s - length t \<and> take (length t) (drop j s) = t)"
proof (induction s t i rule: contains_loop.induct)
  case (1 s t i)
  show ?case
  proof (cases "i \<le> length s - length t \<and> take (length t) (drop i s) \<noteq> t")
    case True
    with 1 have "contains_loop s t i \<longleftrightarrow>
        (\<exists>j. i + 1 \<le> j \<and> j \<le> length s - length t \<and> take (length t) (drop j s) = t)"
      by (simp add: contains_loop.simps [of s t i])
    also have "\<dots> \<longleftrightarrow> (\<exists>j. i \<le> j \<and> j \<le> length s - length t \<and> take (length t) (drop j s) = t)"
      using True by (metis Suc_eq_plus1 not_less_eq_eq le_antisym le_SucI)
    finally show ?thesis .
  next
    case False
    then show ?thesis by (auto simp: contains_loop.simps [of s t i])
  qed
qed

lemma take_drop_sublist: "take (length t) (drop j s) = t \<Longrightarrow> s = take j s @ t @ drop (j + length t) s"
  by (metis append_take_drop_id drop_drop add.commute)

text \<open>
  The hand-written substring search finds a string in another exactly when it occurs in it, at
  whatever position, the empty string included.
\<close>

theorem contains_iff_substring: "contains s t \<longleftrightarrow> (\<exists>a b. s = a @ t @ b)"
proof
  assume "contains s t"
  then consider "s = t" | "t = []" | "contains_loop s t 0" by (auto simp: contains_def)
  then show "\<exists>a b. s = a @ t @ b"
  proof cases
    case 1
    then show ?thesis by (intro exI [of _ "[]"]) simp
  next
    case 3
    then show ?thesis using take_drop_sublist by (auto simp: contains_loop_iff) blast
  qed auto
next
  assume "\<exists>a b. s = a @ t @ b"
  then obtain a b where s: "s = a @ t @ b" by blast
  then have "contains_loop s t 0" unfolding contains_loop_iff by (intro exI [of _ "length a"]) simp
  with s show "contains s t" by (simp add: contains_def)
qed

section \<open>Applied recommendations\<close>

lemma containerIdx_Some:
  "containerIdx cs = Some i \<Longrightarrow> i < length cs \<and> ct_Name (cs ! i) = ''enshrouded-server''"
  by (induction cs arbitrary: i) (auto split: if_splits)

text \<open>What a recommendation may make of the requests of a container.\<close>

definition requests_ok ::
  "('w, 'q) platform \<Rightarrow> int32 \<Rightarrow> 'q ResourceList \<Rightarrow> 'q ResourceList \<Rightarrow> bool" where
  "requests_ok p activePlayers current updated \<longleftrightarrow>
     (\<forall>k. k \<notin> {''cpu'', ''memory''} \<longrightarrow> updated k = current k) \<and>
     (\<forall>cur. 0 <s activePlayers \<and> current ''memory'' = Some cur \<longrightarrow>
        (\<exists>new. updated ''memory'' = Some new \<and> (new = cur \<or> 0 \<le> q_Cmp p new cur)))"

lemma applied_requests_ok:
  assumes "applyCPU p cpu current = Inr st1" "applyMemory p players mem current st1 = Inr (updated, changed)"
  shows "requests_ok p players current updated"
proof -
  obtain u1 c1 where st1: "st1 = (u1, c1)" by (cases st1)
  from assms(1) st1 have u1: "u1 = current \<or> (\<exists>q. u1 = current(''cpu'' \<mapsto> q))"
    by (auto simp: applyCPU_def split: if_splits sum.splits)
  from assms(2) st1 have "updated = u1 \<or> (\<exists>new. updated = u1(''memory'' \<mapsto> new) \<and>
      (\<forall>cur. 0 <s players \<and> current ''memory'' = Some cur \<longrightarrow> 0 \<le> q_Cmp p new cur))"
    by (auto simp: applyMemory_def Let_def split: if_splits sum.splits option.splits)
  with u1 show ?thesis by (auto simp: requests_ok_def)
qed

text \<open>
  Two StatefulSets that differ in nothing but the requests of container \<open>i\<close>: every other field of the
  StatefulSet, of its pod template, of the container and of its resources is the same, and so is
  every other container.
\<close>

definition only_requests_differ :: "nat \<Rightarrow> 'q StatefulSet \<Rightarrow> 'q StatefulSet \<Rightarrow> bool" where
  "only_requests_differ i sts y \<longleftrightarrow>
    (let old = pt_Containers (sts_Template sts); new = pt_Containers (sts_Template y) in
     y\<lparr>sts_Template := sts_Template sts\<rparr> = sts \<and>
     (sts_Template y)\<lparr>pt_Containers := old\<rparr> = sts_Template sts \<and>
     length new = length old \<and> i < length old \<and>
     (\<forall>j < length old. j \<noteq> i \<longrightarrow> new ! j = old ! j) \<and>
     (new ! i)\<lparr>ct_Resources := ct_Resources (old ! i)\<rparr> = old ! i \<and>
     Limits (ct_Resources (new ! i)) = Limits (ct_Resources (old ! i)))"

definition recommendation_update :: "('w, 'q) platform \<Rightarrow> 'q EnshroudedServer \<Rightarrow> 'q StatefulSet \<Rightarrow> 'q kobj \<Rightarrow> bool" where
  "recommendation_update p server sts x \<longleftrightarrow>
     (\<exists>y i. x = OStatefulSet y \<and> only_requests_differ i sts y \<and>
        ct_Name (pt_Containers (sts_Template sts) ! i) = ''enshrouded-server'' \<and>
        requests_ok p (ActivePlayers (Status server))
          (Requests (ct_Resources (pt_Containers (sts_Template sts) ! i)))
          (Requests (ct_Resources (pt_Containers (sts_Template y) ! i))))"

lemma withRequests_only_requests:
  assumes "i < length (pt_Containers (sts_Template sts))"
  shows "only_requests_differ i sts (withRequests i updated sts)"
    "Requests (ct_Resources (pt_Containers (sts_Template (withRequests i updated sts)) ! i)) = updated"
  using assms by (simp_all add: only_requests_differ_def withRequests_def Let_def)

lemma recommendation_updateI:
  "containerIdx (pt_Containers (sts_Template sts)) = Some i \<Longrightarrow>
   applyCPU p cpu (Requests (ct_Resources (pt_Containers (sts_Template sts) ! i))) = Inr st1 \<Longrightarrow>
   applyMemory p (ActivePlayers (Status server)) mem
     (Requests (ct_Resources (pt_Containers (sts_Template sts) ! i))) st1 = Inr (updated, changed) \<Longrightarrow>
   recommendation_update p server sts (OStatefulSet (withRequests i updated sts))"
  unfolding recommendation_update_def
  using containerIdx_Some [of "pt_Containers (sts_Template sts)" i] applied_requests_ok [of p cpu _ st1]
    withRequests_only_requests [of i sts updated] by fastforce

text \<open>
  C13. Applying a recommendation writes nothing unless vertical scaling is on in the mode
  \<^verbatim>\<open>WhenIdle\<close>; what it writes is the StatefulSet it has just read with nothing changed but the CPU
  and memory requests of the container \<^verbatim>\<open>enshrouded-server\<close>, and while players are connected the
  memory request is never lowered.
\<close>

theorem vpa_apply_safe:
  assumes "run_state (applyVPARecommendation p server) s = (e, s')"
  shows "\<exists>es. trace s' = trace s @ es \<and>
    (\<forall>ev \<in> set es. \<forall>x. written ev = Some x \<longrightarrow>
      vsc_Enabled (VerticalScaling (Spec server)) \<and> vsc_UpdateMode (VerticalScaling (Spec server)) = ''WhenIdle'' \<and>
      (\<exists>sts r. ev = EvUpdate x r \<and> recommendation_update p server sts x \<and>
        EvGet KStatefulSet (snamespace server) (sname server) (Inr (OStatefulSet sts)) \<in> set es))"
  using assms
  by (auto simp: applyVPARecommendation_def client_defs api_consts as_Inr Let_def recommendation_updateI
      split: if_splits sum.splits prod.splits option.splits)

definition demo_scaled :: "int EnshroudedServer" where
  "demo_scaled = demo\<lparr>Spec := demo_spec\<lparr>VerticalScaling := (VerticalScaling demo_spec)\<lparr>vsc_Enabled := True,
     vsc_UpdateMode := ''WhenIdle''\<rparr>\<rparr>\<rparr>"

definition demo_vpa :: "int kobj" where
  "demo_vpa = OVerticalPodAutoscaler ((desiredVPA mem_platform demo_scaled)\<lparr>vpa_Recommendations :=
     Some [RecMap (Some ''enshrouded-server'') (Some ''4'') (Some ''8Gi'')]\<rparr>)"

theorem vpa_apply_safe_witness:
  "\<exists>e s'. run_state (applyVPARecommendation mem_platform demo_scaled)
       (world_init [demo_vpa, OStatefulSet (buildStatefulSet demo_scaled '''')]) = (e, s') \<and>
     (\<forall>ev \<in> set (trace s'). \<forall>x. written ev = Some x \<longrightarrow>
        (\<exists>sts. recommendation_update mem_platform demo_scaled sts x))"
proof -
  let ?w = "world_init [demo_vpa, OStatefulSet (buildStatefulSet demo_scaled '''')]"
  obtain e s' where run: "run_state (applyVPARecommendation mem_platform demo_scaled) ?w = (e, s')"
    by (metis prod.exhaust)
  from vpa_apply_safe [OF run] obtain es where "trace s' = trace ?w @ es"
    "\<forall>ev \<in> set es. \<forall>x. written ev = Some x \<longrightarrow> (\<exists>sts. recommendation_update mem_platform demo_scaled sts x)"
    by blast
  with run show ?thesis by (auto simp: world_init_def)
qed

section \<open>What vertical scaling writes\<close>

lemma withRequests_meta [simp]: "sts_Meta (withRequests i u sts) = sts_Meta sts"
  by (simp add: withRequests_def Let_def)

lemma desiredVPA_meta [simp]:
  "vpa_Meta (desiredVPA p server) = new_meta (sname server) (snamespace server) (labelsForServer (sname server))"
  by (simp add: desiredVPA_def labelsForServerMap_def)

context kube_reads
begin

lemma emits_reconcileVPA:
  "emits (within {(KVerticalPodAutoscaler, snamespace server, sname server)}) (reconcileVPA p server)"
  unfolding reconcileVPA_def
  by (intro emits_intros) (auto simp: child_emits_simps)

lemma emits_applyVPARecommendation:
  "emits (\<lambda>ev. within {(KStatefulSet, snamespace server, sname server)} ev \<and>
       (written ev \<noteq> None \<longrightarrow> vsc_Enabled (VerticalScaling (Spec server)) \<and> (\<exists>x r. ev = EvUpdate x r)))
     (applyVPARecommendation p server)"
  unfolding applyVPARecommendation_def
  by (intro emits_intros) (auto simp: child_emits_simps)

end

context kube_api
begin

lemma runs_reconcileVPA:
  "runs store S (reconcileVPA p server)
     (\<lambda>e S'. \<forall>k. k \<noteq> (KVerticalPodAutoscaler, snamespace server, sname server) \<longrightarrow> S' k = S k)"
  unfolding reconcileVPA_def
  by (intro runs_intros) (auto simp: child_simps)

lemma runs_applyVPARecommendation:
  "runs store S (applyVPARecommendation p server)
     (\<lambda>e S'. \<forall>k. k \<noteq> (KStatefulSet, snamespace server, sname server) \<longrightarrow> S' k = S k)"
  unfolding applyVPARecommendation_def
  by (intro runs_intros) (auto simp: child_simps)

end

end
