(* ===== verification/Backup.thy ===== *)
theory Backup
  imports Child_Resources
begin

text \<open>
  Backups (\<^verbatim>\<open>enshroudedserver_backup.go\<close>): scheduled VolumeSnapshots and their pruning, the check of
  the S3 credentials, and the snapshot before an update, which polls until the snapshot is ready.

  Shown: pruning deletes exactly the oldest snapshots beyond the configured number and keeps the
  newest; the polling loop ends within 19 rounds when sleeping takes the time it is asked for;
  with the strict strategy success means that a snapshot of the savegame claim was read as ready.
\<close>

section \<open>The code\<close>

subsection \<open>Scheduled snapshots\<close>

definition desiredSnapshot ::
  "'q EnshroudedServer \<Rightarrow> string \<Rightarrow> labels \<Rightarrow> VolumeSnapshot" where
  "desiredSnapshot server snapName ls = \<lparr>
     vsn_Meta = new_meta snapName (snamespace server) ls,
     vsn_PersistentVolumeClaimName = sname server @ ''-savegame'',
     vsn_VolumeSnapshotClassName = vsb_VolumeSnapshotClassName (bk_VolumeSnapshot (Backup (Spec server))),
     vsn_ErrorMessage = None,
     vsn_ReadyToUse = None\<rparr>"

text \<open>The objects of a list answer of the snapshot kind.\<close>

definition snapshots_of :: "'q kobj list \<Rightarrow> VolumeSnapshot list" where
  "snapshots_of xs = List.map_filter (\<lambda>x. case x of OVolumeSnapshot v \<Rightarrow> Some v | _ \<Rightarrow> None) xs"

fun deleteSnapshots :: "('w, 'q) platform \<Rightarrow> VolumeSnapshot list \<Rightarrow> ('w, 'q, gerror option) M" where
  "deleteSnapshots p [] = State_Monad.return None"
| "deleteSnapshots p (v # vs) = do {
     e \<leftarrow> r_Delete p (OVolumeSnapshot v);
     (case e of
        Some err \<Rightarrow>
          if \<not> IsNotFound err
          then State_Monad.return (Some (wrapErr (''deleting VolumeSnapshot '' @ om_Name (vsn_Meta v)) err))
          else deleteSnapshots p vs
      | None \<Rightarrow> deleteSnapshots p vs)
   }"

text \<open>
  The comparison handed to \<^verbatim>\<open>sort.Slice\<close>: \<^verbatim>\<open>ti.Before(tj)\<close> on the creation times.
\<close>

definition createdBefore :: "VolumeSnapshot \<Rightarrow> VolumeSnapshot \<Rightarrow> bool" where
  "createdBefore a b =
    (let ti = om_CreationTimestamp (vsn_Meta a); tj = om_CreationTimestamp (vsn_Meta b) in ti < tj)"

text \<open>
  The bound of \<^verbatim>\<open>items[:n]\<close> is an \<open>int32\<close> difference; a bound that is negative or beyond the slice
  panics. (Go's own limit is the capacity of the slice. Between length and capacity a bound can
  only lie for a negative \<^verbatim>\<open>retainCount\<close>, which the schema of the resource rules out by its minimum of 1.)
\<close>

definition pruneVolumeSnapshots ::
  "('w, 'q) platform \<Rightarrow> 'q EnshroudedServer \<Rightarrow> int32 \<Rightarrow> ('w, 'q, gerror option) M" where
  "pruneVolumeSnapshots p server retainCount = do {
     l \<leftarrow> r_List p KVolumeSnapshot (snamespace server) [''enshrouded.io/server'' \<mapsto> sname server];
     (case l of
        Inl err \<Rightarrow>
          State_Monad.return (if IsNotFound err then None else Some (wrapErr ''listing VolumeSnapshots'' err))
      | Inr xs \<Rightarrow>
         let items = snapshots_of xs; len = (of_nat (length items) :: int32) in
         if len <=s retainCount then State_Monad.return None
         else
           let sorted = so_Slice p createdBefore items; n = sint (len - retainCount) in
           if n < 0 \<or> int (length sorted) < n then State_Monad.return (Some (Panic ''slice bounds out of range''))
           else deleteSnapshots p (take (nat n) sorted))
   }"

definition reconcileVolumeSnapshot ::
  "('w, 'q) platform \<Rightarrow> 'q EnshroudedServer \<Rightarrow> ('w, 'q, gerror option) M" where
  "reconcileVolumeSnapshot p server =
    (let spec = bk_VolumeSnapshot (Backup (Spec server)) in
     if \<not> vsb_Enabled spec then State_Monad.return None
     else do {
       due \<leftarrow> inMaintenanceNow p [vsb_Schedule spec];
       (if \<not> due then State_Monad.return None
        else do {
          now \<leftarrow> time_Now p;
          (let snapName = sname server @ ''-'' @ show_int (Unix now);
               snap = desiredSnapshot server snapName
                 [''app.kubernetes.io/managed-by'' \<mapsto> ''enshrouded-operator'',
                  ''enshrouded.io/server'' \<mapsto> sname server] in
           case cu_SetControllerReference p server (vsn_Meta snap) of
             Inl err \<Rightarrow> State_Monad.return (Some (wrapErr ''setting owner reference on VolumeSnapshot'' err))
           | Inr meta \<Rightarrow> do {
               c \<leftarrow> r_Create p (OVolumeSnapshot (snap\<lparr>vsn_Meta := meta\<rparr>));
               (case (case c of Some e \<Rightarrow> if IsAlreadyExists e then None else Some e | None \<Rightarrow> None) of
                  Some e \<Rightarrow> State_Monad.return (Some (wrapErr (''creating VolumeSnapshot '' @ snapName) e))
                | None \<Rightarrow>
                   let retainCount = (if vsb_RetainCount spec = 0 then 3 else vsb_RetainCount spec) in
                   pruneVolumeSnapshots p server retainCount)
             })
        })
     })"

subsection \<open>S3\<close>

definition reconcileS3Sidecar ::
  "('w, 'q) platform \<Rightarrow> 'q EnshroudedServer \<Rightarrow> ('w, 'q, gerror option) M" where
  "reconcileS3Sidecar p server =
    (case bk_S3 (Backup (Spec server)) of
       None \<Rightarrow> State_Monad.return None
     | Some s3 \<Rightarrow> do {
         g \<leftarrow> r_Get p KSecret (snamespace server) (s3_CredentialsSecretRef s3);
         State_Monad.return (case as_Secret g of
           Inl err \<Rightarrow> if IsNotFound err then None else Some (wrapErr ''fetching S3 credentials secret'' err)
         | Inr secret \<Rightarrow> None)
       })"

subsection \<open>The snapshot before an update\<close>

definition pollInterval :: int where
  "pollInterval = 10 * 1000000000"

definition snapshotTimeout :: int where
  "snapshotTimeout = 3 * 60 * 1000000000"

fun pollSnapshot ::
  "('w, 'q) platform \<Rightarrow> 'q EnshroudedServer \<Rightarrow> bool \<Rightarrow> string \<Rightarrow> instant \<Rightarrow> nat \<Rightarrow> ('w, 'q, gerror option) M" where
  "pollSnapshot p server strict snapName deadline 0 = State_Monad.return (Some NoResult)"
| "pollSnapshot p server strict snapName deadline (Suc n) = do {
     now \<leftarrow> time_Now p;
     (if now < deadline then do {
        g \<leftarrow> r_Get p KVolumeSnapshot (snamespace server) snapName;
        (case as_VolumeSnapshot g of
           Inl err \<Rightarrow>
             State_Monad.return
               (if strict then Some (wrapErr ''checking pre-update snapshot status'' err) else None)
         | Inr current \<Rightarrow>
             let failed = (case vsn_ErrorMessage current of
                Some errMsg \<Rightarrow> if errMsg \<noteq> '''' then Some errMsg else None
              | None \<Rightarrow> None) in
             (case failed of
                Some errMsg \<Rightarrow>
                  State_Monad.return
                    (if strict then Some (Errorf (''pre-update snapshot '' @ snapName @ '' failed: '' @ errMsg))
                     else None)
              | None \<Rightarrow>
                  if vsn_ReadyToUse current = Some True then State_Monad.return None
                  else do {
                    time_Sleep p pollInterval;
                    pollSnapshot p server strict snapName deadline n
                  }))
      }
      else State_Monad.return
        (if strict
         then Some (Errorf (''timed out waiting for pre-update snapshot '' @ snapName @ '' to become ReadyToUse''))
         else None))
   }"

text \<open>The rounds of the loop: more than fit between its start and the deadline.\<close>

definition pollRounds :: nat where
  "pollRounds = 19"

definition snapshotBeforeUpdate ::
  "('w, 'q) platform \<Rightarrow> 'q EnshroudedServer \<Rightarrow> bool \<Rightarrow> ('w, 'q, gerror option) M" where
  "snapshotBeforeUpdate p server strict = do {
     now \<leftarrow> time_Now p;
     (let snapName = sname server @ ''-pre-update-'' @ show_int (Unix now);
          snap = desiredSnapshot server snapName
            [''app.kubernetes.io/managed-by'' \<mapsto> ''enshrouded-operator'',
             ''enshrouded.io/server'' \<mapsto> sname server,
             ''enshrouded.io/trigger'' \<mapsto> ''pre-update''] in
      case cu_SetControllerReference p server (vsn_Meta snap) of
        Inl err \<Rightarrow> State_Monad.return (Some (wrapErr ''setting owner reference on pre-update VolumeSnapshot'' err))
      | Inr meta \<Rightarrow> do {
          c \<leftarrow> r_Create p (OVolumeSnapshot (snap\<lparr>vsn_Meta := meta\<rparr>));
          (case (case c of Some e \<Rightarrow> if IsAlreadyExists e then None else Some e | None \<Rightarrow> None) of
             Some e \<Rightarrow>
               State_Monad.return
                 (if strict then Some (wrapErr (''creating pre-update VolumeSnapshot '' @ snapName) e) else None)
           | None \<Rightarrow> do {
               start \<leftarrow> time_Now p;
               pollSnapshot p server strict snapName (start + snapshotTimeout) pollRounds
             })
        })
   }"

section \<open>Pruning\<close>

definition created :: "VolumeSnapshot \<Rightarrow> instant" where
  "created v = om_CreationTimestamp (vsn_Meta v)"

text \<open>
  What \<^verbatim>\<open>sort.Slice\<close> promises: a rearrangement, and for a strict weak ordering one in which no element
  is less than an earlier one.
\<close>

locale slice_sort =
  fixes p :: "('w, 'q) platform"
  assumes slice_mset: "mset (so_Slice p lt vs) = mset vs"
    and slice_sorted: "strict_weak lt \<Longrightarrow> sorted_wrt (\<lambda>a b. \<not> lt b a) (so_Slice p lt vs)"
begin

lemma slice_length [simp]: "length (so_Slice p lt vs) = length vs"
  using slice_mset mset_eq_length by blast

lemma slice_set [simp]: "set (so_Slice p lt vs) = set vs"
  using slice_mset mset_eq_setD by blast

lemma slice_split: "mset vs = mset (take n (so_Slice p lt vs) @ drop n (so_Slice p lt vs))"
  using slice_mset [of lt vs] by simp

lemma slice_first:
  assumes "strict_weak lt" "d \<in> set (take n (so_Slice p lt vs))" "k \<in> set (drop n (so_Slice p lt vs))"
  shows "\<not> lt k d"
proof -
  have "sorted_wrt (\<lambda>a b. \<not> lt b a) (take n (so_Slice p lt vs) @ drop n (so_Slice p lt vs))"
    using slice_sorted [OF assms(1)] by simp
  with assms(2,3) show ?thesis unfolding sorted_wrt_append by blast
qed

end

interpretation mem_slices: slice_sort mem_platform
  by unfold_locales (simp_all add: sorted_sort_by)

lemma createdBefore_weak: "strict_weak createdBefore"
  by (auto simp: strict_weak_def createdBefore_def)

lemma slice_older:
  assumes "slice_sort p" "d \<in> set (take n (so_Slice p createdBefore vs))" "k \<in> set (drop n (so_Slice p createdBefore vs))"
  shows "created d \<le> created k"
  using slice_sort.slice_first [OF assms(1) createdBefore_weak assms(2,3)]
  by (simp add: createdBefore_def created_def)

text \<open>The deletions of a run: the first snapshots of the list, all of them unless one fails.\<close>

lemma run_deleteSnapshots:
  "run_state (deleteSnapshots p vs) s = (e, s') \<Longrightarrow>
   \<exists>rs. trace s' = trace s @ map2 (\<lambda>v. EvDelete (OVolumeSnapshot v)) vs rs \<and> length rs \<le> length vs \<and>
     (e = None \<longrightarrow> length rs = length vs)"
proof (induction vs arbitrary: s)
  case Nil
  then show ?case by auto
next
  case (Cons v vs)
  obtain r w where d: "cl_Delete p (OVolumeSnapshot v) (env s) = (r, w)" by (metis prod.exhaust)
  define s1 where "s1 = s\<lparr>env := w, trace := trace s @ [EvDelete (OVolumeSnapshot v) r]\<rparr>"
  show ?case
  proof (cases "IgnoreNotFound r = None")
    case True
    with Cons.prems d have "run_state (deleteSnapshots p vs) s1 = (e, s')"
      by (simp add: r_Delete_def s1_def IgnoreNotFound_def split: option.splits if_splits)
    from Cons.IH [OF this] obtain rs where rs:
      "trace s' = trace s1 @ map2 (\<lambda>v. EvDelete (OVolumeSnapshot v)) vs rs"
      "length rs \<le> length vs" "e = None \<longrightarrow> length rs = length vs" by blast
    then show ?thesis by (intro exI [of _ "r # rs"]) (simp add: s1_def)
  next
    case False
    with Cons.prems d have "e \<noteq> None" "s' = s1"
      by (auto simp: r_Delete_def s1_def IgnoreNotFound_def split: option.splits if_splits)
    then show ?thesis by (intro exI [of _ "[r]"]) (auto simp: s1_def)
  qed
qed

lemma int32_len: "n < 2 ^ 31 \<Longrightarrow> sint (of_nat n :: int32) = int n"
  by (simp add: signed_of_nat signed_take_bit_int_eq_self)

text \<open>
  C10. Pruning with a positive number to retain: the listed snapshots fall into those it deletes and
  those it keeps, it keeps as many as configured (or all there are), no kept snapshot is older than a
  deleted one, it writes nothing but these deletions, and if it reports no error all of them were
  requested.
\<close>

theorem prune_keeps_newest:
  assumes "slice_sort p" "0 <s retainCount" "length (snapshots_of xs) < 2 ^ 31"
    "cl_List p KVolumeSnapshot (snamespace server) [''enshrouded.io/server'' \<mapsto> sname server] (env s) = (Inr xs, w)"
    "run_state (pruneVolumeSnapshots p server retainCount) s = (e, s')"
  shows "\<exists>del keep rs. mset (snapshots_of xs) = mset (del @ keep) \<and>
    length keep = min (length (snapshots_of xs)) (nat (sint retainCount)) \<and>
    (\<forall>d \<in> set del. \<forall>k \<in> set keep. created d \<le> created k) \<and>
    trace s' = trace s @ EvList KVolumeSnapshot (snamespace server) (Inr xs) #
      map2 (\<lambda>v. EvDelete (OVolumeSnapshot v)) del rs \<and>
    length rs \<le> length del \<and> (e = None \<longrightarrow> length rs = length del)"
proof -
  let ?items = "snapshots_of xs"
  define s1 where "s1 = s\<lparr>env := w, trace := trace s @ [EvList KVolumeSnapshot (snamespace server) (Inr xs)]\<rparr>"
  have len: "sint (of_nat (length ?items) :: int32) = int (length ?items)" using assms(3) by (rule int32_len)
  show ?thesis
  proof (cases "(of_nat (length ?items) :: int32) <=s retainCount")
    case True
    with assms(4,5) have "e = None" "s' = s1"
      by (simp_all add: pruneVolumeSnapshots_def r_List_def s1_def)
    moreover have "length ?items \<le> nat (sint retainCount)"
      using True len assms(2) by (simp add: word_sle_eq word_sless_alt)
    ultimately show ?thesis
      by (intro exI [of _ "[]"] exI [of _ ?items]) (simp add: s1_def)
  next
    case False
    then have r: "0 < sint retainCount" "sint retainCount < int (length ?items)"
      using len assms(2) by (simp_all add: word_sle_eq word_sless_alt)
    define n where "n = length ?items - nat (sint retainCount)"
    have nle: "\<not> length ?items < n" by (simp add: n_def)
    have "retainCount = of_int (sint retainCount)" by simp
    also have "\<dots> = of_nat (nat (sint retainCount))" using r(1) by simp
    finally have "(of_nat (length ?items) :: int32) - retainCount = of_nat n"
      using r(2) by (simp add: n_def of_nat_diff)
    then have "sint ((of_nat (length ?items) :: int32) - retainCount) = int n"
      using int32_len [of n] assms(3) n_def by simp
    with False assms(4,5) r slice_sort.slice_length [OF assms(1), of createdBefore ?items]
    have "run_state (deleteSnapshots p (take n (so_Slice p createdBefore ?items))) s1 = (e, s')"
      by (simp add: pruneVolumeSnapshots_def r_List_def s1_def Let_def nle)
    from run_deleteSnapshots [OF this] obtain rs where
      "trace s' = trace s1 @ map2 (\<lambda>v. EvDelete (OVolumeSnapshot v)) (take n (so_Slice p createdBefore ?items)) rs"
      "length rs \<le> length (take n (so_Slice p createdBefore ?items))"
      "e = None \<longrightarrow> length rs = length (take n (so_Slice p createdBefore ?items))" by blast
    then show ?thesis
      using slice_sort.slice_split [OF assms(1), of ?items n createdBefore] slice_older [OF assms(1)] slice_sort.slice_length [OF assms(1), of createdBefore ?items] r
      by (intro exI [of _ "take n (so_Slice p createdBefore ?items)"] exI [of _ "drop n (so_Slice p createdBefore ?items)"]
            exI [of _ rs]) (simp add: s1_def n_def)
  qed
qed

definition demo_snaps :: "int kobj list" where
  "demo_snaps = map (\<lambda>(n, t). OVolumeSnapshot ((desiredSnapshot demo n Map.empty)
     \<lparr>vsn_Meta := (new_meta n ''games'' [''enshrouded.io/server'' \<mapsto> ''srv''])\<lparr>om_CreationTimestamp := t\<rparr>\<rparr>))
     [(''srv-7'', 7), (''srv-5'', 5)]"

lemma demo_snaps_listed:
  "cl_List mem_platform KVolumeSnapshot ''games'' [''enshrouded.io/server'' \<mapsto> ''srv''] (mem_init demo_snaps) =
     (Inr demo_snaps, mem_init demo_snaps)"
  by (simp add: mem_List_def mem_all_def mem_init_def demo_snaps_def mem_store_def key_of_def gone_def
      new_meta_def map_filter_simps map_le_def)

theorem prune_keeps_newest_witness:
  "\<exists>e s' del keep. run_state (pruneVolumeSnapshots mem_platform demo 1) (world_init demo_snaps) = (e, s') \<and>
     mset (snapshots_of demo_snaps) = mset (del @ keep) \<and> length keep = 1 \<and>
     (\<forall>d \<in> set del. \<forall>k \<in> set keep. created d \<le> created k)"
proof -
  obtain e s' where run: "run_state (pruneVolumeSnapshots mem_platform demo 1) (world_init demo_snaps) = (e, s')"
    by (metis prod.exhaust)
  have two: "length (snapshots_of demo_snaps) = 2"
    by (simp add: snapshots_of_def demo_snaps_def map_filter_simps)
  from prune_keeps_newest [OF mem_slices.slice_sort_axioms _ _ _ run, of demo_snaps "mem_init demo_snaps"]
    demo_snaps_listed two run show ?thesis
    by (auto simp: world_init_def word_sless_alt)
qed

section \<open>Waiting for a snapshot\<close>

definition snapshot_ready :: "VolumeSnapshot \<Rightarrow> bool" where
  "snapshot_ready v \<longleftrightarrow> vsn_ReadyToUse v = Some True \<and> vsn_ErrorMessage v \<in> {None, Some ''''}"

text \<open>
  How a round ends: it leaves the loop with the result \<open>e\<close> after the calls \<open>es\<close>, or it sleeps and
  goes on.
\<close>

definition poll_exit :: "bool \<Rightarrow> string \<Rightarrow> string \<Rightarrow> gerror option \<Rightarrow> 'q event list \<Rightarrow> bool" where
  "poll_exit strict ns snapName e es \<longleftrightarrow>
     list_all (\<lambda>ev. written ev = None) es \<and> EvSleep pollInterval \<notin> set es \<and>
     (\<not> strict \<longrightarrow> e = None) \<and>
     (strict \<and> e = None \<longrightarrow>
       (\<exists>v. snapshot_ready v \<and> es \<noteq> [] \<and> last es = EvGet KVolumeSnapshot ns snapName (Inr (OVolumeSnapshot v))))"

lemma wrapErr_NoResult: "wrapErr m e = NoResult \<longleftrightarrow> e = NoResult"
  by (cases e) simp_all

lemma as_VolumeSnapshot_NoResult: "as_VolumeSnapshot g = Inl NoResult \<longleftrightarrow> g = Inl NoResult"
  by (cases g rule: as_VolumeSnapshot.cases) (simp_all add: decodeErr_def Errorf_def)

lemma pollSnapshot_round:
  assumes "run_state (pollSnapshot p server strict snapName deadline (Suc n)) s = (e, s')"
    "tm_Now p (env s) = (t, w)" "cl_Get p KVolumeSnapshot (snamespace server) snapName w = (g, w1)"
  shows "(\<exists>es. trace s' = trace s @ es \<and> poll_exit strict (snamespace server) snapName e es) \<and>
      (e = Some NoResult \<longrightarrow> g = Inl NoResult) \<or>
    t < deadline \<and>
    run_state (pollSnapshot p server strict snapName deadline n)
      (s\<lparr>env := tm_Sleep p pollInterval w1,
         trace := trace s @ [EvNow t, EvGet KVolumeSnapshot (snamespace server) snapName g, EvSleep pollInterval]\<rparr>)
      = (e, s')"
proof -
  let ?get = "EvGet KVolumeSnapshot (snamespace server) snapName g"
  have exit: ?thesis if "trace s' = trace s @ es" "poll_exit strict (snamespace server) snapName e es"
    "e = Some NoResult \<longrightarrow> g = Inl NoResult" for es
    using that by blast
  show ?thesis
  proof (cases "t < deadline")
    case False
    with assms show ?thesis
      by (intro exit [of "[EvNow t]"]) (auto simp: time_Now_def poll_exit_def Errorf_def split: if_splits)
  next
    case now: True
    show ?thesis
    proof (cases "as_VolumeSnapshot g")
      case (Inl err)
      with assms now show ?thesis
        by (intro exit [of "[EvNow t, ?get]"])
           (auto simp: time_Now_def r_Get_def poll_exit_def wrapErr_NoResult as_VolumeSnapshot_NoResult
             split: if_splits)
    next
      case (Inr v)
      then have g: "g = Inr (OVolumeSnapshot v)" by (simp add: as_Inr)
      show ?thesis
      proof (cases "vsn_ErrorMessage v \<in> {None, Some ''''} \<and> vsn_ReadyToUse v \<noteq> Some True")
        case True
        with assms now Inr show ?thesis
          by (auto simp: time_Now_def r_Get_def time_Sleep_def Let_def)
      next
        case False
        with assms now Inr g show ?thesis
          by (intro exit [of "[EvNow t, ?get]"])
             (auto simp: time_Now_def r_Get_def poll_exit_def snapshot_ready_def Errorf_def Let_def
               split: if_splits option.splits)
      qed
    qed
  qed
qed

text \<open>
  What the polling loop relies on: the clock does not run backwards, a call that sleeps takes the
  time it is asked for, and the client answers with a result.
\<close>

locale clock =
  fixes p :: "('w, 'q) platform"
    and time :: "'w \<Rightarrow> instant"
  assumes now_time: "tm_Now p w = (t, w') \<Longrightarrow> time w \<le> t \<and> t \<le> time w'"
    and sleep_time: "time w + d \<le> time (tm_Sleep p d w)"
    and get_time: "cl_Get p k ns n w = (r, w') \<Longrightarrow> time w \<le> time w'"
    and get_result: "cl_Get p k ns n w = (Inl e, w') \<Longrightarrow> e \<noteq> NoResult"
begin

lemma poll_returns:
  "deadline \<le> time (env s) + int n * pollInterval \<Longrightarrow>
   run_state (pollSnapshot p server strict snapName deadline (Suc n)) s = (e, s') \<Longrightarrow>
   e \<noteq> Some NoResult \<and>
   (\<exists>es fs. trace s' = trace s @ es @ fs \<and> poll_exit strict (snamespace server) snapName e fs \<and>
     list_all (\<lambda>ev. written ev = None) es \<and> length (filter (\<lambda>ev. ev = EvSleep pollInterval) es) \<le> n)"
proof (induction n arbitrary: s)
  case 0
  obtain t w where now: "tm_Now p (env s) = (t, w)" by (metis prod.exhaust)
  obtain g w1 where get: "cl_Get p KVolumeSnapshot (snamespace server) snapName w = (g, w1)" by (metis prod.exhaust)
  from now_time [OF now] 0(1) have "\<not> t < deadline" by simp
  with pollSnapshot_round [OF 0(2) now get] obtain fs where
    "trace s' = trace s @ fs" "poll_exit strict (snamespace server) snapName e fs"
    "e \<noteq> Some NoResult" using get_result get by blast
  then show ?case by (intro conjI exI [of _ "[]"] exI [of _ fs]) simp_all
next
  case (Suc n)
  obtain t w where now: "tm_Now p (env s) = (t, w)" by (metis prod.exhaust)
  obtain g w1 where get: "cl_Get p KVolumeSnapshot (snamespace server) snapName w = (g, w1)" by (metis prod.exhaust)
  let ?es = "[EvNow t, EvGet KVolumeSnapshot (snamespace server) snapName g, EvSleep pollInterval]"
  let ?s = "s\<lparr>env := tm_Sleep p pollInterval w1, trace := trace s @ ?es\<rparr>"
  from pollSnapshot_round [OF Suc.prems(2) now get] show ?case
  proof
    assume "(\<exists>es. trace s' = trace s @ es \<and> poll_exit strict (snamespace server) snapName e es) \<and>
      (e = Some NoResult \<longrightarrow> g = Inl NoResult)"
    then obtain fs where "trace s' = trace s @ fs" "poll_exit strict (snamespace server) snapName e fs"
      "e \<noteq> Some NoResult" using get_result get by blast
    then show ?thesis by (intro conjI exI [of _ "[]"] exI [of _ fs]) simp_all
  next
    assume a: "t < deadline \<and> run_state (pollSnapshot p server strict snapName deadline (Suc n)) ?s = (e, s')"
    have "time (env s) + pollInterval \<le> time (env ?s)"
      using now_time [OF now] get_time [OF get] sleep_time [of w1 pollInterval] by simp
    with Suc.prems(1) have "deadline \<le> time (env ?s) + int n * pollInterval"
      by (simp add: algebra_simps)
    from Suc.IH [OF this conjunct2 [OF a]] obtain es fs where r: "e \<noteq> Some NoResult"
      "trace s' = trace ?s @ es @ fs" "poll_exit strict (snamespace server) snapName e fs"
      "list_all (\<lambda>ev. written ev = None) es" "length (filter (\<lambda>ev. ev = EvSleep pollInterval) es) \<le> n" by blast
    then have "trace s' = trace s @ (?es @ es) @ fs" "list_all (\<lambda>ev. written ev = None) (?es @ es)"
      "length (filter (\<lambda>ev. ev = EvSleep pollInterval) (?es @ es)) \<le> Suc n" by simp_all
    with r show ?thesis by blast
  qed
qed

text \<open>Eighteen rounds of ten seconds reach the deadline; the nineteenth finds it passed.\<close>

lemma poll_from_start:
  assumes "start \<le> time (env s)"
    "run_state (pollSnapshot p server strict snapName (start + snapshotTimeout) pollRounds) s = (e, s')"
  shows "e \<noteq> Some NoResult \<and>
   (\<exists>es fs. trace s' = trace s @ es @ fs \<and> poll_exit strict (snamespace server) snapName e fs \<and>
     list_all (\<lambda>ev. written ev = None) es \<and> length (filter (\<lambda>ev. ev = EvSleep pollInterval) es) \<le> 18)"
proof (rule poll_returns)
  show "start + snapshotTimeout \<le> time (env s) + int 18 * pollInterval"
    using assms(1) by (simp add: snapshotTimeout_def pollInterval_def)
  show "run_state (pollSnapshot p server strict snapName (start + snapshotTimeout) (Suc 18)) s = (e, s')"
    using assms(2) by (simp add: pollRounds_def)
qed

end

interpretation mem_clock: clock mem_platform m_clock
  by unfold_locales (auto simp: mem_Get_def notFound_def split: option.splits)

text \<open>
  The calls of a pre-update snapshot: the snapshot that is created, and that it was read as ready at
  the very end.
\<close>

definition creates_snapshot :: "'q EnshroudedServer \<Rightarrow> string \<Rightarrow> 'q event \<Rightarrow> bool" where
  "creates_snapshot server snapName ev \<longleftrightarrow>
     (\<exists>v r. ev = EvCreate (OVolumeSnapshot v) r \<and> om_Name (vsn_Meta v) = snapName \<and>
        om_Namespace (vsn_Meta v) = snamespace server \<and> vsn_PersistentVolumeClaimName v = pvcName server \<and>
        owned_by server (vsn_Meta v))"

definition reads_ready :: "'q EnshroudedServer \<Rightarrow> string \<Rightarrow> 'q event \<Rightarrow> bool" where
  "reads_ready server snapName ev \<longleftrightarrow>
     (\<exists>v. snapshot_ready v \<and> ev = EvGet KVolumeSnapshot (snamespace server) snapName (Inr (OVolumeSnapshot v)))"

locale operator_clock = clock p time + owner_refs p for p :: "('w, 'q) platform" and time
begin

lemma poll_outcome:
  assumes "start \<le> time (env s)"
    "run_state (pollSnapshot p server strict snapName (start + snapshotTimeout) pollRounds) s = (e, s')"
  shows "\<exists>es. trace s' = trace s @ es \<and> list_all (\<lambda>ev. written ev = None) es \<and>
    (strict \<and> e = None \<longrightarrow> es \<noteq> [] \<and> reads_ready server snapName (last es)) \<and> (\<not> strict \<longrightarrow> e = None)"
proof -
  from poll_from_start [OF assms] obtain es fs where poll: "trace s' = trace s @ es @ fs"
    "poll_exit strict (snamespace server) snapName e fs" "list_all (\<lambda>ev. written ev = None) es" by blast
  then show ?thesis by (intro exI [of _ "es @ fs"]) (auto simp: poll_exit_def list_all_iff reads_ready_def)
qed

lemma snapshotBeforeUpdate_outcome:
  assumes "run_state (snapshotBeforeUpdate p server strict) s = (e, s')"
  shows "\<exists>es snapName. trace s' = trace s @ es \<and>
    list_all (\<lambda>ev. written ev \<noteq> None \<longrightarrow> creates_snapshot server snapName ev) es \<and>
    (strict \<and> e = None \<longrightarrow> list_ex (creates_snapshot server snapName) es \<and> reads_ready server snapName (last es)) \<and>
    (\<not> strict \<and> e \<noteq> None \<longrightarrow> (\<exists>m err. om_OwnerReferences m = [] \<and> om_Namespace m = snamespace server \<and>
       cu_SetControllerReference p server m = Inl err))"
proof -
  obtain now w1 where n1: "tm_Now p (env s) = (now, w1)" by (metis prod.exhaust)
  define snapName where "snapName = sname server @ ''-pre-update-'' @ show_int (Unix now)"
  define snap where "snap = desiredSnapshot server snapName
      [''app.kubernetes.io/managed-by'' \<mapsto> ''enshrouded-operator'',
       ''enshrouded.io/server'' \<mapsto> sname server, ''enshrouded.io/trigger'' \<mapsto> ''pre-update'']"
  note body = assms [unfolded snapshotBeforeUpdate_def Let_def]
  show ?thesis
  proof (cases "cu_SetControllerReference p server (vsn_Meta snap)")
    case (Inl err)
    with body n1 have "e \<noteq> None" "trace s' = trace s @ [EvNow now]"
      by (auto simp: time_Now_def snap_def snapName_def)
    moreover have "om_OwnerReferences (vsn_Meta snap) = [] \<and> om_Namespace (vsn_Meta snap) = snamespace server"
      by (simp add: snap_def desiredSnapshot_def new_meta_def)
    ultimately show ?thesis using Inl by (intro exI [of _ "[EvNow now]"]) auto
  next
    case (Inr meta)
    define obj :: "'q kobj" where "obj = OVolumeSnapshot (snap\<lparr>vsn_Meta := meta\<rparr>)"
    obtain c w2 where c: "cl_Create p obj w1 = (c, w2)" by (metis prod.exhaust)
    have cs: "creates_snapshot server snapName (EvCreate obj c)"
      using set_owner_fields [OF Inr]
      by (simp add: creates_snapshot_def obj_def snap_def desiredSnapshot_def pvcName_def)
    have ex: ?thesis if "trace s' = trace s @ es"
      "list_all (\<lambda>ev. written ev \<noteq> None \<longrightarrow> creates_snapshot server snapName ev) es"
      "strict \<and> e = None \<longrightarrow> list_ex (creates_snapshot server snapName) es \<and> reads_ready server snapName (last es)"
      "\<not> strict \<longrightarrow> e = None" for es
      using that by blast
    show ?thesis
    proof (cases "case c of None \<Rightarrow> None | Some x \<Rightarrow> if IsAlreadyExists x then None else Some x")
      case (Some err)
      with body n1 Inr c have "trace s' = trace s @ [EvNow now, EvCreate obj c]"
        "e = (if strict then Some (wrapErr (''creating pre-update VolumeSnapshot '' @ snapName) err) else None)"
        by (auto simp: time_Now_def r_Create_def snap_def snapName_def obj_def)
      with cs show ?thesis by (intro ex) auto
    next
      case None
      obtain start w3 where n3: "tm_Now p w2 = (start, w3)" by (metis prod.exhaust)
      define s3 where "s3 = s\<lparr>env := w3, trace := trace s @ [EvNow now, EvCreate obj c, EvNow start]\<rparr>"
      from body n1 Inr c None n3
      have run: "run_state (pollSnapshot p server strict snapName (start + snapshotTimeout) pollRounds) s3 = (e, s')"
        by (simp add: time_Now_def r_Create_def snap_def snapName_def obj_def s3_def)
      from now_time [OF n3] have "start \<le> time (env s3)" by (simp add: s3_def)
      from poll_outcome [OF this run] obtain es where poll: "trace s' = trace s3 @ es" "list_all (\<lambda>ev. written ev = None) es"
        "strict \<and> e = None \<longrightarrow> es \<noteq> [] \<and> reads_ready server snapName (last es)" "\<not> strict \<longrightarrow> e = None" by blast
      from poll(1) have "trace s' = trace s @ [EvNow now, EvCreate obj c, EvNow start] @ es" by (simp add: s3_def)
      with poll(2-4) cs show ?thesis by (intro ex) (auto simp: list_all_iff)
    qed
  qed
qed

end

section \<open>What backups write\<close>

text \<open>
  Snapshots are only created, in the server's namespace and for its savegame claim, or deleted when
  their label names the server.
\<close>

definition snapshot_write :: "'q EnshroudedServer \<Rightarrow> 'q event \<Rightarrow> bool" where
  "snapshot_write server ev \<longleftrightarrow>
     (\<forall>x. written ev = Some x \<longrightarrow> (\<exists>v r. x = OVolumeSnapshot v \<and> om_Namespace (vsn_Meta v) = snamespace server \<and>
        om_Labels (vsn_Meta v) ''enshrouded.io/server'' = Some (sname server) \<and>
        (ev = EvCreate x r \<or> ev = EvDelete x r)))"

locale kube_snapshots = kube_reads p + slice_sort p for p :: "('w, 'q) platform"
begin

lemma emits_deleteSnapshots:
  "(\<And>v r. v \<in> set vs \<Longrightarrow> \<phi> (EvDelete (OVolumeSnapshot v) r)) \<Longrightarrow> emits \<phi> (deleteSnapshots p vs)"
proof (induction vs)
  case Nil
  show ?case by (simp add: emits_return)
next
  case (Cons v vs)
  then show ?case unfolding deleteSnapshots.simps by (intro emits_intros) auto
qed

lemma listed_delete:
  assumes "\<And>x. x \<in> set xs \<Longrightarrow> kind_of x = KVolumeSnapshot \<and> om_Namespace (meta_of x) = snamespace server \<and>
      [''enshrouded.io/server'' \<mapsto> sname server] \<subseteq>\<^sub>m om_Labels (meta_of x)"
    and "v \<in> set (take n (so_Slice p createdBefore (snapshots_of xs)))"
  shows "snapshot_write server (EvDelete (OVolumeSnapshot v) r)"
proof -
  from in_set_takeD [OF assms(2)] have "OVolumeSnapshot v \<in> set xs"
    by (auto simp: snapshots_of_def List.map_filter_def split: kobj.splits)
  from assms(1) [OF this] show ?thesis by (auto simp: snapshot_write_def map_le_def)
qed

lemma emits_pruneVolumeSnapshots:
  "emits (snapshot_write server) (pruneVolumeSnapshots p server retainCount)"
  unfolding pruneVolumeSnapshots_def
  by (rule emits_List_bind, simp add: snapshot_write_def,
      (simp only: sum.case Let_def, intro emits_intros emits_deleteSnapshots; rule listed_delete)+)

lemma emits_reconcileVolumeSnapshot:
  "emits (snapshot_write server) (reconcileVolumeSnapshot p server)"
  unfolding reconcileVolumeSnapshot_def
  by (intro emits_intros emits_pruneVolumeSnapshots)
     (auto simp: snapshot_write_def desiredSnapshot_def set_owner_fields)

lemma emits_pollSnapshot:
  "emits (snapshot_write server) (pollSnapshot p server strict snapName deadline n)"
proof (induction n)
  case 0
  show ?case by (simp add: emits_return)
next
  case (Suc n)
  show ?case unfolding pollSnapshot.simps
    by (intro emits_intros Suc.IH) (auto simp: snapshot_write_def)
qed

lemma emits_snapshotBeforeUpdate:
  "emits (snapshot_write server) (snapshotBeforeUpdate p server strict)"
  unfolding snapshotBeforeUpdate_def
  by (intro emits_intros emits_pollSnapshot)
     (auto simp: snapshot_write_def desiredSnapshot_def set_owner_fields)

lemma emits_reconcileS3Sidecar: "emits (\<lambda>ev. written ev = None) (reconcileS3Sidecar p server)"
  unfolding reconcileS3Sidecar_def by (intro emits_intros) simp_all

end

section \<open>Properties\<close>

text \<open>
  C12. The wait before an update ends: when sleeping takes at least the time asked for, the polling
  loop that starts at a given moment leaves with a result after at most eighteen sleeps of ten
  seconds; it makes no write, without the strict strategy its result is never an error, and with
  it a result without error means that the last call read the snapshot as ready and not failed.
\<close>

theorem snapshot_wait_ends:
  assumes "clock p time" "start \<le> time (env s)"
    "run_state (pollSnapshot p server strict snapName (start + snapshotTimeout) pollRounds) s = (e, s')"
  shows "e \<noteq> Some NoResult \<and>
    (\<exists>es. trace s' = trace s @ es \<and> list_all (\<lambda>ev. written ev = None) es \<and>
      length (filter (\<lambda>ev. ev = EvSleep pollInterval) es) \<le> 18 \<and>
      (\<not> strict \<longrightarrow> e = None) \<and>
      (strict \<and> e = None \<longrightarrow> reads_ready server snapName (last es)))"
proof -
  from clock.poll_from_start [OF assms] obtain es fs where r: "e \<noteq> Some NoResult" "trace s' = trace s @ es @ fs"
    "poll_exit strict (snamespace server) snapName e fs" "list_all (\<lambda>ev. written ev = None) es"
    "length (filter (\<lambda>ev. ev = EvSleep pollInterval) es) \<le> 18" by blast
  then have "filter (\<lambda>ev. ev = EvSleep pollInterval) fs = []"
    by (auto simp: poll_exit_def filter_empty_conv)
  with r show ?thesis
    by (intro conjI exI [of _ "es @ fs"]) (auto simp: poll_exit_def reads_ready_def)
qed

theorem snapshot_wait_ends_witness:
  "\<exists>e s'. run_state (pollSnapshot mem_platform demo True ''srv-7'' (0 + snapshotTimeout) pollRounds)
       (world_init demo_snaps) = (e, s') \<and> e \<noteq> Some NoResult"
proof -
  obtain e s' where run: "run_state (pollSnapshot mem_platform demo True ''srv-7'' (0 + snapshotTimeout) pollRounds)
       (world_init demo_snaps) = (e, s')" by (metis prod.exhaust)
  from snapshot_wait_ends [OF mem_clock.clock_axioms _ run] run show ?thesis
    by (simp add: world_init_def mem_init_def)
qed

end
