(* ===== verification/Stateful_Set.thy ===== *)
theory Stateful_Set
  imports Backup
begin

text \<open>
  \<^verbatim>\<open>reconcileStatefulSet\<close> of \<^verbatim>\<open>enshroudedserver_controller.go\<close>: create the StatefulSet, or update it
  after the snapshot the upgrade strategy asks for.

  Shown: with the strict strategy every update that changes the image comes after a snapshot of the
  savegame claim that was read as ready; an update touches the pod template and the replicas only;
  and what the store holds after a successful call.
\<close>

section \<open>The code\<close>

text \<open>Whether the strategy asks for a snapshot before the update from \<open>existing\<close> to \<open>desired\<close>.\<close>

definition snapshotNeeded :: "'q EnshroudedServer \<Rightarrow> 'q StatefulSet \<Rightarrow> 'q StatefulSet \<Rightarrow> bool" where
  "snapshotNeeded server existing desired =
    (let strategy = (if UpgradeStrategy (UpdatePolicy (Spec server)) = '''' then UpgradeStrategyNoSnapshot
                     else UpgradeStrategy (UpdatePolicy (Spec server))) in
     if strategy \<noteq> UpgradeStrategyNoSnapshot \<and> length (pt_Containers (sts_Template existing)) > 0
     then ct_Image (pt_Containers (sts_Template existing) ! 0) \<noteq> ct_Image (pt_Containers (sts_Template desired) ! 0)
     else False)"

definition strictStrategy :: "'q EnshroudedServer \<Rightarrow> bool" where
  "strictStrategy server \<longleftrightarrow>
     UpgradeStrategy (UpdatePolicy (Spec server)) = UpgradeStrategyStrictSnapshotBeforeUpdate"

definition reconcileStatefulSet ::
  "('w, 'q) platform \<Rightarrow> 'q EnshroudedServer \<Rightarrow> string \<Rightarrow> ('w, 'q, gerror option) M" where
  "reconcileStatefulSet p server secretHash =
    (case cu_SetControllerReference p server (sts_Meta (buildStatefulSet server secretHash)) of
       Inl err \<Rightarrow> State_Monad.return (Some err)
     | Inr meta \<Rightarrow>
        let desired = (buildStatefulSet server secretHash)\<lparr>sts_Meta := meta\<rparr> in do {
          g \<leftarrow> r_Get p KStatefulSet (snamespace server) (sname server);
          (case as_StatefulSet g of
             Inl err \<Rightarrow>
               if \<not> IsNotFound err then State_Monad.return (Some err)
               else r_Create p (OStatefulSet desired)
           | Inr existing \<Rightarrow> do {
               snapErr \<leftarrow> (if snapshotNeeded server existing desired
                          then snapshotBeforeUpdate p server (strictStrategy server)
                          else State_Monad.return None);
               (case snapErr of
                  Some err \<Rightarrow> State_Monad.return
                    (Some (wrapErr ''strict pre-update snapshot failed, blocking update'' err))
                | None \<Rightarrow> do {
                    u \<leftarrow> r_Update p (OStatefulSet (existing\<lparr>sts_Template := sts_Template desired,
                          sts_Replicas := sts_Replicas desired\<rparr>));
                    State_Monad.return (err_of u)
                  })
             })
        })"

section \<open>The snapshot comes first\<close>

definition image_of :: "'q StatefulSet \<Rightarrow> string option" where
  "image_of sts = (case pt_Containers (sts_Template sts) of [] \<Rightarrow> None | c # _ \<Rightarrow> Some (ct_Image c))"

text \<open>The calls between the read of a StatefulSet and its update: the snapshot, if one is needed.\<close>

definition snapshot_first :: "'q EnshroudedServer \<Rightarrow> 'q event list \<Rightarrow> bool" where
  "snapshot_first server mid \<longleftrightarrow>
     (\<exists>snapName. list_ex (creates_snapshot server snapName) mid \<and> reads_ready server snapName (last mid))"

definition updated_sts :: "'q EnshroudedServer \<Rightarrow> string \<Rightarrow> 'q StatefulSet \<Rightarrow> 'q StatefulSet" where
  "updated_sts server h old = old\<lparr>sts_Template := sts_Template (buildStatefulSet server h),
     sts_Replicas := sts_Replicas (buildStatefulSet server h)\<rparr>"

lemma snapshotNeeded_iff:
  "snapshotNeeded server old (updated_sts server h old) \<longleftrightarrow>
     UpgradeStrategy (UpdatePolicy (Spec server)) \<notin> {'''', ''NoSnapshot''} \<and>
     image_of old \<noteq> None \<and> image_of (updated_sts server h old) \<noteq> image_of old"
  using buildStatefulSet_not_Nil [of server h]
  by (auto simp: snapshotNeeded_def updated_sts_def image_of_def api_consts neq_Nil_conv split: list.splits)

lemma snapshotNeeded_template:
  "sts_Template a = sts_Template b \<Longrightarrow> snapshotNeeded server old a = snapshotNeeded server old b"
  by (simp add: snapshotNeeded_def)

text \<open>The calls of a run that has read the StatefulSet: the snapshot part \<open>mid\<close>, then the update or nothing.\<close>

lemma run_reconcile_found:
  assumes "cu_SetControllerReference p server (sts_Meta (buildStatefulSet server h)) = Inr meta"
    "cl_Get p KStatefulSet (snamespace server) (sname server) (env s) = (Inr (OStatefulSet old), w)"
    "run_state (reconcileStatefulSet p server h) s = (e, s')"
  obtains snapErr s2 where
    "run_state (if snapshotNeeded server old (updated_sts server h old)
                then snapshotBeforeUpdate p server (strictStrategy server) else State_Monad.return None)
       (s\<lparr>env := w, trace := trace s @ [EvGet KStatefulSet (snamespace server) (sname server) (Inr (OStatefulSet old))]\<rparr>)
       = (snapErr, s2)"
    "snapErr \<noteq> None \<longrightarrow> e \<noteq> None \<and> s' = s2"
    "snapErr = None \<longrightarrow> (\<exists>r. trace s' = trace s2 @ [EvUpdate (OStatefulSet (updated_sts server h old)) r] \<and> e = err_of r)"
proof -
  let ?m = "if snapshotNeeded server old (updated_sts server h old)
                then snapshotBeforeUpdate p server (strictStrategy server) else State_Monad.return None"
  let ?s1 = "s\<lparr>env := w, trace := trace s @ [EvGet KStatefulSet (snamespace server) (sname server) (Inr (OStatefulSet old))]\<rparr>"
  obtain snapErr s2 where mid: "run_state ?m ?s1 = (snapErr, s2)" by (metis prod.exhaust)
  have n: "snapshotNeeded server old ((buildStatefulSet server h)\<lparr>sts_Meta := meta\<rparr>) =
      snapshotNeeded server old (updated_sts server h old)"
    by (rule snapshotNeeded_template) (simp add: updated_sts_def)
  note body = assms(3) [unfolded reconcileStatefulSet_def, simplified assms(1) sum.case Let_def]
  show thesis
  proof (rule that [OF mid])
    show "snapErr \<noteq> None \<longrightarrow> e \<noteq> None \<and> s' = s2"
      using body assms(2) mid by (auto simp: r_Get_def n split del: if_split)
    show "snapErr = None \<longrightarrow>
        (\<exists>r. trace s' = trace s2 @ [EvUpdate (OStatefulSet (updated_sts server h old)) r] \<and> e = err_of r)"
      using body assms(2) mid
      by (auto simp: r_Get_def r_Update_def n updated_sts_def [symmetric] split del: if_split split: prod.splits)
  qed
qed

text \<open>Without a StatefulSet in the answer there is no update.\<close>

lemma run_reconcile_not_found:
  assumes "\<nexists>old w. cl_Get p KStatefulSet (snamespace server) (sname server) (env s) = (Inr (OStatefulSet old), w)"
    "run_state (reconcileStatefulSet p server h) s = (e, s')"
  shows "\<exists>es. trace s' = trace s @ es \<and> (\<forall>x r. EvUpdate x r \<notin> set es)"
proof (cases "cu_SetControllerReference p server (sts_Meta (buildStatefulSet server h))")
  case (Inl err)
  with assms(2) show ?thesis by (auto simp: reconcileStatefulSet_def)
next
  case (Inr meta)
  obtain g w where g: "cl_Get p KStatefulSet (snamespace server) (sname server) (env s) = (g, w)"
    by (metis prod.exhaust)
  with assms(1) have "\<exists>err. as_StatefulSet g = Inl err"
    by (cases g rule: as_StatefulSet.cases) auto
  with assms(2) Inr g show ?thesis
    by (auto simp: reconcileStatefulSet_def Let_def r_Get_def r_Create_def split: if_splits prod.splits)
qed

context operator_clock
begin

lemma strict_snapshot_first:
  assumes "strictStrategy server"
    "run_state (if need then snapshotBeforeUpdate p server (strictStrategy server) else State_Monad.return None) s = (e, s')"
  shows "\<exists>es. trace s' = trace s @ es \<and> (\<forall>x r. EvUpdate x r \<notin> set es) \<and> (need \<and> e = None \<longrightarrow> snapshot_first server es)"
proof (cases need)
  case True
  from snapshotBeforeUpdate_outcome [of server "strictStrategy server"] assms(2) True obtain es snapName where
    o: "trace s' = trace s @ es" "list_all (\<lambda>ev. written ev \<noteq> None \<longrightarrow> creates_snapshot server snapName ev) es"
    "strictStrategy server \<and> e = None \<longrightarrow> list_ex (creates_snapshot server snapName) es \<and> reads_ready server snapName (last es)"
    by fastforce
  then have "EvUpdate x r \<notin> set es" for x r by (fastforce simp: list_all_iff creates_snapshot_def)
  with o assms(1) show ?thesis by (auto simp: snapshot_first_def)
qed (use assms(2) in auto)

lemma strict_update_guarded:
  assumes "strictStrategy server" "run_state (reconcileStatefulSet p server h) s = (e, s')"
  shows "\<exists>es. trace s' = trace s @ es \<and>
    (\<forall>x r. EvUpdate x r \<in> set es \<longrightarrow>
      (\<exists>old mid. es = EvGet KStatefulSet (snamespace server) (sname server) (Inr (OStatefulSet old)) # mid @ [EvUpdate x r] \<and>
        x = OStatefulSet (updated_sts server h old) \<and>
        (image_of old \<noteq> None \<and> image_of (updated_sts server h old) \<noteq> image_of old \<longrightarrow> snapshot_first server mid)))"
proof (cases "\<exists>old w. cl_Get p KStatefulSet (snamespace server) (sname server) (env s) = (Inr (OStatefulSet old), w)")
  case False
  from run_reconcile_not_found [OF False assms(2)] show ?thesis by blast
next
  case True
  then obtain old w where g: "cl_Get p KStatefulSet (snamespace server) (sname server) (env s) = (Inr (OStatefulSet old), w)"
    by blast
  show ?thesis
  proof (cases "cu_SetControllerReference p server (sts_Meta (buildStatefulSet server h))")
    case (Inl err)
    with assms(2) show ?thesis by (auto simp: reconcileStatefulSet_def)
  next
    case (Inr meta)
    let ?get = "EvGet KStatefulSet (snamespace server) (sname server) (Inr (OStatefulSet old))"
    let ?need = "snapshotNeeded server old (updated_sts server h old)"
    obtain snapErr s2 where mid: "run_state (if ?need then snapshotBeforeUpdate p server (strictStrategy server)
          else State_Monad.return None) (s\<lparr>env := w, trace := trace s @ [?get]\<rparr>) = (snapErr, s2)"
      and blocked: "snapErr \<noteq> None \<longrightarrow> e \<noteq> None \<and> s' = s2"
      and fin: "snapErr = None \<longrightarrow>
        (\<exists>r. trace s' = trace s2 @ [EvUpdate (OStatefulSet (updated_sts server h old)) r] \<and> e = err_of r)"
      by (rule run_reconcile_found [OF Inr g assms(2)])
    from strict_snapshot_first [OF assms(1) mid] have "\<exists>es. trace s2 = trace s @ ?get # es \<and> (\<forall>x r. EvUpdate x r \<notin> set es) \<and>
        (?need \<and> snapErr = None \<longrightarrow> snapshot_first server es)" by auto
    then obtain es where es: "trace s2 = trace s @ ?get # es" "\<And>x r. EvUpdate x r \<notin> set es"
      "?need \<and> snapErr = None \<Longrightarrow> snapshot_first server es" by blast
    have need: "?need \<longleftrightarrow> image_of old \<noteq> None \<and> image_of (updated_sts server h old) \<noteq> image_of old"
      using assms(1) by (simp add: snapshotNeeded_iff strictStrategy_def api_consts)
    show ?thesis
    proof (cases snapErr)
      case None
      with fin es obtain r where "trace s' = trace s @ (?get # es @ [EvUpdate (OStatefulSet (updated_sts server h old)) r])"
        by auto
      with es need None show ?thesis
        by (intro exI [of _ "?get # es @ [EvUpdate (OStatefulSet (updated_sts server h old)) r]"]) auto
    next
      case (Some err)
      with blocked es show ?thesis by (intro exI [of _ "?get # es"]) auto
    qed
  qed
qed

lemma nonstrict_update_proceeds:
  assumes "\<not> strictStrategy server"
    "\<And>m. om_OwnerReferences m = [] \<Longrightarrow> om_Namespace m = snamespace server \<Longrightarrow>
       \<exists>m'. cu_SetControllerReference p server m = Inr m'"
    "cl_Get p KStatefulSet (snamespace server) (sname server) (env s) = (Inr (OStatefulSet old), w)"
    "run_state (reconcileStatefulSet p server h) s = (e, s')"
  shows "\<exists>es r. trace s' = trace s @ es @ [EvUpdate (OStatefulSet (updated_sts server h old)) r] \<and> e = err_of r"
proof -
  from assms(2) [of "sts_Meta (buildStatefulSet server h)"] obtain meta where
    meta: "cu_SetControllerReference p server (sts_Meta (buildStatefulSet server h)) = Inr meta"
    by (auto simp: new_meta_def)
  let ?s1 = "s\<lparr>env := w, trace := trace s @ [EvGet KStatefulSet (snamespace server) (sname server) (Inr (OStatefulSet old))]\<rparr>"
  obtain snapErr s2 where mid: "run_state (if snapshotNeeded server old (updated_sts server h old)
        then snapshotBeforeUpdate p server (strictStrategy server) else State_Monad.return None) ?s1 = (snapErr, s2)"
    and fin: "snapErr = None \<longrightarrow>
        (\<exists>r. trace s' = trace s2 @ [EvUpdate (OStatefulSet (updated_sts server h old)) r] \<and> e = err_of r)"
    by (rule run_reconcile_found [OF meta assms(3,4)])
  have no: "cu_SetControllerReference p server m \<noteq> Inl err"
    if "om_OwnerReferences m = [] \<and> om_Namespace m = snamespace server" for m err
    using assms(2) [of m] that by auto
  have "snapErr = None \<and> (\<exists>es. trace s2 = trace ?s1 @ es)"
  proof (cases "snapshotNeeded server old (updated_sts server h old)")
    case True
    with mid have "run_state (snapshotBeforeUpdate p server (strictStrategy server)) ?s1 = (snapErr, s2)" by simp
    from snapshotBeforeUpdate_outcome [OF this] assms(1) no show ?thesis by blast
  next
    case False
    with mid show ?thesis by simp
  qed
  with fin show ?thesis by auto
qed

end

section \<open>What the calls write\<close>

text \<open>The writes of \<^verbatim>\<open>reconcileStatefulSet\<close>: the StatefulSet, created or updated, and snapshots.\<close>

definition sts_write :: "'q EnshroudedServer \<Rightarrow> 'q event \<Rightarrow> bool" where
  "sts_write server ev \<longleftrightarrow> snapshot_write server ev \<or>
     (\<exists>x. (\<exists>r. ev = EvCreate (OStatefulSet x) r) \<or> (\<exists>r. ev = EvUpdate (OStatefulSet x) r)) \<and>
     within {(KStatefulSet, snamespace server, sname server)} ev"

context kube_snapshots
begin

lemma emits_reconcileStatefulSet: "emits (sts_write server) (reconcileStatefulSet p server h)"
proof -
  have snap: "emits (sts_write server) (snapshotBeforeUpdate p server strict)" for strict
    by (rule emits_mono [OF emits_snapshotBeforeUpdate]) (simp add: sts_write_def)
  show ?thesis
    unfolding reconcileStatefulSet_def
    by (intro emits_intros snap)
       (auto simp: sts_write_def within_def key_of_def set_owner_fields as_Inr snapshot_write_def)
qed

end

section \<open>What the calls leave in the store\<close>

definition sts_good :: "'q EnshroudedServer \<Rightarrow> string \<Rightarrow> 'q kobj option \<Rightarrow> 'q kobj \<Rightarrow> bool" where
  "sts_good server h old x \<longleftrightarrow>
     (case old of
        Some (OStatefulSet z) \<Rightarrow> x = OStatefulSet (updated_sts server h z)
      | _ \<Rightarrow> (\<exists>m. owned_by server m \<and> x = OStatefulSet ((buildStatefulSet server h)\<lparr>sts_Meta := m\<rparr>)))"

text \<open>Everything but VolumeSnapshots is as before.\<close>

definition same_but_snapshots :: "(okey \<Rightarrow> 'q kobj option) \<Rightarrow> (okey \<Rightarrow> 'q kobj option) \<Rightarrow> bool" where
  "same_but_snapshots S S' \<longleftrightarrow> (\<forall>k. fst k \<noteq> KVolumeSnapshot \<longrightarrow> S' k = S k)"

lemma same_but_snapshots_simps [simp]: "same_but_snapshots S S"
  by (simp add: same_but_snapshots_def)

lemma same_but_snapshots_trans:
  "same_but_snapshots S S1 \<Longrightarrow> same_but_snapshots S1 S2 \<Longrightarrow> same_but_snapshots S S2"
  by (simp add: same_but_snapshots_def)

context kube_api
begin

lemma runs_pollSnapshot [runs_intros]:
  "(\<And>e. Q e S) \<Longrightarrow> runs store S (pollSnapshot p server strict snapName deadline n) Q"
proof (induction n)
  case 0
  then show ?case by (simp add: runs_return)
next
  case (Suc n)
  then show ?case unfolding pollSnapshot.simps by (intro runs_intros) auto
qed

lemma runs_snapshotBeforeUpdate [runs_intros]:
  assumes "\<And>e S'. same_but_snapshots S S' \<Longrightarrow> Q e S'"
  shows "runs store S (snapshotBeforeUpdate p server strict) Q"
  unfolding snapshotBeforeUpdate_def
  by (intro runs_intros) (auto intro!: assms simp: same_but_snapshots_def key_of_def)

lemma runs_deleteSnapshots:
  "(\<And>e S'. same_but_snapshots S S' \<Longrightarrow> Q e S') \<Longrightarrow> runs store S (deleteSnapshots p vs) Q"
proof (induction vs arbitrary: S)
  case Nil
  then show ?case by (simp add: runs_return)
next
  case (Cons v vs)
  show ?case unfolding deleteSnapshots.simps
    by (intro runs_intros Cons) (auto simp: same_but_snapshots_def key_of_def)
qed

lemma runs_reconcileVolumeSnapshot [runs_intros]:
  assumes "\<And>e S'. same_but_snapshots S S' \<Longrightarrow> Q e S'"
  shows "runs store S (reconcileVolumeSnapshot p server) Q"
  unfolding reconcileVolumeSnapshot_def pruneVolumeSnapshots_def
  by (intro runs_intros runs_deleteSnapshots) (auto intro!: assms simp: same_but_snapshots_def key_of_def)

lemma runs_reconcileS3Sidecar [runs_intros]:
  "(\<And>e. Q e S) \<Longrightarrow> runs store S (reconcileS3Sidecar p server) Q"
  unfolding reconcileS3Sidecar_def by (intro runs_intros)

lemma runs_reconcileStatefulSet:
  "runs store S (reconcileStatefulSet p server h)
     (\<lambda>e S'. (\<forall>k. k \<noteq> (KStatefulSet, snamespace server, sname server) \<and> fst k \<noteq> KVolumeSnapshot \<longrightarrow> S' k = S k) \<and>
       (e = None \<longrightarrow> (\<exists>x. sts_good server h (S (KStatefulSet, snamespace server, sname server)) x \<and>
          S' (KStatefulSet, snamespace server, sname server) =
            Some (accept (S (KStatefulSet, snamespace server, sname server)) x))))"
  unfolding reconcileStatefulSet_def
  by (intro runs_intros,
      auto simp: child_simps same_but_snapshots_def sts_good_def updated_sts_def dest: as_notfound)
     (blast intro: set_owner_fields)

end

section \<open>Properties\<close>

text \<open>
  C4. With the strict upgrade strategy, on a clock that advances by the time slept: whenever
  \<^verbatim>\<open>reconcileStatefulSet\<close> updates an object, it is the StatefulSet it has read at the start with
  nothing replaced but the pod template and the replicas, the update is its last call, and if it
  changes the image of the first container then in between a VolumeSnapshot of the savegame claim
  was created and the last answer before the update showed that snapshot ready and without error.
\<close>

theorem strict_update_after_ready_snapshot:
  assumes "operator_clock p time" "strictStrategy server"
    "run_state (reconcileStatefulSet p server h) s = (e, s')"
  shows "\<exists>es. trace s' = trace s @ es \<and>
    (\<forall>x r. EvUpdate x r \<in> set es \<longrightarrow>
      (\<exists>old mid. es = EvGet KStatefulSet (snamespace server) (sname server) (Inr (OStatefulSet old)) # mid @ [EvUpdate x r] \<and>
        x = OStatefulSet (updated_sts server h old) \<and>
        (image_of old \<noteq> None \<and> image_of (updated_sts server h old) \<noteq> image_of old \<longrightarrow> snapshot_first server mid)))"
  using assms by (rule operator_clock.strict_update_guarded)

interpretation mem_operator_clock: operator_clock mem_platform m_clock ..

definition demo_strict :: "int EnshroudedServer" where
  "demo_strict = demo\<lparr>Spec := demo_spec\<lparr>UpdatePolicy := (UpdatePolicy demo_spec)\<lparr>UpgradeStrategy :=
     ''StrictSnapshotBeforeUpdate''\<rparr>\<rparr>\<rparr>"

theorem strict_update_after_ready_snapshot_witness:
  "strictStrategy demo_strict \<and>
   (\<exists>e s'. run_state (reconcileStatefulSet mem_platform demo_strict '''')
        (world_init [OStatefulSet (buildStatefulSet demo '''')]) = (e, s') \<and>
     (\<forall>x r. EvUpdate x r \<in> set (trace s') \<longrightarrow> (\<exists>old. x = OStatefulSet (updated_sts demo_strict '''' old))))"
proof -
  let ?w = "world_init [OStatefulSet (buildStatefulSet demo '''')]"
  have strict: "strictStrategy demo_strict"
    by (simp add: strictStrategy_def demo_strict_def api_consts)
  obtain e s' where run: "run_state (reconcileStatefulSet mem_platform demo_strict '''') ?w = (e, s')"
    by (metis prod.exhaust)
  from strict_update_after_ready_snapshot [OF mem_operator_clock.operator_clock_axioms strict run]
  obtain es where "trace s' = trace ?w @ es"
    "\<forall>x r. EvUpdate x r \<in> set es \<longrightarrow> (\<exists>old. x = OStatefulSet (updated_sts demo_strict '''' old))" by blast
  with strict run show ?thesis by (auto simp: world_init_def)
qed

text \<open>
  C23. Without the strict strategy a snapshot never stands in the way: if the StatefulSet was read,
  and the server can be made the owner of a new object in its own namespace that has no owner yet
  (the two objects built here are such), then the update is sent whatever becomes of the snapshot,
  as the last call, and the result is that of the update.
\<close>

theorem nonstrict_update_always_sent:
  assumes "operator_clock p time" "\<not> strictStrategy server"
    "\<And>m. om_OwnerReferences m = [] \<Longrightarrow> om_Namespace m = snamespace server \<Longrightarrow>
       \<exists>m'. cu_SetControllerReference p server m = Inr m'"
    "cl_Get p KStatefulSet (snamespace server) (sname server) (env s) = (Inr (OStatefulSet old), w)"
    "run_state (reconcileStatefulSet p server h) s = (e, s')"
  shows "\<exists>es r. trace s' = trace s @ es @ [EvUpdate (OStatefulSet (updated_sts server h old)) r] \<and> e = err_of r"
  using assms by (rule operator_clock.nonstrict_update_proceeds)

definition demo_snapshotted :: "int EnshroudedServer" where
  "demo_snapshotted = demo\<lparr>Spec := demo_spec\<lparr>
     UpdatePolicy := (UpdatePolicy demo_spec)\<lparr>UpgradeStrategy := ''SnapshotBeforeUpdate''\<rparr>,
     Image := (Image demo_spec)\<lparr>Tag := ''v2''\<rparr>\<rparr>\<rparr>"

theorem nonstrict_update_always_sent_witness:
  "snapshotNeeded demo_snapshotted (buildStatefulSet demo '''') (buildStatefulSet demo_snapshotted '''') \<and>
   (\<exists>e s' es r. run_state (reconcileStatefulSet mem_platform demo_snapshotted '''')
        (world_init [OStatefulSet (buildStatefulSet demo '''')]) = (e, s') \<and>
     trace s' = es @ [EvUpdate (OStatefulSet (updated_sts demo_snapshotted '''' (buildStatefulSet demo ''''))) r])"
proof -
  let ?w = "world_init [OStatefulSet (buildStatefulSet demo '''')]"
  obtain e s' where run: "run_state (reconcileStatefulSet mem_platform demo_snapshotted '''') ?w = (e, s')"
    by (metis prod.exhaust)
  have id: "snamespace demo_snapshotted = ''games''" "sname demo_snapshotted = ''srv''"
    by (simp_all add: demo_snapshotted_def demo_def sname_def snamespace_def new_meta_def)
  have get: "cl_Get mem_platform KStatefulSet (snamespace demo_snapshotted) (sname demo_snapshotted) (env ?w) =
      (Inr (OStatefulSet (buildStatefulSet demo '''')), env ?w)"
    by (simp add: id mem_Get_def world_init_def mem_init_def mem_store_def key_of_def gone_def new_meta_def)
  have need: "snapshotNeeded demo_snapshotted (buildStatefulSet demo '''') (buildStatefulSet demo_snapshotted '''')"
    using game_container_simps(3) [of demo "''''"] game_container_simps(3) [of demo_snapshotted "''''"]
    by (simp add: snapshotNeeded_def game_container_def hd_conv_nth demo_snapshotted_def demo_spec_def api_consts)
  have "\<not> strictStrategy demo_snapshotted"
    by (simp add: strictStrategy_def demo_snapshotted_def api_consts)
  from nonstrict_update_always_sent [OF mem_operator_clock.operator_clock_axioms this _ get run] need run show ?thesis
    by (auto simp: mem_SetControllerReference_def Let_def world_init_def)
qed

end
