(* ===== verification/Metrics.thy ===== *)
theory Metrics
  imports Mem_Cluster
begin

text \<open>
  The gauges of the operator: \<^verbatim>\<open>SetServerMetrics\<close> and \<^verbatim>\<open>DeleteServerMetrics\<close> of
  \<^verbatim>\<open>internal/metrics/collector.go\<close>. A gauge vector is a map from label values to a number; the
  locale \<open>gauge_registry\<close> states that setting and deleting act on it as on a map.

  Shown here: what the two functions make of the series of a server, its phase series in particular.
  The theory \<open>Reconciler\<close> uses it for their callers \<^verbatim>\<open>updateStatus\<close> and \<^verbatim>\<open>handleDeletion\<close>.
\<close>

section \<open>The code\<close>

text \<open>A gauge vector with the names of its labels.\<close>

record GaugeOpts =
  go_Namespace :: string
  go_Subsystem :: string
  go_Name :: string
  go_Help :: string

type_synonym GaugeVec = "GaugeOpts \<times> string list"

definition operatorCollectors :: "(gauge \<times> GaugeVec) list" where
  "operatorCollectors = [
     (GReadyReplicas, \<lparr>go_Namespace = ''enshrouded'', go_Subsystem = ''operator'', go_Name = ''ready_replicas'',
        go_Help = ''Number of ready replicas in the StatefulSet managed by this operator instance.''\<rparr>, [''namespace'', ''name'']),
     (GUpdateDeferred, \<lparr>go_Namespace = ''enshrouded'', go_Subsystem = ''operator'', go_Name = ''update_deferred'',
        go_Help = ''1 if a pending StatefulSet update is deferred because players are connected, 0 otherwise.''\<rparr>, [''namespace'', ''name'']),
     (GPhase, \<lparr>go_Namespace = ''enshrouded'', go_Subsystem = ''operator'', go_Name = ''phase_info'',
        go_Help = ''Lifecycle phase of each EnshroudedServer (label '' @ [CHR 0x27] @ ''phase'' @ [CHR 0x27] @ '' carries the value; gauge is always 1).''\<rparr>,
        [''namespace'', ''name'', ''phase'']),
     (GMaintenanceWindowActive, \<lparr>go_Namespace = ''enshrouded'', go_Subsystem = ''operator'', go_Name = ''maintenance_window_active'',
        go_Help = ''1 if the current time falls inside a configured maintenance window, 0 otherwise.''\<rparr>, [''namespace'', ''name''])]"

definition SetServerMetrics ::
  "('w, 'q) platform \<Rightarrow> string \<Rightarrow> string \<Rightarrow> int32 \<Rightarrow> bool \<Rightarrow> string \<Rightarrow> string \<Rightarrow> bool \<Rightarrow> ('w, 'q, unit) M" where
  "SetServerMetrics p namespace name readyReplicas updateDeferred phase oldPhase maintenanceWindowActive = do {
     gauge_Set p GReadyReplicas [namespace, name] (sint readyReplicas);
     gauge_Set p GUpdateDeferred [namespace, name] (if updateDeferred then 1 else 0);
     (if oldPhase \<noteq> '''' \<and> oldPhase \<noteq> phase then gauge_Delete p GPhase [namespace, name, oldPhase]
      else State_Monad.return ());
     gauge_Set p GPhase [namespace, name, phase] 1;
     gauge_Set p GMaintenanceWindowActive [namespace, name] (if maintenanceWindowActive then 1 else 0)
   }"

definition DeleteServerMetrics :: "('w, 'q) platform \<Rightarrow> string \<Rightarrow> string \<Rightarrow> string \<Rightarrow> ('w, 'q, unit) M" where
  "DeleteServerMetrics p namespace name phase = do {
     gauge_Delete p GReadyReplicas [namespace, name];
     gauge_Delete p GUpdateDeferred [namespace, name];
     gauge_Delete p GPhase [namespace, name, phase];
     gauge_Delete p GMaintenanceWindowActive [namespace, name]
   }"

section \<open>Labels\<close>

text \<open>
  The client library panics on a call with the wrong number of label values and on the
  registration of two collectors with the same name.
\<close>

definition labelled :: "(gauge \<times> GaugeVec) list \<Rightarrow> gauge \<Rightarrow> string list \<Rightarrow> bool" where
  "labelled cs g ls \<longleftrightarrow> (case map_of cs g of None \<Rightarrow> False | Some (opts, names) \<Rightarrow> length ls = length names)"

fun gauge_call_ok :: "(gauge \<times> GaugeVec) list \<Rightarrow> 'q event \<Rightarrow> bool" where
  "gauge_call_ok cs (EvGaugeSet g ls _) = labelled cs g ls"
| "gauge_call_ok cs (EvGaugeDelete g ls) = labelled cs g ls"
| "gauge_call_ok cs _ = True"

definition fqName :: "GaugeOpts \<Rightarrow> string" where
  "fqName o1 = concat (map (\<lambda>s. s @ ''_'') (filter (\<lambda>s. s \<noteq> '''') [go_Namespace o1, go_Subsystem o1])) @ go_Name o1"

lemma labelled_operator [simp]:
  "labelled operatorCollectors GReadyReplicas [a, b]" "labelled operatorCollectors GUpdateDeferred [a, b]"
  "labelled operatorCollectors GPhase [a, b, c]" "labelled operatorCollectors GMaintenanceWindowActive [a, b]"
  by (simp_all add: labelled_def operatorCollectors_def)

section \<open>The registry\<close>

locale gauge_registry =
  fixes p :: "('w, 'q) platform"
    and gval :: "'w \<Rightarrow> gauge \<times> string list \<Rightarrow> int option"
  assumes set_gval: "gval (pm_Set p g l v w) = (gval w)((g, l) \<mapsto> v)"
    and delete_gval: "gval (pm_Delete p g l w) = (gval w)((g, l) := None)"
begin

lemma gval_SetServerMetrics:
  "gval (env (snd (run_state (SetServerMetrics p ns n ready deferred phase oldPhase inWin) s))) =
     (if oldPhase \<noteq> '''' \<and> oldPhase \<noteq> phase then (gval (env s))((GPhase, [ns, n, oldPhase]) := None)
      else gval (env s))
     ((GReadyReplicas, [ns, n]) \<mapsto> sint ready, (GUpdateDeferred, [ns, n]) \<mapsto> (if deferred then 1 else 0),
      (GPhase, [ns, n, phase]) \<mapsto> 1, (GMaintenanceWindowActive, [ns, n]) \<mapsto> (if inWin then 1 else 0))"
  by (auto simp: SetServerMetrics_def client_defs set_gval delete_gval fun_eq_iff)

lemma gval_DeleteServerMetrics:
  "gval (env (snd (run_state (DeleteServerMetrics p ns n phase) s))) =
     (gval (env s))((GReadyReplicas, [ns, n]) := None, (GUpdateDeferred, [ns, n]) := None,
       (GPhase, [ns, n, phase]) := None, (GMaintenanceWindowActive, [ns, n]) := None)"
  by (simp add: DeleteServerMetrics_def client_defs set_gval delete_gval)

end

definition mem_gval :: "mem \<Rightarrow> gauge \<times> string list \<Rightarrow> int option" where
  "mem_gval w = map_of (m_gauges w)"

interpretation mem_gauges: gauge_registry mem_platform mem_gval
  by unfold_locales (simp_all add: mem_gval_def)

text \<open>An API server whose calls leave the gauges of the process alone.\<close>

locale metered_api = kube_api p store accept + gauge_registry p gval
  for p :: "('w, 'q) platform" and store accept gval +
  assumes api_gval: "gval (snd (cl_Get p k ns n w)) = gval w" "gval (snd (cl_StatusUpdate p x w)) = gval w"
    "gval (snd (cl_Update p x w)) = gval w" "gval (snd (cl_Delete p x w)) = gval w"
begin

abbreviation gauges :: "('w, 'q) world \<Rightarrow> gauge \<times> string list \<Rightarrow> int option" where
  "gauges s \<equiv> gval (env s)"

lemma keeps_api [keeps_intros]:
  "keeps gauges (r_Get p k ns n)" "keeps gauges (r_StatusUpdate p x)"
  "keeps gauges (r_Update p x)" "keeps gauges (r_Delete p x)"
  using api_gval by (auto simp: keeps_def client_defs split: prod.splits) (metis snd_conv)+

end

lemma mem_StatusUpdate_gauges: "m_gauges (snd (mem_StatusUpdate x w)) = m_gauges w"
  by (cases "(x, w)" rule: mem_StatusUpdate.cases) (auto simp: mem_put_def split: option.split kobj.split)

interpretation mem_metered: metered_api mem_platform mem_store mem_accept mem_gval
  by unfold_locales
     (auto simp: mem_gval_def mem_Get_def mem_StatusUpdate_gauges mem_Update_def mem_Delete_def mem_put_def mem_del_def
       Let_def split: option.split)

section \<open>The series of a server\<close>

text \<open>The phases under which a server is published, and all its series.\<close>

definition phases :: "(gauge \<times> string list \<Rightarrow> int option) \<Rightarrow> string \<Rightarrow> string \<Rightarrow> string set" where
  "phases gv ns n = {ph. gv (GPhase, [ns, n, ph]) \<noteq> None}"

definition operator_series :: "string \<Rightarrow> string \<Rightarrow> (gauge \<times> string list) set" where
  "operator_series ns n = {(GReadyReplicas, [ns, n]), (GUpdateDeferred, [ns, n]),
     (GMaintenanceWindowActive, [ns, n])} \<union> range (\<lambda>ph. (GPhase, [ns, n, ph]))"

text \<open>
  What is published of a server: the numbers, the phase \<open>ph\<close> in place of \<open>oldPhase\<close>, and nothing
  changed of the other servers.
\<close>

definition publishes ::
  "(gauge \<times> string list \<Rightarrow> int option) \<Rightarrow> string \<Rightarrow> string \<Rightarrow> int32 \<Rightarrow> bool \<Rightarrow> string \<Rightarrow> string \<Rightarrow> bool \<Rightarrow>
   (gauge \<times> string list \<Rightarrow> int option) \<Rightarrow> bool" where
  "publishes gv ns n ready deferred ph oldPhase inWin gv' \<longleftrightarrow>
     gv' (GReadyReplicas, [ns, n]) = Some (sint ready) \<and>
     gv' (GUpdateDeferred, [ns, n]) = Some (if deferred then 1 else 0) \<and>
     gv' (GMaintenanceWindowActive, [ns, n]) = Some (if inWin then 1 else 0) \<and>
     gv' (GPhase, [ns, n, ph]) = Some 1 \<and>
     phases gv' ns n = insert ph (phases gv ns n - (if oldPhase = '''' then {} else {oldPhase})) \<and>
     (\<forall>k. k \<notin> operator_series ns n \<longrightarrow> gv' k = gv k)"

context gauge_registry
begin

lemma publishes_SetServerMetrics:
  "publishes (gval (env s)) ns n ready deferred ph oldPhase inWin
     (gval (env (snd (run_state (SetServerMetrics p ns n ready deferred ph oldPhase inWin) s))))"
  by (auto simp: publishes_def gval_SetServerMetrics phases_def operator_series_def)

end

end
