(* ===== verification/Server_Status.thy ===== *)
theory Server_Status
  imports Metrics
begin

text \<open>
  The status of a server: \<^verbatim>\<open>updateStatus\<close> and \<^verbatim>\<open>setPhaseError\<close> of \<^verbatim>\<open>enshroudedserver_controller.go\<close>.
  A client call that writes an object also overwrites the local copy with the answer, so the
  gauges are published from the answer of the status update.

  Shown: the phase and the Ready condition that follow from the StatefulSet, that exactly one Ready
  condition remains and that the UpdateDeferred condition is there exactly while an update is held
  back, that the player count and the game version the sidecar reports are kept, and that the
  gauges show the phase that was stored.
\<close>

section \<open>The code\<close>

text \<open>Phase, ready replicas, and status, reason and message of the Ready condition.\<close>

definition readiness :: "'q StatefulSet option \<Rightarrow> string \<times> int32 \<times> string \<times> string \<times> string" where
  "readiness sts =
    (case sts of
       None \<Rightarrow> (EnshroudedServerPhasePending, 0, ''False'', ''StatefulSetNotFound'',
                ''StatefulSet has not been created yet'')
     | Some s \<Rightarrow>
        if 0 <s sts_ReadyReplicas s
        then (EnshroudedServerPhaseRunning, sts_ReadyReplicas s, ''True'', ''ServerRunning'',
              ''Server is running and accepting connections'')
        else if sts_CurrentRevision s \<noteq> '''' \<and> sts_CurrentRevision s \<noteq> sts_UpdateRevision s
        then (EnshroudedServerPhaseUpdating, sts_ReadyReplicas s, ''False'', ''ServerUpdating'',
              ''Server is being updated'')
        else (EnshroudedServerPhasePending, sts_ReadyReplicas s, ''False'', ''ServerStarting'',
              ''Server is starting up''))"

definition statusFor ::
  "('w, 'q) platform \<Rightarrow> 'q EnshroudedServer \<Rightarrow> 'q StatefulSet option \<Rightarrow> bool \<Rightarrow> EnshroudedServerStatus" where
  "statusFor p server sts updateDeferred =
    (let (phase, ready, readyStatus, readyReason, readyMessage) = readiness sts;
         gen = om_Generation (es_Meta server);
         conds = am_SetStatusCondition p (Conditions (Status server))
           \<lparr>cd_Type = ConditionReady, cd_Status = readyStatus, cd_Reason = readyReason,
            cd_Message = readyMessage, cd_ObservedGeneration = gen\<rparr>
     in (Status server)\<lparr>
          Phase := phase,
          ReadyReplicas := ready,
          UpdateDeferred := updateDeferred,
          Conditions :=
            (if updateDeferred
             then am_SetStatusCondition p conds
               \<lparr>cd_Type = ConditionUpdateDeferred, cd_Status = ''True'', cd_Reason = ''PlayersConnected'',
                cd_Message = ''Update deferred: '' @ show_int (sint (ActivePlayers (Status server))) @ '' player(s) connected'',
                cd_ObservedGeneration = gen\<rparr>
             else am_RemoveStatusCondition p conds ConditionUpdateDeferred)\<rparr>)"

definition updateStatus ::
  "('w, 'q) platform \<Rightarrow> 'q EnshroudedServer \<Rightarrow> bool \<Rightarrow> bool \<Rightarrow> ('w, 'q, gerror option) M" where
  "updateStatus p server updateDeferred maintenanceWindowActive = do {
     g \<leftarrow> r_Get p KStatefulSet (snamespace server) (sname server);
     (case (case as_StatefulSet g of
              Inl err \<Rightarrow> if IsNotFound err then Inr None else Inl err
            | Inr sts \<Rightarrow> Inr (Some sts)) of
        Inl err \<Rightarrow> State_Monad.return (Some err)
      | Inr sts \<Rightarrow>
         let oldPhase = Phase (Status server);
             changed = server\<lparr>Status := statusFor p server sts updateDeferred\<rparr> in do {
           u \<leftarrow> r_StatusUpdate p (OServer changed);
           (case as_Server u of
              Inl err \<Rightarrow> State_Monad.return (Some err)
            | Inr answer \<Rightarrow> do {
                SetServerMetrics p (snamespace answer) (sname answer) (ReadyReplicas (Status answer))
                  (UpdateDeferred (Status answer)) (Phase (Status answer)) oldPhase maintenanceWindowActive;
                State_Monad.return None
              })
         })
   }"

text \<open>The result of a reconciliation: the delay after which to come back (0: none) and the error.\<close>

type_synonym result = "int \<times> gerror option"

definition setPhaseError ::
  "('w, 'q) platform \<Rightarrow> 'q EnshroudedServer \<Rightarrow> string \<Rightarrow> ('w, 'q, result) M" where
  "setPhaseError p server msg = do {
     r_StatusUpdate p (OServer (server\<lparr>Status := (Status server)\<lparr>Phase := EnshroudedServerPhaseError\<rparr>\<rparr>));
     State_Monad.return (0, Some (Errorf msg))
   }"

section \<open>Conditions\<close>

definition has_condition :: "Condition list \<Rightarrow> string \<Rightarrow> Condition option" where
  "has_condition cs t = find (\<lambda>c. cd_Type c = t) cs"

text \<open>What the code relies on of the condition helpers: they act on a list with one entry per type.\<close>

locale conditions =
  fixes p :: "('w, 'q) platform"
  assumes set_condition: "has_condition (am_SetStatusCondition p cs c) t =
      (if t = cd_Type c then Some c else has_condition cs t)"
    and set_distinct: "distinct (map cd_Type cs) \<Longrightarrow> distinct (map cd_Type (am_SetStatusCondition p cs c))"
    and remove_condition: "has_condition (am_RemoveStatusCondition p cs t') t =
      (if t = t' then None else has_condition cs t)"
    and remove_distinct: "distinct (map cd_Type cs) \<Longrightarrow> distinct (map cd_Type (am_RemoveStatusCondition p cs t))"
begin

lemma statusFor_Ready:
  "has_condition (Conditions (statusFor p server sts deferred)) ''Ready'' =
     Some \<lparr>cd_Type = ''Ready'', cd_Status = (if Phase (statusFor p server sts deferred) = ''Running'' then ''True'' else ''False''),
       cd_Reason = fst (snd (snd (snd (readiness sts)))), cd_Message = snd (snd (snd (snd (readiness sts)))),
       cd_ObservedGeneration = om_Generation (es_Meta server)\<rparr>"
  by (auto simp: statusFor_def readiness_def Let_def set_condition remove_condition api_consts split: option.splits)

lemma statusFor_UpdateDeferred:
  "has_condition (Conditions (statusFor p server sts deferred)) ''UpdateDeferred'' \<noteq> None \<longleftrightarrow> deferred"
  by (auto simp: statusFor_def Let_def set_condition remove_condition api_consts split: prod.splits)

lemma statusFor_distinct:
  "distinct (map cd_Type (Conditions (Status server))) \<Longrightarrow>
   distinct (map cd_Type (Conditions (statusFor p server sts deferred)))"
  by (auto simp: statusFor_def Let_def set_distinct remove_distinct split: prod.splits)

end

lemma mem_SetStatusCondition_spec:
  "has_condition (mem_SetStatusCondition cs c) t = (if t = cd_Type c then Some c else has_condition cs t)"
  by (induction cs) (auto simp: has_condition_def)

lemma mem_SetStatusCondition_types:
  "set (map cd_Type (mem_SetStatusCondition cs c)) = insert (cd_Type c) (set (map cd_Type cs))"
  by (induction cs) auto

lemma find_filter: "find P (filter Q xs) = find (\<lambda>x. Q x \<and> P x) xs"
  by (induction xs) auto

interpretation mem_conditions: conditions mem_platform
proof unfold_locales
  fix cs :: "Condition list" and c t t'
  show "has_condition (am_SetStatusCondition mem_platform cs c) t = (if t = cd_Type c then Some c else has_condition cs t)"
    by (simp add: mem_SetStatusCondition_spec)
  show "distinct (map cd_Type (am_SetStatusCondition mem_platform cs c))" if "distinct (map cd_Type cs)"
    using that
  proof (induction cs)
    case (Cons d cs)
    then show ?case using mem_SetStatusCondition_types [of cs c] by auto
  qed simp
  show "has_condition (am_RemoveStatusCondition mem_platform cs t') t = (if t = t' then None else has_condition cs t)"
    by (auto simp: mem_platform_def has_condition_def find_filter intro: arg_cong [of _ _ "\<lambda>P. find P cs"])
      (auto simp: find_None_iff)
  show "distinct (map cd_Type (am_RemoveStatusCondition mem_platform cs t))" if "distinct (map cd_Type cs)"
    using that by (auto simp: mem_platform_def distinct_map inj_on_def)
qed

section \<open>Properties\<close>

text \<open>
  The status that \<^verbatim>\<open>updateStatus\<close> computes: Pending without a StatefulSet; otherwise Running
  exactly with a ready replica, Updating exactly when none is ready and a new revision is being
  rolled out, else Pending. Ready is true exactly in the phase Running and names the generation of
  the resource; UpdateDeferred is present exactly while an update is held back; condition types
  stay distinct; what the sidecar reports is kept.
\<close>

theorem statusFor_spec:
  assumes "conditions p" "distinct (map cd_Type (Conditions (Status server)))"
    "st = statusFor p server sts deferred"
  shows "Phase st = (case sts of None \<Rightarrow> ''Pending'' | Some s \<Rightarrow>
        if 0 < sint (sts_ReadyReplicas s) then ''Running''
        else if sts_CurrentRevision s \<notin> {'''', sts_UpdateRevision s} then ''Updating'' else ''Pending'') \<and>
    ReadyReplicas st = (case sts of None \<Rightarrow> 0 | Some s \<Rightarrow> sts_ReadyReplicas s) \<and>
    (\<exists>c. has_condition (Conditions st) ''Ready'' = Some c \<and> (cd_Status c = ''True'' \<longleftrightarrow> Phase st = ''Running'') \<and>
       cd_ObservedGeneration c = om_Generation (es_Meta server)) \<and>
    (has_condition (Conditions st) ''UpdateDeferred'' \<noteq> None \<longleftrightarrow> deferred) \<and> UpdateDeferred st = deferred \<and>
    distinct (map cd_Type (Conditions st)) \<and>
    ActivePlayers st = ActivePlayers (Status server) \<and> GameVersion st = GameVersion (Status server)"
proof -
  have "Phase st = (case sts of None \<Rightarrow> ''Pending'' | Some s \<Rightarrow>
        if 0 < sint (sts_ReadyReplicas s) then ''Running''
        else if sts_CurrentRevision s \<notin> {'''', sts_UpdateRevision s} then ''Updating'' else ''Pending'')"
    unfolding assms(3) statusFor_def readiness_def
    by (auto simp: Let_def api_consts word_sless_alt split: option.splits)
  moreover have "ReadyReplicas st = (case sts of None \<Rightarrow> 0 | Some s \<Rightarrow> sts_ReadyReplicas s)"
    "UpdateDeferred st = deferred" "ActivePlayers st = ActivePlayers (Status server)"
    "GameVersion st = GameVersion (Status server)"
    unfolding assms(3) statusFor_def readiness_def by (auto simp: Let_def split: option.splits)
  ultimately show ?thesis
    using conditions.statusFor_Ready [OF assms(1), of server sts deferred]
      conditions.statusFor_UpdateDeferred [OF assms(1), of server sts deferred]
      conditions.statusFor_distinct [OF assms(1,2), of sts deferred]
    unfolding assms(3) by simp
qed

theorem statusFor_spec_witness:
  "Phase (statusFor mem_platform demo None False) = ''Pending'' \<and>
   distinct (map cd_Type (Conditions (statusFor mem_platform demo None False)))"
  using statusFor_spec [OF mem_conditions.conditions_axioms, of demo _ None False]
  by (simp add: demo_def)

end
