(* ===== verification/Reconciler.thy ===== *)
theory Reconciler
  imports Config_Secret Vertical_Scaling Stateful_Set Server_Status
begin

text \<open>
  The reconciliation itself (\<^verbatim>\<open>Reconcile\<close>, \<^verbatim>\<open>handleDeletion\<close>, \<^verbatim>\<open>findServersForSecret\<close> and the index function of
  \<^verbatim>\<open>SetupWithManager\<close> in \<^verbatim>\<open>enshroudedserver_controller.go\<close>), composed of the operations of the other
  theories.

  Shown of every run, whatever the API server answers: which objects it may write, that the
  finalizer is registered before anything else is written, that save data is deleted only when the
  resource is being deleted and does not retain it, and that the StatefulSet is left alone while
  players are protected. On an API server that keeps its promises: what a successful run has
  established, and what a deletion leaves behind.
\<close>

section \<open>The code\<close>

text \<open>
  The annotation hash: \<open>Inr hash\<close>, or \<open>Inl result\<close> where \<^verbatim>\<open>Reconcile\<close> returns early.
\<close>

definition passwordHash ::
  "('w, 'q) platform \<Rightarrow> 'q EnshroudedServer \<Rightarrow> ('w, 'q, result + string) M" where
  "passwordHash p server =
    (case ServerPasswordSecretRef (Spec server) of
       None \<Rightarrow> State_Monad.return (Inr '''')
     | Some ref \<Rightarrow> do {
         g \<leftarrow> r_Get p KSecret (snamespace server) (skr_Name ref);
         (case as_Secret g of
            Inl err \<Rightarrow>
              if IsNotFound err then do {
                r \<leftarrow> setPhaseError p server (''referenced Secret '' @ quoted (skr_Name ref) @ '' not found'');
                State_Monad.return (Inl r)
              }
              else State_Monad.return (Inl (0, Some err))
          | Inr secret \<Rightarrow>
              (case sec_Data secret (skr_Key ref) of
                 None \<Rightarrow> do {
                   r \<leftarrow> setPhaseError p server
                     (''key '' @ quoted (skr_Key ref) @ '' not found in Secret '' @ quoted (skr_Name ref));
                   State_Monad.return (Inl r)
                 }
               | Some d \<Rightarrow> State_Monad.return (Inr (sha256hex d))))
       })"

definition annotationHash ::
  "('w, 'q) platform \<Rightarrow> 'q EnshroudedServer \<Rightarrow> ('w, 'q, result + string) M" where
  "annotationHash p server =
    (if length (UserGroups (Spec server)) > 0 then do {
       r \<leftarrow> reconcileConfigSecret p server;
       State_Monad.return (case r of Inl err \<Rightarrow> Inl (0, Some err) | Inr hash \<Rightarrow> Inr hash)
     }
     else do {
       e \<leftarrow> cleanupConfigSecret p server;
       (case e of
          Some err \<Rightarrow> State_Monad.return (Inl (0, Some err))
        | None \<Rightarrow> passwordHash p server)
     })"

text \<open>
  The part after the hash. \<^verbatim>\<open>if err := f(); err != nil { return ctrl.Result{}, err }\<close> in a row is
  \<open>seq_err\<close>; the check for a deferred update has the condition of \<open>playersProtected\<close>.
\<close>

definition oneMinute :: int where
  "oneMinute = 60 * 1000000000"

definition prepareObjects :: "('w, 'q) platform \<Rightarrow> 'q EnshroudedServer \<Rightarrow> ('w, 'q, gerror option) M" where
  "prepareObjects p server =
     seq_err (reconcilePVC p server)
     (seq_err (reconcileMetricsSidecarRBAC p server)
     (seq_err (reconcilePDB p server)
     (seq_err (reconcileVPA p server)
     (seq_err (applyVPARecommendation p server)
              (reconcileNetworkPolicy p server)))))"

definition reconcileWorkload ::
  "('w, 'q) platform \<Rightarrow> 'q EnshroudedServer \<Rightarrow> string \<Rightarrow> bool \<Rightarrow> ('w, 'q, gerror option) M" where
  "reconcileWorkload p server hash updateDeferred =
     seq_err (if \<not> updateDeferred then reconcileStatefulSet p server hash else State_Monad.return None)
     (seq_err (reconcileService p server)
     (seq_err (reconcileS3Sidecar p server)
              (reconcileVolumeSnapshot p server)))"

definition finishObjects ::
  "('w, 'q) platform \<Rightarrow> 'q EnshroudedServer \<Rightarrow> string \<Rightarrow> bool \<Rightarrow> ('w, 'q, result) M" where
  "finishObjects p server hash updateDeferred = do {
     e2 \<leftarrow> reconcileWorkload p server hash updateDeferred;
     (case e2 of
        Some err \<Rightarrow> State_Monad.return (0, Some err)
      | None \<Rightarrow> do {
          maintenanceWindowActive \<leftarrow> inMaintenanceNow p (MaintenanceWindows (UpdatePolicy (Spec server)));
          e3 \<leftarrow> updateStatus p server updateDeferred maintenanceWindowActive;
          State_Monad.return (case e3 of
            Some err \<Rightarrow> (0, Some err)
          | None \<Rightarrow> if updateDeferred then (oneMinute, None) else (0, None))
        })
   }"

definition reconcileObjects ::
  "('w, 'q) platform \<Rightarrow> 'q EnshroudedServer \<Rightarrow> string \<Rightarrow> ('w, 'q, result) M" where
  "reconcileObjects p server hash = do {
     e1 \<leftarrow> prepareObjects p server;
     (case e1 of
        Some err \<Rightarrow> State_Monad.return (0, Some err)
      | None \<Rightarrow> do {
          updateDeferred \<leftarrow> playersProtected p server;
          finishObjects p server hash updateDeferred
        })
   }"

definition deleteClaim :: "('w, 'q) platform \<Rightarrow> 'q EnshroudedServer \<Rightarrow> ('w, 'q, gerror option) M" where
  "deleteClaim p server =
    (let retain = (case RetainOnDelete (Storage (Spec server)) of None \<Rightarrow> True | Some b \<Rightarrow> b) in
     if \<not> retain then do {
       g \<leftarrow> r_Get p KPersistentVolumeClaim (snamespace server) (pvcName server);
       (case as_PersistentVolumeClaim g of
          Inr pvc \<Rightarrow> do {
            d \<leftarrow> r_Delete p (OPersistentVolumeClaim pvc);
            State_Monad.return (IgnoreNotFound d)
          }
        | Inl err \<Rightarrow> State_Monad.return (IgnoreNotFound (Some err)))
     }
     else State_Monad.return None)"

definition handleDeletion :: "('w, 'q) platform \<Rightarrow> 'q EnshroudedServer \<Rightarrow> ('w, 'q, result) M" where
  "handleDeletion p server =
    (if \<not> cu_ContainsFinalizer p (es_Meta server) finalizerName then State_Monad.return (0, None)
     else do {
       e \<leftarrow> deleteClaim p server;
       (case e of
          Some err \<Rightarrow> State_Monad.return (0, Some err)
        | None \<Rightarrow> do {
            u \<leftarrow> r_Update p (OServer (server\<lparr>es_Meta := cu_RemoveFinalizer p (es_Meta server) finalizerName\<rparr>));
            (case as_Server u of
               Inl err \<Rightarrow> State_Monad.return (0, Some err)
             | Inr answer \<Rightarrow> do {
                 DeleteServerMetrics p (snamespace answer) (sname answer) (Phase (Status answer));
                 State_Monad.return (0, None)
               })
          })
     })"

text \<open>The part after the finalizer, for a server that is not being deleted.\<close>

definition reconcileLive :: "('w, 'q) platform \<Rightarrow> 'q EnshroudedServer \<Rightarrow> ('w, 'q, result) M" where
  "reconcileLive p server = do {
     h \<leftarrow> annotationHash p server;
     (case h of
        Inl result \<Rightarrow> State_Monad.return result
      | Inr hash \<Rightarrow> reconcileObjects p server hash)
   }"

definition Reconcile :: "('w, 'q) platform \<Rightarrow> string \<Rightarrow> string \<Rightarrow> ('w, 'q, result) M" where
  "Reconcile p namespace name = do {
     g \<leftarrow> r_Get p KServer namespace name;
     (case as_Server g of
        Inl err \<Rightarrow> State_Monad.return (0, IgnoreNotFound (Some err))
      | Inr server \<Rightarrow>
         if om_DeletionTimestamp (es_Meta server) \<noteq> None then handleDeletion p server
         else if \<not> cu_ContainsFinalizer p (es_Meta server) finalizerName then do {
           u \<leftarrow> r_Update p (OServer (server\<lparr>es_Meta := cu_AddFinalizer p (es_Meta server) finalizerName\<rparr>));
           (case as_Server u of
              Inl err \<Rightarrow> State_Monad.return (0, Some err)
            | Inr answer \<Rightarrow> reconcileLive p answer)
         }
         else reconcileLive p server)
   }"

subsection \<open>Secrets that trigger a reconciliation\<close>

definition allSecretRefs :: "'q EnshroudedServer \<Rightarrow> string list" where
  "allSecretRefs server =
     (case ServerPasswordSecretRef (Spec server) of Some ref \<Rightarrow> [skr_Name ref] | None \<Rightarrow> []) @
     List.map_filter (\<lambda>g. map_option skr_Name (ug_PasswordSecretRef g)) (UserGroups (Spec server))"

fun secretIndex :: "'q kobj \<Rightarrow> string list" where
  "secretIndex (OServer server) = allSecretRefs server"
| "secretIndex _ = []"

definition findServersForSecret ::
  "('w, 'q) platform \<Rightarrow> ObjectMeta \<Rightarrow> ('w, 'q, (string \<times> string) list) M" where
  "findServersForSecret p secret = do {
     l \<leftarrow> r_ListByField p KServer (om_Namespace secret) secretIndex (om_Name secret);
     State_Monad.return (case l of
       Inl err \<Rightarrow> []
     | Inr xs \<Rightarrow> map (\<lambda>x. (om_Namespace (meta_of x), om_Name (meta_of x))) xs)
   }"

section \<open>What a run may write\<close>

text \<open>The objects of a server, by what the operator may do with them.\<close>

definition create_keys :: "string \<Rightarrow> string \<Rightarrow> okey set" where
  "create_keys ns n = {
     (KSecret, ns, n @ ''-config''), (KPersistentVolumeClaim, ns, n @ ''-savegame''),
     (KServiceAccount, ns, n @ ''-metrics''), (KRole, ns, n @ ''-metrics''), (KRoleBinding, ns, n @ ''-metrics''),
     (KPodDisruptionBudget, ns, n), (KVerticalPodAutoscaler, ns, n), (KNetworkPolicy, ns, n @ ''-netpol''),
     (KStatefulSet, ns, n), (KService, ns, n)}"

definition update_keys :: "string \<Rightarrow> string \<Rightarrow> okey set" where
  "update_keys ns n = {
     (KServer, ns, n), (KSecret, ns, n @ ''-config''), (KRole, ns, n @ ''-metrics''),
     (KPodDisruptionBudget, ns, n), (KVerticalPodAutoscaler, ns, n), (KNetworkPolicy, ns, n @ ''-netpol''),
     (KStatefulSet, ns, n), (KService, ns, n)}"

definition delete_keys :: "string \<Rightarrow> string \<Rightarrow> okey set" where
  "delete_keys ns n = {(KSecret, ns, n @ ''-config''), (KVerticalPodAutoscaler, ns, n)}"

definition own_snapshot :: "string \<Rightarrow> string \<Rightarrow> 'q kobj \<Rightarrow> bool" where
  "own_snapshot ns n x \<longleftrightarrow>
     (\<exists>v. x = OVolumeSnapshot v \<and> om_Namespace (vsn_Meta v) = ns \<and>
        om_Labels (vsn_Meta v) ''enshrouded.io/server'' = Some n)"

fun live_write :: "string \<Rightarrow> string \<Rightarrow> 'q event \<Rightarrow> bool" where
  "live_write ns n (EvCreate x _) \<longleftrightarrow> key_of x \<in> create_keys ns n \<or> own_snapshot ns n x"
| "live_write ns n (EvUpdate x _) \<longleftrightarrow> key_of x \<in> update_keys ns n"
| "live_write ns n (EvDelete x _) \<longleftrightarrow> key_of x \<in> delete_keys ns n \<or> own_snapshot ns n x"
| "live_write ns n (EvStatusUpdate x _) \<longleftrightarrow> key_of x = (KServer, ns, n)"
| "live_write ns n (EvStatusPatch x _) \<longleftrightarrow> False"
| "live_write ns n _ \<longleftrightarrow> True"

lemma snapshot_write_live:
  "snapshot_write server ev \<Longrightarrow> live_write (snamespace server) (sname server) ev"
  by (cases ev) (auto simp: snapshot_write_def own_snapshot_def)

lemmas live_simps = create_keys_def update_keys_def delete_keys_def key_of_def as_Inr
  sidecarServiceAccountName_def pvcName_def

context kube_snapshots
begin

abbreviation live :: "'q EnshroudedServer \<Rightarrow> 'q event \<Rightarrow> bool" where
  "live server \<equiv> live_write (snamespace server) (sname server)"

lemma live_SetServerMetrics: "emits (live server) (SetServerMetrics p a b c d e f g)"
  unfolding SetServerMetrics_def by (intro emits_intros) simp_all

lemma live_updateStatus: "emits (live server) (updateStatus p server d w)"
  unfolding updateStatus_def
  by (intro emits_intros live_SetServerMetrics) (simp_all add: key_of_def snamespace_def sname_def)

lemma live_setPhaseError: "emits (live server) (setPhaseError p server msg)"
  unfolding setPhaseError_def by (intro emits_intros) (simp_all add: key_of_def snamespace_def sname_def)

lemma emits_buildGroups: "emits (\<lambda>ev. written ev = None) (buildGroups p server gs ugs)"
proof (induction ugs arbitrary: gs)
  case Nil
  show ?case by (simp add: emits_return)
next
  case (Cons g ugs)
  show ?case unfolding buildGroups.simps groupPassword_def
    by (intro emits_intros Cons.IH) simp_all
qed

lemma quiet_live: "written ev = None \<Longrightarrow> live_write ns n ev"
  by (cases ev) simp_all

lemma live_buildGroups: "emits (live server) (buildGroups p server gs ugs)"
  by (rule emits_mono [OF emits_buildGroups quiet_live])

lemma live_annotationHash: "emits (live server) (annotationHash p server)"
  unfolding annotationHash_def passwordHash_def reconcileConfigSecret_def cleanupConfigSecret_def
    buildServerConfigJSON_def
  by (intro emits_intros live_buildGroups live_setPhaseError) (auto simp: live_simps set_owner_fields)

lemma live_children:
  "emits (live server) (reconcilePVC p server)"
  "emits (live server) (reconcileMetricsSidecarRBAC p server)"
  "emits (live server) (reconcilePDB p server)"
  "emits (live server) (reconcileVPA p server)"
  "emits (live server) (applyVPARecommendation p server)"
  "emits (live server) (reconcileNetworkPolicy p server)"
  "emits (live server) (reconcileService p server)"
  "emits (live server) (reconcileS3Sidecar p server)"
  unfolding reconcilePVC_def reconcileMetricsSidecarRBAC_def reconcileSidecarServiceAccount_def
    reconcileSidecarRole_def reconcileSidecarRoleBinding_def reconcilePDB_def reconcileVPA_def
    applyVPARecommendation_def reconcileNetworkPolicy_def reconcileService_def reconcileS3Sidecar_def
  by (intro emits_intros; auto simp: live_simps set_owner_fields desiredRoleBinding_def Let_def; fail)+

lemma live_snapshots:
  "emits (live server) (reconcileVolumeSnapshot p server)"
  "emits (live server) (snapshotBeforeUpdate p server strict)"
  using emits_reconcileVolumeSnapshot emits_snapshotBeforeUpdate by (blast intro: emits_mono snapshot_write_live)+

lemma live_reconcileStatefulSet: "emits (live server) (reconcileStatefulSet p server h)"
  unfolding reconcileStatefulSet_def
  by (intro emits_intros live_snapshots) (auto simp: live_simps set_owner_fields)

lemma live_objects:
  "emits (live server) (prepareObjects p server)"
  "emits (live server) (reconcileWorkload p server hash d)"
  unfolding prepareObjects_def reconcileWorkload_def
  by (intro emits_intros live_children live_snapshots live_reconcileStatefulSet)+

lemma live_finishObjects: "emits (live server) (finishObjects p server hash d)"
  unfolding finishObjects_def by (intro emits_intros live_objects live_updateStatus) simp_all

lemma live_reconcileObjects: "emits (live server) (reconcileObjects p server hash)"
  unfolding reconcileObjects_def by (intro emits_intros live_objects live_finishObjects) simp_all

lemma live_reconcileLive: "emits (live server) (reconcileLive p server)"
  unfolding reconcileLive_def by (intro emits_intros live_annotationHash live_reconcileObjects)

end

text \<open>The writes of a deletion.\<close>

fun deletion_write :: "('w, 'q) platform \<Rightarrow> 'q EnshroudedServer \<Rightarrow> 'q event \<Rightarrow> bool" where
  "deletion_write p server (EvDelete x _) \<longleftrightarrow>
     key_of x = (KPersistentVolumeClaim, snamespace server, sname server @ ''-savegame'') \<and>
     RetainOnDelete (Storage (Spec server)) = Some False"
| "deletion_write p server (EvUpdate x _) \<longleftrightarrow>
     x = OServer (server\<lparr>es_Meta := cu_RemoveFinalizer p (es_Meta server) finalizerName\<rparr>)"
| "deletion_write p server ev \<longleftrightarrow> written ev = None"

text \<open>A run begins by reading the server; the rest depends on the answer.\<close>

definition after :: "('w, 'q) world \<Rightarrow> 'w \<Rightarrow> 'q event \<Rightarrow> ('w, 'q) world" where
  "after s w ev = s\<lparr>env := w, trace := trace s @ [ev]\<rparr>"

lemma after_trace [simp]: "trace (after s w ev) = trace s @ [ev]" "env (after s w ev) = w"
  by (simp_all add: after_def)

definition add_own_finalizer :: "('w, 'q) platform \<Rightarrow> 'q EnshroudedServer \<Rightarrow> 'q kobj" where
  "add_own_finalizer p server = OServer (server\<lparr>es_Meta := cu_AddFinalizer p (es_Meta server) finalizerName\<rparr>)"

lemma run_Reconcile:
  assumes "run_state (Reconcile p ns n) s = (r, s')" "cl_Get p KServer ns n (env s) = (g, w)"
  shows "as_Server g = Inl err \<Longrightarrow> s' = after s w (EvGet KServer ns n g) \<and> r = (0, IgnoreNotFound (Some err))"
    "as_Server g = Inr server \<Longrightarrow> om_DeletionTimestamp (es_Meta server) \<noteq> None \<Longrightarrow>
     run_state (handleDeletion p server) (after s w (EvGet KServer ns n g)) = (r, s')"
    "as_Server g = Inr server \<Longrightarrow> om_DeletionTimestamp (es_Meta server) = None \<Longrightarrow>
     cu_ContainsFinalizer p (es_Meta server) finalizerName \<Longrightarrow>
     run_state (reconcileLive p server) (after s w (EvGet KServer ns n g)) = (r, s')"
    "as_Server g = Inr server \<Longrightarrow> om_DeletionTimestamp (es_Meta server) = None \<Longrightarrow>
     \<not> cu_ContainsFinalizer p (es_Meta server) finalizerName \<Longrightarrow>
     cl_Update p (add_own_finalizer p server) w = (u, w2) \<Longrightarrow>
     (case as_Server u of
        Inl err \<Rightarrow> s' = after (after s w (EvGet KServer ns n g)) w2 (EvUpdate (add_own_finalizer p server) u) \<and> r = (0, Some err)
      | Inr answer \<Rightarrow> run_state (reconcileLive p answer)
          (after (after s w (EvGet KServer ns n g)) w2 (EvUpdate (add_own_finalizer p server) u)) = (r, s'))"
  using assms by (auto simp: Reconcile_def r_Get_def r_Update_def after_def add_own_finalizer_def split: sum.splits)

context kube_snapshots
begin

lemma deletion_handleDeletion: "emits (deletion_write p server) (handleDeletion p server)"
  unfolding handleDeletion_def deleteClaim_def DeleteServerMetrics_def
  by (intro emits_intros) (auto simp: live_simps split: option.splits)

lemma update_answer_key:
  assumes "cl_Get p KServer ns n w = (Inr (OServer server), w1)"
    "cl_Update p (add_own_finalizer p server) w1 = (Inr (OServer answer), w2)"
  shows "snamespace answer = ns" "sname answer = n"
  using get_key [OF assms(1)] update_key [OF assms(2)] add_finalizer_fields
  by (simp_all add: key_of_def add_own_finalizer_def sname_def snamespace_def)

lemma run_writes:
  assumes "run_state (Reconcile p ns n) s = (r, s')" "cl_Get p KServer ns n (env s) = (Inr (OServer server), w)"
  shows "\<exists>es. trace s' = trace s @ EvGet KServer ns n (Inr (OServer server)) # es \<and>
    (if om_DeletionTimestamp (es_Meta server) \<noteq> None then list_all (deletion_write p server) es
     else list_all (live_write ns n) es \<and>
       (\<not> cu_ContainsFinalizer p (es_Meta server) finalizerName \<longrightarrow>
         (\<exists>u rest. es = EvUpdate (add_own_finalizer p server) u # rest \<and> (\<forall>e. u = Inl e \<longrightarrow> rest = []))))"
proof -
  let ?get = "EvGet KServer ns n (Inr (OServer server))"
  have key: "snamespace server = ns" "sname server = n"
    using get_key [OF assms(2)] by (simp_all add: key_of_def sname_def snamespace_def)
  have own: "live_write ns n (EvUpdate (add_own_finalizer p server) u)" for u
    using key add_finalizer_fields
    by (simp add: add_own_finalizer_def update_keys_def key_of_def sname_def snamespace_def)
  note run = run_Reconcile [OF assms, simplified]
  consider (del) "om_DeletionTimestamp (es_Meta server) \<noteq> None"
    | (old) "om_DeletionTimestamp (es_Meta server) = None" "cu_ContainsFinalizer p (es_Meta server) finalizerName"
    | (new) "om_DeletionTimestamp (es_Meta server) = None" "\<not> cu_ContainsFinalizer p (es_Meta server) finalizerName"
    by blast
  then show ?thesis
  proof cases
    case del
    from emitsD [OF deletion_handleDeletion] run(2) del show ?thesis by fastforce
  next
    case old
    from emitsD [OF live_reconcileLive] run(3) old key show ?thesis by fastforce
  next
    case new
    obtain u w2 where u: "cl_Update p (add_own_finalizer p server) w = (u, w2)" by (metis prod.exhaust)
    note r = run(4) [OF refl new u]
    show ?thesis
    proof (cases "as_Server u")
      case (Inl err)
      with r new own show ?thesis by auto
    next
      case (Inr answer)
      then have u': "u = Inr (OServer answer)" by (simp add: as_Inr)
      have ans: "snamespace answer = ns" "sname answer = n"
        using update_answer_key [OF assms(2)] u u' by simp_all
      from r Inr have "run_state (reconcileLive p answer)
          (after (after s w ?get) w2 (EvUpdate (add_own_finalizer p server) u)) = (r, s')" by simp
      from emitsD [OF live_reconcileLive this] ans
      obtain es where "trace s' = trace s @ ?get # EvUpdate (add_own_finalizer p server) u # es"
        "list_all (live_write ns n) es" by auto
      with new own u' show ?thesis by auto
    qed
  qed
qed

end

interpretation mem_snapshots: kube_snapshots mem_platform ..

section \<open>Deferred updates\<close>

text \<open>An event that does not write a StatefulSet, or is the update of an applied recommendation.\<close>

definition sts_kept :: "'q EnshroudedServer \<Rightarrow> 'q event \<Rightarrow> bool" where
  "sts_kept server ev \<longleftrightarrow>
     (\<forall>x. written ev = Some (OStatefulSet x) \<longrightarrow>
        vsc_Enabled (VerticalScaling (Spec server)) \<and> vsc_UpdateMode (VerticalScaling (Spec server)) = ''WhenIdle'' \<and>
        (\<exists>r. ev = EvUpdate (OStatefulSet x) r))"

lemma sts_kept_simps [simp]:
  "written ev = None \<Longrightarrow> sts_kept server ev"
  "written ev = Some x \<Longrightarrow> kind_of x \<noteq> KStatefulSet \<Longrightarrow> sts_kept server ev"
  by (auto simp: sts_kept_def)

definition no_window_open :: "('w, 'q) platform \<Rightarrow> 'q EnshroudedServer \<Rightarrow> 'q event list \<Rightarrow> bool" where
  "no_window_open p server es \<longleftrightarrow>
     (\<forall>t. EvNow t \<in> set es \<longrightarrow>
        \<not> list_ex (inWindow (tm_LoadLocation p) t) (MaintenanceWindows (UpdatePolicy (Spec server))))"

lemma protected_or_open:
  assumes "run_state (playersProtected p server) s = (b, s')"
    "DeferWhilePlaying (UpdatePolicy (Spec server))" "0 <s ActivePlayers (Status server)"
  shows "\<exists>es. trace s' = trace s @ es \<and> list_all (\<lambda>ev. written ev = None) es \<and>
    (\<not> b \<longrightarrow> (\<exists>t. EvNow t \<in> set es \<and> list_ex (inWindow (tm_LoadLocation p) t) (MaintenanceWindows (UpdatePolicy (Spec server)))))"
  using assms
  by (auto simp: playersProtected_def inMaintenanceNow_def time_Now_def isInMaintenanceWindow_iff list_ex_iff
      split: if_splits prod.splits)

lemma finishObjects_result:
  assumes "run_state (finishObjects p server hash d) s = (r, s')" "snd r = None"
  shows "fst r = (if d then oneMinute else 0)"
  using assms unfolding finishObjects_def
  by (simp split: prod.splits option.splits if_splits) auto

context kube_snapshots
begin

lemma kept_annotationHash: "emits (sts_kept server) (annotationHash p server)"
  unfolding annotationHash_def passwordHash_def reconcileConfigSecret_def cleanupConfigSecret_def
    buildServerConfigJSON_def setPhaseError_def
proof (intro emits_intros)
  show "emits (sts_kept server) (buildGroups p server [] (UserGroups (Spec server)))"
    by (rule emits_mono [OF emits_buildGroups]) simp
qed simp_all

lemma kept_prepareObjects: "emits (sts_kept server) (prepareObjects p server)"
  unfolding prepareObjects_def reconcilePVC_def reconcileMetricsSidecarRBAC_def reconcileSidecarServiceAccount_def
    reconcileSidecarRole_def reconcileSidecarRoleBinding_def reconcilePDB_def reconcileVPA_def
    applyVPARecommendation_def reconcileNetworkPolicy_def
  by (intro emits_intros) (simp_all add: sts_kept_def api_consts)

lemma kept_tail:
  "emits (sts_kept server) (reconcileWorkload p server hash True)"
  "emits (sts_kept server) (updateStatus p server d w)"
proof -
  have "emits (sts_kept server) (reconcileVolumeSnapshot p server)"
    by (rule emits_mono [OF emits_reconcileVolumeSnapshot]) (auto simp: snapshot_write_def sts_kept_def)
  moreover have "emits (sts_kept server) (SetServerMetrics p a b c d e f g)" for a b c d e f g
    unfolding SetServerMetrics_def by (intro emits_intros) simp_all
  ultimately show "emits (sts_kept server) (reconcileWorkload p server hash True)"
    "emits (sts_kept server) (updateStatus p server d w)"
    unfolding reconcileWorkload_def reconcileService_def reconcileS3Sidecar_def updateStatus_def
    by (intro emits_intros; simp add: sts_kept_def; fail)+
qed

lemma kept_finishObjects: "emits (sts_kept server) (finishObjects p server hash True)"
  unfolding finishObjects_def by (intro emits_intros kept_tail) simp_all

lemma deferred_objects:
  assumes "run_state (reconcileObjects p server hash) s = (r, s')"
    "DeferWhilePlaying (UpdatePolicy (Spec server))" "0 <s ActivePlayers (Status server)"
  shows "\<exists>es. trace s' = trace s @ es \<and>
    (no_window_open p server es \<longrightarrow>
      list_all (sts_kept server) es \<and> (snd r = None \<longrightarrow> fst r = oneMinute))"
proof -
  obtain e1 s1 where m1: "run_state (prepareObjects p server) s = (e1, s1)" by (metis prod.exhaust)
  obtain es1 where es1: "trace s1 = trace s @ es1" "list_all (sts_kept server) es1"
    using emitsD [OF kept_prepareObjects m1] by blast
  show ?thesis
  proof (cases e1)
    case (Some err)
    with assms(1) m1 es1 show ?thesis by (auto simp: reconcileObjects_def)
  next
    case None
    obtain b s2 where m2: "run_state (playersProtected p server) s1 = (b, s2)" by (metis prod.exhaust)
    from protected_or_open [OF this assms(2,3)] obtain es2 where es2: "trace s2 = trace s1 @ es2"
      "list_all (\<lambda>ev. written ev = None) es2"
      "\<not> b \<longrightarrow> (\<exists>t. EvNow t \<in> set es2 \<and> list_ex (inWindow (tm_LoadLocation p) t) (MaintenanceWindows (UpdatePolicy (Spec server))))"
      by blast
    from assms(1) m1 m2 None have tail: "run_state (finishObjects p server hash b) s2 = (r, s')"
      by (simp add: reconcileObjects_def)
    from emitsD [OF live_finishObjects tail] obtain es3 where es3: "trace s' = trace s2 @ es3" by blast
    have "b \<Longrightarrow> list_all (sts_kept server) es3 \<and> (snd r = None \<longrightarrow> fst r = oneMinute)"
      using emitsD [OF kept_finishObjects] tail es3 finishObjects_result [OF tail] by fastforce
    moreover have "list_all (sts_kept server) es2"
      using es2(2) by (simp add: list_all_iff)
    ultimately show ?thesis
      using es1 es2 es3 by (intro exI [of _ "es1 @ es2 @ es3"]) (auto simp: no_window_open_def)
  qed
qed

end

lemma mem_server_read:
  assumes "mem_store w (KServer, ns, n) = Some x"
  shows "cl_Get mem_platform KServer ns n w = (Inr x, w)"
  using assms by (simp add: mem_Get_def)

section \<open>Properties of every run\<close>

text \<open>
  C17. Whatever the API server answers, a run writes only objects of the server it was asked for:
  nothing unless the server could be read; the objects \<open>live_write\<close> lists when it is not being
  deleted, and otherwise only its savegame claim and its own finalizer.
\<close>

theorem reconcile_write_scope:
  assumes "kube_snapshots p" "run_state (Reconcile p ns n) s = (r, s')"
  shows "\<exists>es. trace s' = trace s @ es \<and>
    (\<forall>ev \<in> set es. written ev = None \<or>
      (\<exists>server. EvGet KServer ns n (Inr (OServer server)) = hd es \<and>
        (if om_DeletionTimestamp (es_Meta server) \<noteq> None then deletion_write p server ev else live_write ns n ev)))"
proof -
  obtain g w where g: "cl_Get p KServer ns n (env s) = (g, w)" by (metis prod.exhaust)
  show ?thesis
  proof (cases "as_Server g")
    case (Inl err)
    with run_Reconcile(1) [OF assms(2) g] show ?thesis by (intro exI [of _ "[EvGet KServer ns n g]"]) simp
  next
    case (Inr server)
    then have "g = Inr (OServer server)" by (simp add: as_Inr)
    with kube_snapshots.run_writes [OF assms] g obtain es where
      "trace s' = trace s @ EvGet KServer ns n (Inr (OServer server)) # es"
      "if om_DeletionTimestamp (es_Meta server) \<noteq> None then list_all (deletion_write p server) es
       else list_all (live_write ns n) es" by (fastforce split: if_splits)
    then show ?thesis
      by (intro exI [of _ "EvGet KServer ns n (Inr (OServer server)) # es"]) (auto simp: list_all_iff split: if_splits)
  qed
qed

theorem reconcile_write_scope_witness:
  "\<exists>r s'. run_state (Reconcile mem_platform ''games'' ''srv'') (world_init [OServer demo]) = (r, s') \<and>
     (\<forall>ev \<in> set (trace s'). written ev = None \<or> (\<exists>server. EvGet KServer ''games'' ''srv'' (Inr (OServer server)) = hd (trace s')))"
proof -
  obtain r s' where run: "run_state (Reconcile mem_platform ''games'' ''srv'') (world_init [OServer demo]) = (r, s')"
    by (metis prod.exhaust)
  from reconcile_write_scope [OF mem_snapshots.kube_snapshots_axioms run] run show ?thesis
    by (auto simp: world_init_def)
qed

lemma claim_keys:
  "(KPersistentVolumeClaim, ns, m) \<notin> update_keys ns' n" "(KPersistentVolumeClaim, ns, m) \<notin> delete_keys ns' n"
  "key_of x = (KPersistentVolumeClaim, ns, m) \<Longrightarrow> \<not> own_snapshot ns' n x"
  by (auto simp: update_keys_def delete_keys_def own_snapshot_def key_of_def)

text \<open>
  C6. Save data is safe: the savegame claim is only ever created, except that it is deleted, in a run
  that has read the server as being deleted with \<^verbatim>\<open>retainOnDelete: false\<close>. In particular a server
  that does not set \<^verbatim>\<open>retainOnDelete\<close> keeps it.
\<close>

theorem savegame_only_deleted_on_request:
  assumes "kube_snapshots p" "run_state (Reconcile p ns n) s = (r, s')"
  shows "\<exists>es. trace s' = trace s @ es \<and>
    (\<forall>ev \<in> set es. \<forall>x. written ev = Some x \<and> key_of x = (KPersistentVolumeClaim, ns, n @ ''-savegame'') \<longrightarrow>
      (\<exists>e. ev = EvCreate x e) \<or>
      (\<exists>e server. ev = EvDelete x e \<and> hd es = EvGet KServer ns n (Inr (OServer server)) \<and>
        om_DeletionTimestamp (es_Meta server) \<noteq> None \<and> RetainOnDelete (Storage (Spec server)) = Some False))"
proof -
  obtain g w where g: "cl_Get p KServer ns n (env s) = (g, w)" by (metis prod.exhaust)
  show ?thesis
  proof (cases "as_Server g")
    case (Inl err)
    with run_Reconcile(1) [OF assms(2) g] show ?thesis by (intro exI [of _ "[EvGet KServer ns n g]"]) simp
  next
    case (Inr server)
    then have server: "g = Inr (OServer server)" by (simp add: as_Inr)
    let ?get = "EvGet KServer ns n (Inr (OServer server))"
    from kube_snapshots.run_writes [OF assms] g server obtain es where es: "trace s' = trace s @ ?get # es"
      "if om_DeletionTimestamp (es_Meta server) \<noteq> None then list_all (deletion_write p server) es
       else list_all (live_write ns n) es" by (fastforce split: if_splits)
    have claim: "(\<exists>e. ev = EvCreate x e) \<or>
        (\<exists>e. ev = EvDelete x e \<and> om_DeletionTimestamp (es_Meta server) \<noteq> None \<and>
          RetainOnDelete (Storage (Spec server)) = Some False)"
      if "ev \<in> set es" "written ev = Some x" "key_of x = (KPersistentVolumeClaim, ns, n @ ''-savegame'')" for ev x
    proof (cases "om_DeletionTimestamp (es_Meta server)")
      case None
      with es that have "live_write ns n ev" by (simp add: list_all_iff)
      with that(2,3) show ?thesis
        by (cases ev) (auto simp: claim_keys)
    next
      case (Some t)
      with es that have "deletion_write p server ev" by (simp add: list_all_iff)
      with that(2,3) Some show ?thesis by (cases ev) (auto simp: key_of_def)
    qed
    show ?thesis
      by (intro exI [of _ "?get # es"] conjI es ballI allI impI) (use claim in force)
  qed
qed

definition demo_deleted :: "bool option \<Rightarrow> int EnshroudedServer" where
  "demo_deleted retain = demo\<lparr>es_Meta := (es_Meta demo)\<lparr>om_DeletionTimestamp := Some 5,
     om_Finalizers := [finalizerName]\<rparr>, Spec := demo_spec\<lparr>Storage := (Storage demo_spec)\<lparr>RetainOnDelete := retain\<rparr>\<rparr>\<rparr>"

theorem savegame_only_deleted_on_request_witness:
  "\<exists>r s'. run_state (Reconcile mem_platform ''games'' ''srv'')
       (world_init [OServer (demo_deleted None), OPersistentVolumeClaim (desiredPVC demo 0)]) = (r, s') \<and>
     (\<forall>x e. key_of x = (KPersistentVolumeClaim, ''games'', ''srv-savegame'') \<longrightarrow> EvDelete x e \<notin> set (trace s'))"
proof -
  let ?w = "world_init [OServer (demo_deleted None), OPersistentVolumeClaim (desiredPVC demo 0)]"
  obtain r s' where run: "run_state (Reconcile mem_platform ''games'' ''srv'') ?w = (r, s')"
    by (metis prod.exhaust)
  have "cl_Get mem_platform KServer ''games'' ''srv'' (env ?w) = (Inr (OServer (demo_deleted None)), env ?w)"
    by (rule mem_server_read) (simp add: world_init_def mem_init_def mem_store_def key_of_def demo_deleted_def demo_def new_meta_def gone_def)
  from kube_snapshots.run_writes [OF mem_snapshots.kube_snapshots_axioms run this]
  have "hd (trace s') = EvGet KServer ''games'' ''srv'' (Inr (OServer (demo_deleted None)))"
    by (auto simp: world_init_def)
  moreover have "RetainOnDelete (Storage (Spec (demo_deleted None))) = None" by (simp add: demo_deleted_def)
  ultimately show ?thesis
    using savegame_only_deleted_on_request [OF mem_snapshots.kube_snapshots_axioms run] run
    by (fastforce simp: world_init_def)
qed

text \<open>
  C29. The finalizer comes first: for a server that is not being deleted and does not carry it yet,
  the first call after reading it is the update that adds it; if that fails, the run returns the
  error and makes no other call.
\<close>

theorem finalizer_before_any_write:
  assumes "kube_snapshots p" "run_state (Reconcile p ns n) s = (r, s')"
    "cl_Get p KServer ns n (env s) = (Inr (OServer server), w)"
    "om_DeletionTimestamp (es_Meta server) = None" "finalizerName \<notin> set (om_Finalizers (es_Meta server))"
  shows "\<exists>fin u rest. trace s' = trace s @
      [EvGet KServer ns n (Inr (OServer server)), EvUpdate (OServer (server\<lparr>es_Meta := fin\<rparr>)) u] @ rest \<and>
    finalizerName \<in> set (om_Finalizers fin) \<and> om_Name fin = n \<and> om_Namespace fin = ns \<and>
    (\<forall>e. u = Inl e \<longrightarrow> rest = [] \<and> r = (0, Some e))"
proof -
  have own: "owner_refs p" using assms(1) by (simp add: kube_snapshots_def kube_reads_def)
  have free: "\<not> cu_ContainsFinalizer p (es_Meta server) finalizerName"
    using assms(5) owner_refs.contains_finalizer [OF own] by simp
  let ?fin = "cu_AddFinalizer p (es_Meta server) finalizerName"
  from kube_snapshots.run_writes [OF assms(1-3)] assms(4) free obtain u rest where
    tr: "trace s' = trace s @ EvGet KServer ns n (Inr (OServer server)) # EvUpdate (add_own_finalizer p server) u # rest"
    "\<forall>e. u = Inl e \<longrightarrow> rest = []" by auto
  obtain u' w' where u': "cl_Update p (add_own_finalizer p server) w = (u', w')" by (metis prod.exhaust)
  have fin: "finalizerName \<in> set (om_Finalizers ?fin)"
    using owner_refs.add_finalizer [OF own, of "es_Meta server" finalizerName] by auto
  have key: "om_Name ?fin = n" "om_Namespace ?fin = ns"
    using owner_refs.add_finalizer_fields [OF own] kube_snapshots.axioms(1) [OF assms(1)]
      kube_reads.get_key [OF _ assms(3)] by (auto simp: key_of_def)
  note run = run_Reconcile(4) [OF assms(2,3) _ assms(4) free u', simplified]
  have "u = Inl e \<Longrightarrow> r = (0, Some e)" for e
  proof (cases "as_Server u'")
    case (Inl err)
    assume "u = Inl e"
    with run Inl tr show "r = (0, Some e)" by (auto simp: after_def)
  next
    case (Inr a)
    assume "u = Inl e"
    from Inr run have "run_state (reconcileLive p a) (after (after s w (EvGet KServer ns n (Inr (OServer server)))) w'
      (EvUpdate (add_own_finalizer p server) u')) = (r, s')" by simp
    from emitsD [OF kube_snapshots.live_reconcileLive [OF assms(1)] this] tr \<open>u = Inl e\<close> Inr
    show "r = (0, Some e)" by auto
  qed
  with tr fin key show ?thesis
    by (intro exI [of _ ?fin] exI [of _ u] exI [of _ rest]) (simp add: add_own_finalizer_def)
qed

theorem finalizer_before_any_write_witness:
  "\<exists>r s' fin u rest. run_state (Reconcile mem_platform ''games'' ''srv'') (world_init [OServer demo]) = (r, s') \<and>
     trace s' = EvGet KServer ''games'' ''srv'' (Inr (OServer demo)) # EvUpdate (OServer (demo\<lparr>es_Meta := fin\<rparr>)) u # rest \<and>
     finalizerName \<in> set (om_Finalizers fin)"
proof -
  let ?w = "world_init [OServer demo]"
  obtain r s' where run: "run_state (Reconcile mem_platform ''games'' ''srv'') ?w = (r, s')"
    by (metis prod.exhaust)
  have "cl_Get mem_platform KServer ''games'' ''srv'' (env ?w) = (Inr (OServer demo), env ?w)"
    by (rule mem_server_read) (simp add: world_init_def mem_init_def mem_store_def key_of_def demo_def new_meta_def gone_def)
  from finalizer_before_any_write [OF mem_snapshots.kube_snapshots_axioms run this] run show ?thesis
    by (fastforce simp: world_init_def demo_def new_meta_def gone_def)
qed

lemma passwordHash_error:
  assumes "run_state (passwordHash p server) s = (Inl r, s')"
  shows "snd r \<noteq> None"
proof (cases "ServerPasswordSecretRef (Spec server)")
  case None
  with assms show ?thesis by (simp add: passwordHash_def)
next
  case (Some ref)
  obtain g s1 where g: "run_state (r_Get p KSecret (snamespace server) (skr_Name ref)) s = (g, s1)"
    by (metis prod.exhaust)
  from assms Some g show ?thesis
    by (cases "as_Secret g")
      (auto simp: passwordHash_def setPhaseError_def split: if_splits option.splits prod.splits)
qed

lemma annotationHash_error:
  assumes "run_state (annotationHash p server) s = (Inl r, s')"
  shows "snd r \<noteq> None"
proof (cases "UserGroups (Spec server) = []")
  case True
  obtain e s1 where e: "run_state (cleanupConfigSecret p server) s = (e, s1)" by (metis prod.exhaust)
  with assms True passwordHash_error [of p server s1 r s'] show ?thesis
    by (cases e) (auto simp: annotationHash_def)
next
  case False
  obtain e s1 where e: "run_state (reconcileConfigSecret p server) s = (e, s1)" by (metis prod.exhaust)
  with assms False show ?thesis by (cases e) (auto simp: annotationHash_def)
qed

context kube_snapshots
begin

lemma deferred_live:
  assumes "run_state (reconcileLive p server) s = (r, s')"
    "DeferWhilePlaying (UpdatePolicy (Spec server))" "0 <s ActivePlayers (Status server)"
  shows "\<exists>es. trace s' = trace s @ es \<and>
    (no_window_open p server es \<longrightarrow> list_all (sts_kept server) es \<and> (snd r = None \<longrightarrow> fst r = oneMinute))"
proof -
  obtain h s1 where h: "run_state (annotationHash p server) s = (h, s1)" by (metis prod.exhaust)
  from emitsD [OF kept_annotationHash h] obtain es1 where es1: "trace s1 = trace s @ es1" "list_all (sts_kept server) es1"
    by blast
  show ?thesis
  proof (cases h)
    case (Inl r')
    with assms(1) h annotationHash_error [of p server s r' s1] have "r = r'" "s' = s1" "snd r \<noteq> None"
      by (auto simp: reconcileLive_def)
    with es1 show ?thesis by auto
  next
    case (Inr hash)
    with assms(1) h have "run_state (reconcileObjects p server hash) s1 = (r, s')" by (simp add: reconcileLive_def)
    from deferred_objects [OF this assms(2,3)] obtain es2 where "trace s' = trace s1 @ es2"
      "no_window_open p server es2 \<longrightarrow> list_all (sts_kept server) es2 \<and> (snd r = None \<longrightarrow> fst r = oneMinute)"
      by (elim exE conjE)
    moreover have "no_window_open p server (es1 @ es2) \<Longrightarrow> no_window_open p server es2"
      by (auto simp: no_window_open_def)
    ultimately show ?thesis
      using es1 by (intro exI [of _ "es1 @ es2"]) simp
  qed
qed

lemma deferred_run:
  assumes "run_state (Reconcile p ns n) s = (r, s')"
    "cl_Get p KServer ns n (env s) = (Inr (OServer server), w)"
    "om_DeletionTimestamp (es_Meta server) = None" "finalizerName \<in> set (om_Finalizers (es_Meta server))"
    "DeferWhilePlaying (UpdatePolicy (Spec server))" "0 <s ActivePlayers (Status server)"
  shows "\<exists>es. trace s' = trace s @ es \<and>
    (no_window_open p server es \<longrightarrow>
      (\<forall>ev \<in> set es. \<forall>x. written ev = Some (OStatefulSet x) \<longrightarrow>
        vsc_Enabled (VerticalScaling (Spec server)) \<and> vsc_UpdateMode (VerticalScaling (Spec server)) = ''WhenIdle'' \<and>
        (\<exists>u. ev = EvUpdate (OStatefulSet x) u)) \<and>
      (snd r = None \<longrightarrow> fst r = oneMinute))"
proof -
  let ?get = "EvGet KServer ns n (Inr (OServer server))"
  have "cu_ContainsFinalizer p (es_Meta server) finalizerName"
    using assms(4) contains_finalizer by simp
  from run_Reconcile(3) [OF assms(1,2) _ assms(3) this]
  have "run_state (reconcileLive p server) (after s w ?get) = (r, s')" by simp
  from deferred_live [OF this assms(5,6)] obtain es where
    "trace s' = trace s @ ?get # es"
    "no_window_open p server es \<longrightarrow> list_all (sts_kept server) es \<and> (snd r = None \<longrightarrow> fst r = oneMinute)" by auto
  then show ?thesis
    by (intro exI [of _ "?get # es"]) (auto simp: no_window_open_def list_all_iff sts_kept_def)
qed

end

section \<open>What the gauges show\<close>

context metered_api
begin

lemma st_SetServerMetrics: "st (snd (run_state (SetServerMetrics p ns n ready deferred ph oldPhase inWin) s)) = st s"
  by (simp add: SetServerMetrics_def client_defs gauge_set_store gauge_delete_store)

lemma updateStatus_publishes:
  assumes "run_state (updateStatus p server d inWin) s = (None, s')"
  shows "\<exists>z. st s' (KServer, snamespace server, sname server) = Some (OServer z) \<and> UpdateDeferred (Status z) = d \<and>
    publishes (gauges s) (snamespace server) (sname server) (ReadyReplicas (Status z)) d (Phase (Status z))
      (Phase (Status server)) inWin (gauges s')"
proof -
  obtain g s1 where g: "run_state (r_Get p KStatefulSet (snamespace server) (sname server)) s = (g, s1)" by (metis prod.exhaust)
  from assms g obtain sts where sts: "(case as_StatefulSet g of
      Inl err \<Rightarrow> if IsNotFound err then Inr None else Inl err | Inr sts \<Rightarrow> Inr (Some sts)) = Inr sts"
    by (auto simp: updateStatus_def split: sum.splits if_splits)
  define changed where "changed = server\<lparr>Status := statusFor p server sts d\<rparr>"
  obtain u s2 where u: "run_state (r_StatusUpdate p (OServer changed)) s1 = (u, s2)" by (metis prod.exhaust)
  from assms g sts u obtain answer where a: "as_Server u = Inr answer"
    "s' = snd (run_state (SetServerMetrics p (snamespace answer) (sname answer) (ReadyReplicas (Status answer))
        (UpdateDeferred (Status answer)) (Phase (Status answer)) (Phase (Status server)) inWin) s2)"
    by (cases "as_Server u") (auto simp: updateStatus_def changed_def Let_def split: prod.splits)
  from u a(1) have "cl_StatusUpdate p (OServer changed) (env s1) = (Inr (OServer answer), env s2)"
    by (auto simp: r_StatusUpdate_def as_Inr split: prod.splits)
  from status_ok [OF this] obtain old where old: "st s1 (key_of (OServer changed)) = Some (OServer old)"
    "answer = old\<lparr>Status := Status changed\<rparr>" "st s2 = (st s1)(key_of (OServer changed) \<mapsto> OServer answer)" by auto
  have key: "key_of (OServer changed) = (KServer, snamespace server, sname server)"
    by (simp add: key_of_def changed_def snamespace_def sname_def)
  from store_key [OF old(1)] old(2) key have name: "snamespace answer = snamespace server" "sname answer = sname server"
    by (simp_all add: key_of_def snamespace_def sname_def)
  have same: "gauges s2 = gauges s"
    using keepsD [OF keeps_api(1) g] keepsD [OF keeps_api(2) u] by simp
  have "UpdateDeferred (Status answer) = d" by (simp add: old(2) changed_def statusFor_def Let_def split: prod.splits)
  with publishes_SetServerMetrics [of s2 "snamespace server" "sname server"] same a(2) name old(3) key
  show ?thesis by (intro exI [of _ answer]) (simp add: st_SetServerMetrics)
qed

lemma handleDeletion_clears:
  assumes "run_state (handleDeletion p server) s = ((0, None), s')" "finalizerName \<in> set (om_Finalizers (es_Meta server))"
  shows "\<exists>x answer. EvUpdate x (Inr (OServer answer)) \<in> set (trace s') \<and>
    gauges s' = (gauges s)((GReadyReplicas, [snamespace server, sname server]) := None,
      (GUpdateDeferred, [snamespace server, sname server]) := None,
      (GPhase, [snamespace server, sname server, Phase (Status answer)]) := None,
      (GMaintenanceWindowActive, [snamespace server, sname server]) := None)"
proof -
  let ?x = "OServer (server\<lparr>es_Meta := cu_RemoveFinalizer p (es_Meta server) finalizerName\<rparr>)"
  obtain e s1 where e: "run_state (deleteClaim p server) s = (e, s1)" by (metis prod.exhaust)
  obtain u s2 where u: "run_state (r_Update p ?x) s1 = (u, s2)" by (metis prod.exhaust)
  have fin: "cu_ContainsFinalizer p (es_Meta server) finalizerName" using assms(2) contains_finalizer by simp
  with assms(1) e have "e = None" by (cases e) (auto simp: handleDeletion_def)
  with assms(1) e u fin obtain answer where a: "as_Server u = Inr answer"
    "s' = snd (run_state (DeleteServerMetrics p (snamespace answer) (sname answer) (Phase (Status answer))) s2)"
    by (cases "as_Server u") (auto simp: handleDeletion_def split: prod.splits)
  from u a(1) have c: "cl_Update p ?x (env s1) = (Inr (OServer answer), env s2)" "trace s2 = trace s1 @ [EvUpdate ?x (Inr (OServer answer))]"
    by (auto simp: r_Update_def as_Inr split: prod.splits)
  from update_key [OF c(1)] have name: "snamespace answer = snamespace server" "sname answer = sname server"
    by (simp_all add: key_of_def snamespace_def sname_def remove_finalizer)
  have "keeps gauges (deleteClaim p server)"
    unfolding deleteClaim_def Let_def by (intro keeps_intros)
  then have same: "gauges s2 = gauges s" using keepsD [OF _ e] keepsD [OF keeps_api(3) u] by simp
  have "EvUpdate ?x (Inr (OServer answer)) \<in> set (trace s')"
    using c(2) by (simp add: a(2) DeleteServerMetrics_def client_defs)
  with gval_DeleteServerMetrics [of "snamespace server" "sname server" "Phase (Status answer)" s2] same a(2) name
  show ?thesis by metis
qed

end

text \<open>
  C26. The gauges follow the status. A successful \<^verbatim>\<open>updateStatus\<close> publishes what it has stored: ready
  replicas, deferral and window as numbers, the stored phase as a series with the value 1; of the
  phase series that were there it removes exactly that of the phase the server had before, so there
  is one series afterwards if no other was left over; series of other servers stay. A successful
  \<^verbatim>\<open>handleDeletion\<close> of a server with the finalizer removes the server's three numbers and the series of
  the phase in the answer to its last update, and nothing else.
\<close>

theorem gauges_follow_status:
  assumes "metered_api p store accept gval"
  shows "(run_state (updateStatus p server d inWin) s = (None, s') \<longrightarrow>
      (\<exists>z. store (env s') (KServer, snamespace server, sname server) = Some (OServer z) \<and> UpdateDeferred (Status z) = d \<and>
        publishes (gval (env s)) (snamespace server) (sname server) (ReadyReplicas (Status z)) d (Phase (Status z))
          (Phase (Status server)) inWin (gval (env s')))) \<and>
    (run_state (handleDeletion p server) s = ((0, None), s') \<and> finalizerName \<in> set (om_Finalizers (es_Meta server)) \<longrightarrow>
      (\<exists>x answer. EvUpdate x (Inr (OServer answer)) \<in> set (trace s') \<and>
        gval (env s') = (gval (env s))((GReadyReplicas, [snamespace server, sname server]) := None,
          (GUpdateDeferred, [snamespace server, sname server]) := None,
          (GPhase, [snamespace server, sname server, Phase (Status answer)]) := None,
          (GMaintenanceWindowActive, [snamespace server, sname server]) := None)))"
  using metered_api.updateStatus_publishes [OF assms] metered_api.handleDeletion_clears [OF assms] by blast

lemma demo_status_stored:
  "\<exists>s'. run_state (updateStatus mem_platform demo False True) (world_init [OServer demo]) = (None, s')"
  by (simp add: updateStatus_def r_Get_def r_StatusUpdate_def mem_Get_def mem_store_def notFound_def IsNotFound_def
      world_init_def mem_init_def key_of_def demo_def new_meta_def gone_def Let_def SetServerMetrics_def client_defs)

lemma demo_deletion_done:
  "\<exists>s'. run_state (handleDeletion mem_platform (demo_deleted None)) (world_init [OServer (demo_deleted None)]) = ((0, None), s')"
  by (simp add: handleDeletion_def deleteClaim_def DeleteServerMetrics_def client_defs mem_Update_def mem_put_def
      mem_accept.simps mem_eval demo_deleted_def sname_def snamespace_def)

theorem gauges_follow_status_witness:
  "(\<exists>s'. run_state (updateStatus mem_platform demo False True) (world_init [OServer demo]) = (None, s') \<and>
     mem_gval (env s') (GMaintenanceWindowActive, [''games'', ''srv'']) = Some 1 \<and>
     (\<exists>ph. phases (mem_gval (env s')) ''games'' ''srv'' = {ph})) \<and>
   (\<exists>s'. run_state (handleDeletion mem_platform (demo_deleted None)) (world_init [OServer (demo_deleted None)]) = ((0, None), s') \<and>
     mem_gval (env s') (GReadyReplicas, [''games'', ''srv'']) = None)"
proof -
  obtain s' where run: "run_state (updateStatus mem_platform demo False True) (world_init [OServer demo]) = (None, s')"
    using demo_status_stored by blast
  have none: "phases (mem_gval (env (world_init [OServer demo]))) ''games'' ''srv'' = {}"
    by (simp add: phases_def mem_gval_def world_init_def mem_init_def)
  from gauges_follow_status [OF mem_metered.metered_api_axioms, of demo False True "world_init [OServer demo]" s'] run
  obtain ready ph oldPhase where "publishes (mem_gval (env (world_init [OServer demo]))) ''games'' ''srv'' ready False ph oldPhase True (mem_gval (env s'))"
    by auto
  then have "mem_gval (env s') (GMaintenanceWindowActive, [''games'', ''srv'']) = Some 1"
    "phases (mem_gval (env s')) ''games'' ''srv'' = {ph}"
    using none by (simp_all add: publishes_def)
  moreover obtain t' where del: "run_state (handleDeletion mem_platform (demo_deleted None)) (world_init [OServer (demo_deleted None)]) = ((0, None), t')"
    using demo_deletion_done by blast
  have "snamespace (demo_deleted None) = ''games''" "sname (demo_deleted None) = ''srv''"
    "finalizerName \<in> set (om_Finalizers (es_Meta (demo_deleted None)))"
    by (simp_all add: demo_deleted_def demo_def new_meta_def sname_def snamespace_def)
  with gauges_follow_status [OF mem_metered.metered_api_axioms, of "demo_deleted None" False True "world_init [OServer (demo_deleted None)]" t'] del
  have "mem_gval (env t') (GReadyReplicas, [''games'', ''srv'']) = None" by auto
  ultimately show ?thesis using run del by blast
qed

section \<open>Updates while players are connected\<close>

text \<open>
  C1. Players are not thrown out: for a server that carries the finalizer and is not being deleted, when
  \<^verbatim>\<open>deferWhilePlaying\<close> is set, players are connected and no
  maintenance window is open whenever the run reads the clock, then the run writes no StatefulSet,
  except that a recommendation of the autoscaler may be applied in the mode \<^verbatim>\<open>WhenIdle\<close>, and if it
  succeeds it asks to come back after one minute.
\<close>

theorem updates_deferred_while_playing:
  assumes "kube_snapshots p" "run_state (Reconcile p ns n) s = (r, s')"
    "cl_Get p KServer ns n (env s) = (Inr (OServer server), w)"
    "om_DeletionTimestamp (es_Meta server) = None" "finalizerName \<in> set (om_Finalizers (es_Meta server))"
    "DeferWhilePlaying (UpdatePolicy (Spec server))" "0 <s ActivePlayers (Status server)"
  shows "\<exists>es. trace s' = trace s @ es \<and>
    (no_window_open p server es \<longrightarrow>
      (\<forall>ev \<in> set es. \<forall>x. written ev = Some (OStatefulSet x) \<longrightarrow>
        vsc_Enabled (VerticalScaling (Spec server)) \<and> vsc_UpdateMode (VerticalScaling (Spec server)) = ''WhenIdle'' \<and>
        (\<exists>u. ev = EvUpdate (OStatefulSet x) u)) \<and>
      (snd r = None \<longrightarrow> fst r = oneMinute))"
  using assms by (rule kube_snapshots.deferred_run)

definition demo_playing :: "int EnshroudedServer" where
  "demo_playing = demo\<lparr>es_Meta := (es_Meta demo)\<lparr>om_Finalizers := [finalizerName]\<rparr>,
     Status := (Status demo)\<lparr>ActivePlayers := 3\<rparr>\<rparr>"

theorem updates_deferred_while_playing_witness:
  "\<exists>r s'. run_state (Reconcile mem_platform ''games'' ''srv'') (world_init [OServer demo_playing]) = (r, s') \<and>
     (\<forall>ev \<in> set (trace s'). \<forall>x. written ev \<noteq> Some (OStatefulSet x)) \<and> (snd r = None \<longrightarrow> fst r = oneMinute)"
proof -
  let ?w = "world_init [OServer demo_playing]"
  obtain r s' where run: "run_state (Reconcile mem_platform ''games'' ''srv'') ?w = (r, s')"
    by (metis prod.exhaust)
  have "cl_Get mem_platform KServer ''games'' ''srv'' (env ?w) = (Inr (OServer demo_playing), env ?w)"
    by (rule mem_server_read) (simp add: world_init_def mem_init_def mem_store_def key_of_def demo_playing_def demo_def new_meta_def gone_def)
  moreover have "om_DeletionTimestamp (es_Meta demo_playing) = None"
    "finalizerName \<in> set (om_Finalizers (es_Meta demo_playing))"
    "DeferWhilePlaying (UpdatePolicy (Spec demo_playing))" "0 <s ActivePlayers (Status demo_playing)"
    by (simp_all add: demo_playing_def demo_def new_meta_def demo_spec_def word_sless_alt)
  ultimately obtain es where es: "trace s' = trace ?w @ es"
    "no_window_open mem_platform demo_playing es \<longrightarrow>
      (\<forall>ev \<in> set es. \<forall>x. written ev = Some (OStatefulSet x) \<longrightarrow> vsc_Enabled (VerticalScaling (Spec demo_playing))) \<and>
      (snd r = None \<longrightarrow> fst r = oneMinute)"
    using updates_deferred_while_playing [OF mem_snapshots.kube_snapshots_axioms run] by meson
  have "no_window_open mem_platform demo_playing es" "\<not> vsc_Enabled (VerticalScaling (Spec demo_playing))"
    by (simp_all add: demo_playing_def demo_def demo_spec_def no_window_open_def)
  with es run show ?thesis by (auto simp: world_init_def)
qed

end
