(* ===== verification/Convergence.thy ===== *)
theory Convergence
  imports Reconciler
begin

text \<open>
  What a run of \<^verbatim>\<open>Reconcile\<close> has achieved when it reports success, on an API server that keeps its
  promises (locale \<open>kube_api\<close>): for a live server every child object is in the store with the
  content the code wants, and the status is that of the stored StatefulSet; for a server that is
  being deleted the finalizer is gone and the savegame claim is kept or deleted as requested.

  The proofs compose the outcomes of the single operations: each touches a known set of keys and
  leaves its object behind, and what one has left is not touched by the next.
\<close>

section \<open>Composing outcomes\<close>

definition touches :: "okey set \<Rightarrow> (okey \<Rightarrow> 'q kobj option) \<Rightarrow> (okey \<Rightarrow> 'q kobj option) \<Rightarrow> bool" where
  "touches T S S' \<longleftrightarrow> (\<forall>k. k \<notin> T \<longrightarrow> S' k = S k)"

text \<open>
  \<open>leaves store T P m\<close>: \<open>m\<close> changes the objects in \<open>T\<close> only, and if it succeeds the store before and the
  store after are related by \<open>P\<close>. \<open>P\<close> is \<open>stable\<close> under steps that touch only \<open>U\<close> if such steps before or
  after do not matter to it.
\<close>

definition leaves ::
  "('w \<Rightarrow> okey \<Rightarrow> 'q kobj option) \<Rightarrow> okey set \<Rightarrow> ((okey \<Rightarrow> 'q kobj option) \<Rightarrow> (okey \<Rightarrow> 'q kobj option) \<Rightarrow> bool) \<Rightarrow>
   ('w, 'q, gerror option) M \<Rightarrow> bool" where
  "leaves store T P m \<longleftrightarrow> (\<forall>S. runs store S m (\<lambda>e S'. touches T S S' \<and> (e = None \<longrightarrow> P S S')))"

definition stable :: "okey set \<Rightarrow> ((okey \<Rightarrow> 'q kobj option) \<Rightarrow> (okey \<Rightarrow> 'q kobj option) \<Rightarrow> bool) \<Rightarrow> bool" where
  "stable U P \<longleftrightarrow> (\<forall>S S1 S2. touches U S1 S2 \<longrightarrow> P S S1 \<longrightarrow> P S S2) \<and>
     (\<forall>S S1 S2. touches U S S1 \<longrightarrow> P S1 S2 \<longrightarrow> P S S2)"

lemma touchesD: "touches T S S' \<Longrightarrow> k \<notin> T \<Longrightarrow> S' k = S k"
  unfolding touches_def by blast

lemma touches_mono: "touches T S S' \<Longrightarrow> T \<subseteq> U \<Longrightarrow> touches U S S'"
  unfolding touches_def by blast

lemma touches_trans: "touches T S S1 \<Longrightarrow> touches U S1 S2 \<Longrightarrow> touches (T \<union> U) S S2"
  by (simp add: touches_def)

lemma stableD:
  "stable U P \<Longrightarrow> touches U S1 S2 \<Longrightarrow> P S S1 \<Longrightarrow> P S S2"
  "stable U P \<Longrightarrow> touches U S S1 \<Longrightarrow> P S1 S2 \<Longrightarrow> P S S2"
  unfolding stable_def by blast+

lemma leavesI: "(\<And>S. runs store S m (\<lambda>e S'. touches T S S' \<and> (e = None \<longrightarrow> P S S'))) \<Longrightarrow> leaves store T P m"
  by (simp add: leaves_def)

lemma leavesD: "leaves store T P m \<Longrightarrow> runs store S m (\<lambda>e S'. touches T S S' \<and> (e = None \<longrightarrow> P S S'))"
  by (simp add: leaves_def)

lemma leaves_seq:
  assumes "leaves store T P m" "leaves store U Q k" "stable U P" "stable T Q"
  shows "leaves store (T \<union> U) (\<lambda>S S'. P S S' \<and> Q S S') (seq_err m k)"
proof (rule leavesI, rule runs_seq_err, rule runs_conseq [OF leavesD [OF assms(1)]])
  fix S e S1
  assume 1: "touches T S S1 \<and> (e = None \<longrightarrow> P S S1)"
  show "case e of Some x \<Rightarrow> touches (T \<union> U) S S1 \<and> (Some x = None \<longrightarrow> P S S1 \<and> Q S S1)
    | None \<Rightarrow> runs store S1 k (\<lambda>e S'. touches (T \<union> U) S S' \<and> (e = None \<longrightarrow> P S S' \<and> Q S S'))"
  proof (cases e)
    case None
    then have "runs store S1 k (\<lambda>e S'. touches (T \<union> U) S S' \<and> (e = None \<longrightarrow> P S S' \<and> Q S S'))"
      using 1 stableD(1) [OF assms(3)] stableD(2) [OF assms(4)]
      by (intro runs_conseq [OF leavesD [OF assms(2)]]) (auto intro: touches_trans)
    with None show ?thesis by simp
  next
    case (Some x)
    with 1 show ?thesis by (simp add: touches_def)
  qed
qed

lemma leaves_if:
  "leaves store T P m \<Longrightarrow> leaves store T (\<lambda>S S'. b \<longrightarrow> P S S') (if b then m else State_Monad.return None)"
  by (auto simp: leaves_def touches_def intro: runs_return)

lemma stable_conj: "stable T P \<Longrightarrow> stable T Q \<Longrightarrow> stable T (\<lambda>S S'. P S S' \<and> Q S S')"
  unfolding stable_def by blast

lemma stable_const: "stable T (\<lambda>S S'. b)" "stable T P \<Longrightarrow> stable T (\<lambda>S S'. b \<longrightarrow> P S S')"
  unfolding stable_def by blast+

text \<open>
  \<open>present accept K keep good S S'\<close>: the object under a key is the one that was there before, and that
  one is to keep, or what the server made of an object that is good for what was there before.
  \<open>rewritten\<close> says the latter without naming the moment before.
\<close>

definition present ::
  "('q kobj option \<Rightarrow> 'q kobj \<Rightarrow> 'q kobj) \<Rightarrow> okey \<Rightarrow> ('q kobj \<Rightarrow> bool) \<Rightarrow>
   ('q kobj option \<Rightarrow> 'q kobj \<Rightarrow> bool) \<Rightarrow> (okey \<Rightarrow> 'q kobj option) \<Rightarrow> (okey \<Rightarrow> 'q kobj option) \<Rightarrow> bool" where
  "present accept K keep good S S' \<longleftrightarrow>
     (\<exists>x. S' K = Some x \<and> (S K = Some x \<and> keep x \<or> (\<exists>y. good (S K) y \<and> x = accept (S K) y)))"

definition rewritten ::
  "('q kobj option \<Rightarrow> 'q kobj \<Rightarrow> 'q kobj) \<Rightarrow> okey \<Rightarrow> ('q kobj option \<Rightarrow> 'q kobj \<Rightarrow> bool) \<Rightarrow>
   (okey \<Rightarrow> 'q kobj option) \<Rightarrow> bool" where
  "rewritten accept K good S' \<longleftrightarrow> (\<exists>old y. S' K = Some (accept old y) \<and> good old y)"

lemma stable_present: "K \<notin> T \<Longrightarrow> stable T (present accept K keep good)"
  by (auto simp: stable_def present_def touchesD)

lemma stable_rewritten: "K \<notin> T \<Longrightarrow> stable T (\<lambda>S. rewritten accept K good)"
  by (auto simp: stable_def rewritten_def touchesD)

lemma put_present: "put accept K good S S' \<Longrightarrow> present accept K keep good S S'"
  by (auto simp: put_def present_def)

lemma leaves_ensures:
  assumes "\<And>S. runs store S m (ensures accept K keep good S)"
  shows "leaves store {K} (present accept K keep good) m"
proof (rule leavesI, rule runs_conseq [OF assms])
  fix S e S'
  assume "ensures accept K keep good S e S'"
  then show "touches {K} S S' \<and> (e = None \<longrightarrow> present accept K keep good S S')"
    unfolding ensures_def touches_def using put_present [of accept K good S S' keep] by (auto simp: present_def)
qed

lemmas stable_intros = stable_conj stable_const stable_present stable_rewritten

section \<open>The objects of a live server\<close>

text \<open>What is left of a deleted object: nothing, or an object marked for deletion.\<close>

definition deleted :: "'q kobj option \<Rightarrow> bool" where
  "deleted x \<longleftrightarrow> (\<forall>y. x = Some y \<longrightarrow> om_DeletionTimestamp (meta_of y) \<noteq> None)"

text \<open>
  The VerticalPodAutoscaler. \<^verbatim>\<open>reconcileVPA\<close> also succeeds when the custom resource is not installed or
  the object cannot be read; then it stays as it is, and so does one whose mode is right (bounds alone
  are not compared). Otherwise it is gone when vertical scaling is off, and when it is on it is
  written with the wanted mode and bounds.
\<close>

definition vpa_good :: "('w, 'q) platform \<Rightarrow> 'q EnshroudedServer \<Rightarrow> 'q kobj option \<Rightarrow> 'q kobj \<Rightarrow> bool" where
  "vpa_good p server old x \<longleftrightarrow>
    (let vs = VerticalScaling (Spec server);
         bounds = (\<lambda>rl. if rl = Map.empty then None else Some (\<lambda>k. map_option (q_String p) (rl k))) in
     \<exists>y. x = OVerticalPodAutoscaler y \<and>
       vpa_UpdateMode y = Some (if vsc_UpdateMode vs = ''InPlace'' then ''InPlace'' else ''Off'') \<and>
       vpa_ContainerPolicies y = [\<lparr>cpol_ContainerName = ''enshrouded-server'',
         cpol_MinAllowed = bounds (vsc_MinAllowed vs), cpol_MaxAllowed = bounds (vsc_MaxAllowed vs)\<rparr>] \<and>
       (case old of
          Some (OVerticalPodAutoscaler z) \<Rightarrow>
            y = z\<lparr>vpa_UpdateMode := vpa_UpdateMode y, vpa_ContainerPolicies := vpa_ContainerPolicies y\<rparr>
        | _ \<Rightarrow> owned_by server (vpa_Meta y) \<and> vpa_TargetKind y = ''StatefulSet'' \<and> vpa_TargetName y = sname server))"

definition vpa_settled ::
  "('w, 'q) platform \<Rightarrow> ('q kobj option \<Rightarrow> 'q kobj \<Rightarrow> 'q kobj) \<Rightarrow> 'q EnshroudedServer \<Rightarrow>
   (okey \<Rightarrow> 'q kobj option) \<Rightarrow> (okey \<Rightarrow> 'q kobj option) \<Rightarrow> bool" where
  "vpa_settled p accept server S S' \<longleftrightarrow>
    (let K = (KVerticalPodAutoscaler, snamespace server, sname server) in
     S' K = S K \<or>
     (if vsc_Enabled (VerticalScaling (Spec server)) then present accept K (\<lambda>_. False) (vpa_good p server) S S'
      else deleted (S' K)))"

lemma vpa_good_created:
  "owned_by server m \<Longrightarrow> vpa_good p server None (OVerticalPodAutoscaler ((desiredVPA p server)\<lparr>vpa_Meta := m\<rparr>))"
  by (simp add: vpa_good_def desiredVPA_def vpaMode_def containerPolicyFor_def resourceListToMap_def api_consts Let_def)

lemma vpa_good_updated:
  "vpa_good p server (Some (OVerticalPodAutoscaler z)) (OVerticalPodAutoscaler
     (z\<lparr>vpa_UpdateMode := Some (vpaMode server), vpa_ContainerPolicies := [containerPolicyFor p server]\<rparr>))"
  by (simp add: vpa_good_def vpaMode_def containerPolicyFor_def resourceListToMap_def api_consts Let_def)

lemma stable_vpa_settled:
  "(KVerticalPodAutoscaler, snamespace server, sname server) \<notin> T \<Longrightarrow> stable T (vpa_settled p accept server)"
  by (auto simp: stable_def vpa_settled_def present_def touchesD)

text \<open>
  The claim, the service account and the role binding are created once and then left alone; the
  other objects are brought to the wanted content.
\<close>

definition objects_present ::
  "('w, 'q) platform \<Rightarrow> ('q kobj option \<Rightarrow> 'q kobj \<Rightarrow> 'q kobj) \<Rightarrow> 'q EnshroudedServer \<Rightarrow>
   (okey \<Rightarrow> 'q kobj option) \<Rightarrow> (okey \<Rightarrow> 'q kobj option) \<Rightarrow> bool" where
  "objects_present p accept server S S' \<longleftrightarrow>
     (let ns = snamespace server; n = sname server in
      present accept (KPersistentVolumeClaim, ns, n @ ''-savegame'') (\<lambda>_. True) (pvc_good p server) S S' \<and>
      (ms_Enabled (MetricsSidecar (Spec server)) \<longrightarrow>
        present accept (KServiceAccount, ns, n @ ''-metrics'') (\<lambda>_. True) (serviceaccount_good server) S S' \<and>
        present accept (KRole, ns, n @ ''-metrics'') (\<lambda>_. False) (role_good server) S S' \<and>
        present accept (KRoleBinding, ns, n @ ''-metrics'') (\<lambda>_. True) (rolebinding_good server) S S') \<and>
      present accept (KPodDisruptionBudget, ns, n) (pdb_keep server) (pdb_good server) S S' \<and>
      present accept (KNetworkPolicy, ns, n @ ''-netpol'') (\<lambda>_. False) (netpol_good server) S S' \<and>
      vpa_settled p accept server S S')"

definition workload_present ::
  "('q kobj option \<Rightarrow> 'q kobj \<Rightarrow> 'q kobj) \<Rightarrow> 'q EnshroudedServer \<Rightarrow> string \<Rightarrow>
   (okey \<Rightarrow> 'q kobj option) \<Rightarrow> (okey \<Rightarrow> 'q kobj option) \<Rightarrow> bool" where
  "workload_present accept server hash S S' \<longleftrightarrow>
     rewritten accept (KStatefulSet, snamespace server, sname server) (sts_good server hash) S' \<and>
     present accept (KService, snamespace server, sname server) (\<lambda>_. False) (service_good server) S S'"

definition prepared_keys :: "'q EnshroudedServer \<Rightarrow> okey set" where
  "prepared_keys server = {KPersistentVolumeClaim, KServiceAccount, KRole, KRoleBinding, KPodDisruptionBudget,
     KVerticalPodAutoscaler, KStatefulSet, KNetworkPolicy} \<times> UNIV"

definition workload_keys :: "'q EnshroudedServer \<Rightarrow> okey set" where
  "workload_keys server = {KStatefulSet, KService, KVolumeSnapshot} \<times> UNIV"

lemma leaves_mono: "leaves store T P m \<Longrightarrow> T \<subseteq> U \<Longrightarrow> (\<And>S S'. P S S' \<Longrightarrow> Q S S') \<Longrightarrow> leaves store U Q m"
  by (unfold leaves_def, intro allI, erule allE, erule runs_conseq) (blast intro: touches_mono)

definition stored_sts :: "(okey \<Rightarrow> 'q kobj option) \<Rightarrow> 'q EnshroudedServer \<Rightarrow> 'q StatefulSet option" where
  "stored_sts S server =
     (case S (KStatefulSet, snamespace server, sname server) of Some (OStatefulSet x) \<Rightarrow> Some x | _ \<Rightarrow> None)"

text \<open>The status that follows from the stored StatefulSet is stored, nothing else of the server changed.\<close>

definition status_current ::
  "('w, 'q) platform \<Rightarrow> 'q EnshroudedServer \<Rightarrow> (okey \<Rightarrow> 'q kobj option) \<Rightarrow> (okey \<Rightarrow> 'q kobj option) \<Rightarrow> bool" where
  "status_current p server S S' \<longleftrightarrow>
     (\<exists>old. S (KServer, snamespace server, sname server) = Some (OServer old) \<and>
        S' (KServer, snamespace server, sname server) =
          Some (OServer (old\<lparr>Status := statusFor p server (stored_sts S' server) False\<rparr>)))"

text \<open>Where the annotation comes from: the stored configuration, or the referenced password.\<close>

definition hash_from ::
  "('q kobj option \<Rightarrow> 'q kobj \<Rightarrow> 'q kobj) \<Rightarrow> (okey \<Rightarrow> 'q kobj option) \<Rightarrow> (okey \<Rightarrow> 'q kobj option) \<Rightarrow>
   'q EnshroudedServer \<Rightarrow> string \<Rightarrow> bool" where
  "hash_from accept S S' server hash \<longleftrightarrow>
     (if UserGroups (Spec server) \<noteq> []
      then hash = sha256hex (json_text (server_settings S server)) \<and>
        present accept (configKey server) (\<lambda>_. False) (config_good server (json_text (server_settings S server))) S S'
      else case ServerPasswordSecretRef (Spec server) of
         None \<Rightarrow> hash = ''''
       | Some ref \<Rightarrow> (\<exists>x d. S' (KSecret, snamespace server, skr_Name ref) = Some (OSecret x) \<and>
           sec_Data x (skr_Key ref) = Some d \<and> hash = sha256hex d))"

lemma objects_stable:
  assumes "T \<subseteq> {KSecret, KServer, KStatefulSet, KService, KVolumeSnapshot} \<times> UNIV"
  shows "stable T (objects_present p accept server)"
  unfolding objects_present_def Let_def by (intro stable_intros stable_vpa_settled) (use assms in auto)

context kube_api
begin

lemma leaves_RBAC:
  "leaves store {(KServiceAccount, snamespace server, sname server @ ''-metrics''),
       (KRole, snamespace server, sname server @ ''-metrics''), (KRoleBinding, snamespace server, sname server @ ''-metrics'')}
     (\<lambda>S S'. ms_Enabled (MetricsSidecar (Spec server)) \<longrightarrow>
        present accept (KServiceAccount, snamespace server, sname server @ ''-metrics'') (\<lambda>_. True) (serviceaccount_good server) S S' \<and>
        present accept (KRole, snamespace server, sname server @ ''-metrics'') (\<lambda>_. False) (role_good server) S S' \<and>
        present accept (KRoleBinding, snamespace server, sname server @ ''-metrics'') (\<lambda>_. True) (rolebinding_good server) S S')
     (reconcileMetricsSidecarRBAC p server)"
proof -
  note parts = leaves_ensures [OF runs_reconcileSidecarServiceAccount, of server, unfolded sidecarServiceAccountName_def]
    leaves_ensures [OF runs_reconcileSidecarRole, of server, unfolded sidecarServiceAccountName_def]
    leaves_ensures [OF runs_reconcileSidecarRoleBinding, of server, unfolded sidecarServiceAccountName_def]
  have "leaves store {(KServiceAccount, snamespace server, sname server @ ''-metrics''),
       (KRole, snamespace server, sname server @ ''-metrics''), (KRoleBinding, snamespace server, sname server @ ''-metrics'')}
     (\<lambda>S S'. ms_Enabled (MetricsSidecar (Spec server)) \<longrightarrow>
        present accept (KServiceAccount, snamespace server, sname server @ ''-metrics'') (\<lambda>_. True) (serviceaccount_good server) S S' \<and>
        present accept (KRole, snamespace server, sname server @ ''-metrics'') (\<lambda>_. False) (role_good server) S S' \<and>
        present accept (KRoleBinding, snamespace server, sname server @ ''-metrics'') (\<lambda>_. True) (rolebinding_good server) S S')
     (if ms_Enabled (MetricsSidecar (Spec server)) then seq_err (reconcileSidecarServiceAccount p server)
            (seq_err (reconcileSidecarRole p server) (reconcileSidecarRoleBinding p server)) else State_Monad.return None)"
    by (rule leaves_if, rule leaves_mono [OF leaves_seq [OF parts(1) leaves_seq [OF parts(2,3)]]])
      (auto intro!: stable_intros)
  then show ?thesis by (simp add: reconcileMetricsSidecarRBAC_def if_distrib cong: if_cong)
qed

lemma runs_reconcileVPA_settles:
  "runs store S (reconcileVPA p server)
     (\<lambda>e S'. (\<forall>k. k \<noteq> (KVerticalPodAutoscaler, snamespace server, sname server) \<longrightarrow> S' k = S k) \<and>
       (e = None \<longrightarrow> vpa_settled p accept server S S'))"
  unfolding reconcileVPA_def
  by (intro runs_intros)
    (auto simp: as_Inr key_of_def set_owner_fields Let_def IgnoreNotFound_def vpa_settled_def present_def deleted_def
      intro: vpa_good_updated dest: as_notfound split: if_splits option.splits,
     (blast intro: vpa_good_created set_owner_fields)+)

lemma leaves_VPA:
  "leaves store {(KVerticalPodAutoscaler, snamespace server, sname server)} (vpa_settled p accept server) (reconcileVPA p server)"
  "leaves store {(KStatefulSet, snamespace server, sname server)} (\<lambda>S S'. True) (applyVPARecommendation p server)"
  by (rule leavesI, rule runs_conseq [OF runs_reconcileVPA_settles], simp add: touches_def)
     (rule leavesI, rule runs_conseq [OF runs_applyVPARecommendation], simp add: touches_def)

lemma leaves_prepareObjects:
  "leaves store (prepared_keys server) (objects_present p accept server) (prepareObjects p server)"
  unfolding prepareObjects_def
  by (rule leaves_mono [OF leaves_seq [OF leaves_ensures [OF runs_reconcilePVC]
        leaves_seq [OF leaves_RBAC leaves_seq [OF leaves_ensures [OF runs_reconcilePDB]
        leaves_seq [OF leaves_VPA(1) leaves_seq [OF leaves_VPA(2) leaves_ensures [OF runs_reconcileNetworkPolicy]]]]]]])
    (auto intro!: stable_intros stable_vpa_settled simp: prepared_keys_def objects_present_def Let_def pvcName_def)

lemma leaves_snapshots:
  "leaves store ({KVolumeSnapshot} \<times> UNIV) (\<lambda>S S'. True) (reconcileVolumeSnapshot p server)"
  "leaves store {} (\<lambda>S S'. True) (reconcileS3Sidecar p server)"
  by (rule leavesI, rule runs_reconcileVolumeSnapshot, simp add: touches_def same_but_snapshots_def)
     (rule leavesI, rule runs_reconcileS3Sidecar, simp add: touches_def)

lemma leaves_StatefulSet:
  "leaves store ({(KStatefulSet, snamespace server, sname server)} \<union> {KVolumeSnapshot} \<times> UNIV)
     (\<lambda>S. rewritten accept (KStatefulSet, snamespace server, sname server) (sts_good server hash))
     (reconcileStatefulSet p server hash)"
  by (rule leavesI, rule runs_conseq [OF runs_reconcileStatefulSet]) (auto simp: touches_def rewritten_def)

lemma leaves_reconcileWorkload:
  "leaves store (workload_keys server) (workload_present accept server hash) (reconcileWorkload p server hash False)"
  unfolding reconcileWorkload_def
  by (simp, rule leaves_mono [OF leaves_seq [OF leaves_StatefulSet leaves_seq [OF leaves_ensures [OF runs_reconcileService]
        leaves_seq [OF leaves_snapshots(2,1)]]]])
    (auto intro!: stable_intros simp: workload_keys_def workload_present_def)

lemma runs_updateStatus:
  "runs store S (updateStatus p server d w) (\<lambda>e S'. touches {(KServer, snamespace server, sname server)} S S' \<and>
     (e = None \<longrightarrow> (\<exists>old. S (KServer, snamespace server, sname server) = Some (OServer old) \<and>
        S' (KServer, snamespace server, sname server) =
          Some (OServer (old\<lparr>Status := statusFor p server (stored_sts S server) d\<rparr>)))))"
  unfolding updateStatus_def SetServerMetrics_def
  by (intro runs_intros)
    (auto simp: touches_def key_of_def as_Inr stored_sts_def snamespace_def sname_def dest!: as_notfound split: if_splits sum.splits)

lemma runs_annotationHash:
  "runs store S (annotationHash p server)
     (\<lambda>r S'. \<forall>hash. r = Inr hash \<longrightarrow> touches {configKey server} S S' \<and> hash_from accept S S' server hash)"
proof (cases "UserGroups (Spec server) = []")
  case True
  have pw: "runs store S' (passwordHash p server) (\<lambda>r S2. \<forall>hash. r = Inr hash \<longrightarrow> S2 = S' \<and>
      (case ServerPasswordSecretRef (Spec server) of
         None \<Rightarrow> hash = ''''
       | Some ref \<Rightarrow> (\<exists>x d. S' (KSecret, snamespace server, skr_Name ref) = Some (OSecret x) \<and>
           sec_Data x (skr_Key ref) = Some d \<and> hash = sha256hex d)))" for S'
    unfolding passwordHash_def setPhaseError_def
    by (intro runs_intros) (auto simp: as_Inr)
  show ?thesis
    unfolding annotationHash_def using True
    by (simp, intro runs_bind runs_conseq [OF runs_cleanupConfigSecret])
      (auto split: option.split intro!: runs_return runs_conseq [OF pw] simp: touches_def hash_from_def)
next
  case False
  then show ?thesis
    unfolding annotationHash_def
    by (simp, intro runs_bind runs_conseq [OF runs_reconcileConfigSecret])
      (auto split: sum.splits intro!: runs_return simp: touches_def hash_from_def configText_settings intro: put_present)
qed

lemma runs_finishObjects:
  "runs store S (finishObjects p server hash d) (\<lambda>r S'. r = (0, None) \<longrightarrow>
     touches (workload_keys server \<union> {(KServer, snamespace server, sname server)}) S S' \<and>
     workload_present accept server hash S S' \<and> status_current p server S S')"
proof (cases d)
  case True
  have "fst r \<noteq> 0" if "run_state (finishObjects p server hash d) s = (r, s')" "snd r = None" for r s s'
    using finishObjects_result that True by (fastforce simp: oneMinute_def)
  then show ?thesis by (intro runsI) (metis fst_conv snd_conv)
next
  case False
  have upd: "runs store S' (updateStatus p server False w)
      (\<lambda>e S2. e = None \<longrightarrow> touches (workload_keys server \<union> {(KServer, snamespace server, sname server)}) S S2 \<and>
         workload_present accept server hash S S2 \<and> status_current p server S S2)"
    if "touches (workload_keys server) S S'" "workload_present accept server hash S S'" for S' w
  proof (rule runs_conseq [OF runs_updateStatus], intro impI)
    fix e S2
    assume *: "touches {(KServer, snamespace server, sname server)} S' S2 \<and>
      (e = None \<longrightarrow> (\<exists>old. S' (KServer, snamespace server, sname server) = Some (OServer old) \<and>
        S2 (KServer, snamespace server, sname server) =
          Some (OServer (old\<lparr>Status := statusFor p server (stored_sts S' server) False\<rparr>))))" and "e = None"
    have "stable {(KServer, snamespace server, sname server)} (workload_present accept server hash)"
      unfolding workload_present_def by (intro stable_intros) simp_all
    then have "workload_present accept server hash S S2" using * that(2) stableD(1) by blast
    moreover have "stored_sts S' server = stored_sts S2 server" "S (KServer, snamespace server, sname server) = S' (KServer, snamespace server, sname server)"
      using touchesD * that(1) by (simp_all add: stored_sts_def touches_def workload_keys_def)
    ultimately show "touches (workload_keys server \<union> {(KServer, snamespace server, sname server)}) S S2 \<and>
         workload_present accept server hash S S2 \<and> status_current p server S S2"
      using * \<open>e = None\<close> touches_trans [OF that(1) conjunct1 [OF *]] by (simp add: status_current_def)
  qed
  from False have d: "d = False" by simp
  show ?thesis
    unfolding finishObjects_def d
    by (rule runs_bind, rule runs_conseq [OF leavesD [OF leaves_reconcileWorkload]])
      (auto split: option.splits simp del: Un_insert_right
        intro!: runs_return runs_bind runs_inMaintenanceNow runs_conseq [OF upd])
qed

lemma runs_reconcileObjects:
  "runs store S (reconcileObjects p server hash) (\<lambda>r S'. r = (0, None) \<longrightarrow>
     touches (prepared_keys server \<union> (workload_keys server \<union> {(KServer, snamespace server, sname server)})) S S' \<and>
     objects_present p accept server S S' \<and> workload_present accept server hash S S' \<and> status_current p server S S')"
proof -
  have stable: "stable (workload_keys server \<union> {(KServer, snamespace server, sname server)}) (objects_present p accept server)"
    by (rule objects_stable) (auto simp: workload_keys_def)
  have "runs store S' (finishObjects p server hash d) (\<lambda>r S'. r = (0, None) \<longrightarrow>
       touches (prepared_keys server \<union> (workload_keys server \<union> {(KServer, snamespace server, sname server)})) S S' \<and>
       objects_present p accept server S S' \<and> workload_present accept server hash S S' \<and> status_current p server S S')"
    if *: "touches (prepared_keys server) S S'" "objects_present p accept server S S'" for S' d
  proof (rule runs_conseq [OF runs_finishObjects], intro impI)
    fix r S2
    assume r: "r = (0, None) \<longrightarrow> touches (workload_keys server \<union> {(KServer, snamespace server, sname server)}) S' S2 \<and>
       workload_present accept server hash S' S2 \<and> status_current p server S' S2" "r = (0, None)"
    then have t: "touches (workload_keys server \<union> {(KServer, snamespace server, sname server)}) S' S2" by simp
    have "objects_present p accept server S S2" using stableD(1) [OF stable t] * by blast
    moreover have "workload_present accept server hash S S2"
      using touchesD [OF *(1), of "(KService, snamespace server, sname server)"] r
      by (simp add: workload_present_def present_def prepared_keys_def)
    moreover have "S' (KServer, snamespace server, sname server) = S (KServer, snamespace server, sname server)"
      using touchesD [OF *(1)] by (simp add: prepared_keys_def)
    ultimately show "touches (prepared_keys server \<union> (workload_keys server \<union> {(KServer, snamespace server, sname server)})) S S2 \<and>
       objects_present p accept server S S2 \<and> workload_present accept server hash S S2 \<and> status_current p server S S2"
      using r touches_trans [OF *(1) t] by (simp add: status_current_def)
  qed
  then show ?thesis
    unfolding reconcileObjects_def
    by (intro runs_bind runs_conseq [OF leavesD [OF leaves_prepareObjects]])
     (auto split: option.splits intro!: runs_intros)
qed

lemma live_converges:
  assumes "run_state (reconcileLive p server) s = ((0, None), s')"
  shows "\<exists>hash. objects_present p accept server (st s) (st s') \<and> workload_present accept server hash (st s) (st s') \<and>
    hash_from accept (st s) (st s') server hash \<and> status_current p server (st s) (st s')"
proof -
  obtain h s1 where h: "run_state (annotationHash p server) s = (h, s1)" by (metis prod.exhaust)
  show ?thesis
  proof (cases h)
    case (Inl r)
    with assms h annotationHash_error [of p server s r s1] show ?thesis by (simp add: reconcileLive_def)
  next
    case (Inr hash)
    with assms h have objs: "run_state (reconcileObjects p server hash) s1 = ((0, None), s')"
      by (simp add: reconcileLive_def)
    have 1: "touches {configKey server} (st s) (st s1)" "hash_from accept (st s) (st s1) server hash"
      using runsD [OF runs_annotationHash refl h] Inr by auto
    have 2: "touches (prepared_keys server \<union> (workload_keys server \<union> {(KServer, snamespace server, sname server)})) (st s1) (st s')"
      "objects_present p accept server (st s1) (st s')" "workload_present accept server hash (st s1) (st s')"
      "status_current p server (st s1) (st s')"
      using runsD [OF runs_reconcileObjects refl objs] by auto
    have "st s' (KSecret, a, b) = st s1 (KSecret, a, b)" for a b
      using touchesD [OF 2(1)] by (simp add: prepared_keys_def workload_keys_def)
    then have "hash_from accept (st s) (st s') server hash"
      using 1(2) by (auto simp: hash_from_def present_def configKey_def split: if_splits option.splits)
    moreover have "st s1 (KServer, snamespace server, sname server) = st s (KServer, snamespace server, sname server)"
      "st s1 (KService, snamespace server, sname server) = st s (KService, snamespace server, sname server)"
      using touchesD [OF 1(1)] by (simp_all add: configKey_def)
    moreover have "objects_present p accept server (st s) (st s')"
      by (rule stableD(2) [OF objects_stable 1(1) 2(2)]) (simp add: configKey_def)
    ultimately show ?thesis using 2 by (auto simp: status_current_def workload_present_def present_def)
  qed
qed

end

section \<open>Deletion\<close>

text \<open>After the claim: the finalizer is taken off, which lets the object go if it was the last one.\<close>

definition released :: "'q EnshroudedServer \<Rightarrow> (okey \<Rightarrow> 'q kobj option) \<Rightarrow> bool" where
  "released server S \<longleftrightarrow>
     (\<forall>y. S (KServer, snamespace server, sname server) = Some y \<longrightarrow>
        om_Finalizers (meta_of y) = filter (\<lambda>f. f \<noteq> finalizerName) (om_Finalizers (es_Meta server)) \<and>
        om_Finalizers (meta_of y) \<noteq> [])"

context kube_api
begin

lemma runs_deleteClaim:
  "runs store S (deleteClaim p server) (\<lambda>e S'.
     touches {(KPersistentVolumeClaim, snamespace server, pvcName server)} S S' \<and>
     (if RetainOnDelete (Storage (Spec server)) = Some False
      then e = None \<longrightarrow> deleted (S' (KPersistentVolumeClaim, snamespace server, pvcName server)) else S' = S))"
  unfolding deleteClaim_def
  by (intro runs_intros)
    (auto simp: as_Inr key_of_def touches_def deleted_def IgnoreNotFound_def dest: as_notfound split: if_splits option.splits)

lemma runs_removeFinalizer:
  assumes "S (KServer, snamespace server, sname server) = Some (OServer server)"
    "om_DeletionTimestamp (es_Meta server) \<noteq> None"
  shows "runs store S (r_Update p (OServer (server\<lparr>es_Meta := cu_RemoveFinalizer p (es_Meta server) finalizerName\<rparr>)))
    (\<lambda>u S'. touches {(KServer, snamespace server, sname server)} S S' \<and> (\<forall>y. u = Inr y \<longrightarrow> released server S'))"
proof (rule runs_Update)
  let ?x = "OServer (server\<lparr>es_Meta := cu_RemoveFinalizer p (es_Meta server) finalizerName\<rparr>)"
  have key: "key_of ?x = (KServer, snamespace server, sname server)"
    by (simp add: key_of_def remove_finalizer snamespace_def sname_def)
  fix old
  assume "S (key_of ?x) = Some old"
  with assms(1) key have old: "old = OServer server" by simp
  let ?y = "accept (Some old) ?x"
  have "om_Finalizers (meta_of ?y) = filter (\<lambda>f. f \<noteq> finalizerName) (om_Finalizers (es_Meta server))"
    "om_DeletionTimestamp (meta_of ?y) \<noteq> None"
    using assms(2) by (simp_all add: accept_finalizers accept_deletion old remove_finalizer)
  then show "touches {(KServer, snamespace server, sname server)} S (S(key_of ?x := if gone ?y then None else Some ?y)) \<and>
      (\<forall>y. Inr ?y = Inr y \<longrightarrow> released server (S(key_of ?x := if gone ?y then None else Some ?y)))"
    by (auto simp: touches_def key released_def gone_def)
qed (auto simp: touches_def key_of_def remove_finalizer snamespace_def sname_def)

lemma runs_handleDeletion:
  assumes "finalizerName \<in> set (om_Finalizers (es_Meta server))"
    "S (KServer, snamespace server, sname server) = Some (OServer server)"
    "om_DeletionTimestamp (es_Meta server) \<noteq> None"
  shows "runs store S (handleDeletion p server) (\<lambda>r S'. snd r = None \<longrightarrow>
     touches {(KServer, snamespace server, sname server), (KPersistentVolumeClaim, snamespace server, pvcName server)} S S' \<and>
     released server S' \<and>
     (if RetainOnDelete (Storage (Spec server)) = Some False
      then deleted (S' (KPersistentVolumeClaim, snamespace server, pvcName server))
      else S' (KPersistentVolumeClaim, snamespace server, pvcName server) =
        S (KPersistentVolumeClaim, snamespace server, pvcName server)))"
proof -
  let ?srv = "(KServer, snamespace server, sname server)"
  let ?pvc = "(KPersistentVolumeClaim, snamespace server, pvcName server)"
  have upd: "runs store S1 (r_Update p (OServer (server\<lparr>es_Meta := cu_RemoveFinalizer p (es_Meta server) finalizerName\<rparr>)))
      (\<lambda>u S'. touches {?srv, ?pvc} S S' \<and> S' ?pvc = S1 ?pvc \<and> (\<forall>y. u = Inr y \<longrightarrow> released server S'))"
    if "touches {?pvc} S S1" for S1
    using that assms(2,3)
    by (intro runs_conseq [OF runs_removeFinalizer]) (auto simp: touches_def)
  show ?thesis
    unfolding handleDeletion_def DeleteServerMetrics_def
    by (rule runs_if, simp add: contains_finalizer assms(1), rule runs_bind, rule runs_conseq [OF runs_deleteClaim])
      (auto split: option.splits sum.splits simp: as_Inr
        intro!: runs_return runs_bind runs_conseq [OF upd] runs_quiet)
qed

end

lemma found_server:
  assumes "kube_api p store accept" "run_state (Reconcile p ns n) s = (r, s')" "snd r = None"
    "store (env s) (KServer, ns, n) = Some (OServer server)" "cl_Get p KServer ns n (env s) = (g, w)"
  shows "as_Server g = Inr server"
proof (cases "as_Server g")
  case (Inl err)
  with run_Reconcile(1) [OF assms(2,5)] assms(3) have "IsNotFound err"
    by (auto simp: IgnoreNotFound_def split: if_splits)
  with Inl as_notfound(1) have "g = Inl err" by blast
  with kube_api.get_notfound [OF assms(1)] assms(4,5) \<open>IsNotFound err\<close> show ?thesis by fastforce
next
  case (Inr x)
  with assms(4,5) kube_api.get_found [OF assms(1)] show ?thesis by (fastforce simp: as_Inr)
qed

section \<open>Properties\<close>

text \<open>
  C21. Deletion: when a run for a server that is being deleted and carries the finalizer succeeds, the
  server is gone or has lost this finalizer and kept the others; the savegame claim is gone or marked
  for deletion if \<^verbatim>\<open>retainOnDelete\<close> is false, and exactly as before otherwise, also when the field is
  not set; no other object has changed.
\<close>

theorem deletion_releases_server:
  assumes "kube_api p store accept" "run_state (Reconcile p ns n) s = (r, s')" "snd r = None"
    "store (env s) (KServer, ns, n) = Some (OServer server)"
    "om_DeletionTimestamp (es_Meta server) \<noteq> None" "finalizerName \<in> set (om_Finalizers (es_Meta server))"
  shows "(\<forall>y. store (env s') (KServer, ns, n) = Some y \<longrightarrow>
      om_Finalizers (meta_of y) = filter (\<lambda>f. f \<noteq> finalizerName) (om_Finalizers (es_Meta server)) \<and>
      om_Finalizers (meta_of y) \<noteq> []) \<and>
    (if RetainOnDelete (Storage (Spec server)) = Some False
     then \<forall>y. store (env s') (KPersistentVolumeClaim, ns, n @ ''-savegame'') = Some y \<longrightarrow> om_DeletionTimestamp (meta_of y) \<noteq> None
     else store (env s') (KPersistentVolumeClaim, ns, n @ ''-savegame'') =
       store (env s) (KPersistentVolumeClaim, ns, n @ ''-savegame'')) \<and>
    (\<forall>k. k \<noteq> (KServer, ns, n) \<and> k \<noteq> (KPersistentVolumeClaim, ns, n @ ''-savegame'') \<longrightarrow>
      store (env s') k = store (env s) k)"
proof -
  obtain g w where g: "cl_Get p KServer ns n (env s) = (g, w)" by (metis prod.exhaust)
  note found = found_server [OF assms(1-4) g]
  have key: "snamespace server = ns" "sname server = n"
    using kube_api.store_key [OF assms(1,4)] by (simp_all add: key_of_def sname_def snamespace_def)
  have same: "store w = store (env s)" by (rule kube_api.get_store [OF assms(1) g])
  from runsD [OF kube_api.runs_handleDeletion [OF assms(1,6), of "store w"] _ run_Reconcile(2) [OF assms(2) g found assms(5)]]
  show ?thesis using assms(3-5) key same
    by (auto simp: released_def deleted_def touches_def pvcName_def split: if_splits)
qed

theorem deletion_releases_server_witness:
  "\<exists>r s'. run_state (Reconcile mem_platform ''games'' ''srv'')
       (world_init [OServer (demo_deleted (Some False)), OPersistentVolumeClaim (desiredPVC demo 0)]) = (r, s') \<and>
     mem_store (env s') (KServer, ''games'', ''srv'') = None"
proof -
  let ?w = "world_init [OServer (demo_deleted (Some False)), OPersistentVolumeClaim (desiredPVC demo 0)]"
  obtain r s' where run: "run_state (Reconcile mem_platform ''games'' ''srv'') ?w = (r, s')"
    by (metis prod.exhaust)
  have st: "mem_store (env ?w) (KServer, ''games'', ''srv'') = Some (OServer (demo_deleted (Some False)))"
    by (simp add: mem_eval demo_deleted_def)
  have "snd r = None"
    using run
    by (auto simp: Reconcile_def handleDeletion_def deleteClaim_def DeleteServerMetrics_def client_defs pvcName_def
        mem_Delete_def mem_Update_def mem_put_def mem_del_def mem_accept.simps alist_del_def mem_eval demo_deleted_def
        desiredPVC_def sname_def snamespace_def IgnoreNotFound_def split: if_splits)
  from deletion_releases_server [OF mem_api.kube_api_axioms run this st] run show ?thesis
    by (auto simp: demo_deleted_def)
qed

end
