(* ===== verification/Progress.thy ===== *)
theory Progress
  imports Convergence
begin

text \<open>
  When a run succeeds. The locale \<open>kube_up\<close> adds to the promises of \<open>kube_api\<close> that the API server
  does not refuse the calls: it answers reads from the store, accepts the creation of an object
  that is not there, updates and deletions of one that is, and the server as the owner of an object
  of its own namespace that has no owner yet. Under it every operation of a run
  succeeds, so that \<^verbatim>\<open>Reconcile\<close> reaches the state that \<open>Convergence\<close> describes.
\<close>

section \<open>An API server that accepts the calls\<close>

locale kube_up = kube_api p store accept
  for p :: "('w, 'q) platform" and store :: "'w \<Rightarrow> okey \<Rightarrow> 'q kobj option" and accept +
  assumes get_up: "store w (k, ns, n) = Some x \<Longrightarrow> \<exists>w'. cl_Get p k ns n w = (Inr x, w')"
    and get_none_up: "store w (k, ns, n) = None \<Longrightarrow> \<exists>e w'. cl_Get p k ns n w = (Inl e, w') \<and> IsNotFound e"
    and create_up: "store w (key_of x) = None \<Longrightarrow> \<exists>w'. cl_Create p x w = (None, w')"
    and update_up: "store w (key_of x) = Some z \<Longrightarrow> \<exists>y w'. cl_Update p x w = (Inr y, w')"
    and delete_up: "store w (key_of x) = Some z \<Longrightarrow> \<exists>w'. cl_Delete p x w = (None, w')"
    and status_up: "store w (key_of (OServer s)) = Some (OServer s0) \<Longrightarrow>
          \<exists>y w'. cl_StatusUpdate p (OServer s) w = (Inr y, w')"
    and owner_up: "om_OwnerReferences m = [] \<Longrightarrow> om_Namespace m = snamespace server \<Longrightarrow>
          \<exists>m'. cu_SetControllerReference p server m = Inr m'"
    and parse_up: "q_Parse p ''10Gi'' \<noteq> None"
begin

lemma up_Get:
  assumes "\<And>x. S (k, ns, n) = Some x \<Longrightarrow> key_of x = (k, ns, n) \<Longrightarrow> \<not> gone x \<Longrightarrow> Q (Inr x) S"
    and "\<And>e. S (k, ns, n) = None \<Longrightarrow> IsNotFound e \<Longrightarrow> Q (Inl e) S"
  shows "runs store S (r_Get p k ns n) Q"
proof (rule runsI)
  fix s a s'
  assume S: "st s = S" and run: "run_state (r_Get p k ns n) s = (a, s')"
  then obtain w where g: "cl_Get p k ns n (env s) = (a, w)" and w: "env s' = w"
    by (auto simp: r_Get_def split: prod.splits)
  from get_store [OF g] w S have same: "st s' = S" by simp
  show "Q a (st s')"
  proof (cases "S (k, ns, n)")
    case None
    with get_none_up [of "env s" k ns n] g S same assms(2) show ?thesis by auto
  next
    case (Some x)
    with get_up [of "env s" k ns n x] g S same assms(1) store_key [of "env s"] store_alive [of "env s"]
    show ?thesis by auto
  qed
qed

lemma up_Create:
  assumes "S (key_of x) = None" "Q None (S(key_of x \<mapsto> accept None x))"
  shows "runs store S (r_Create p x) Q"
proof (rule runsI)
  fix s a s'
  assume S: "st s = S" and run: "run_state (r_Create p x) s = (a, s')"
  then obtain w where g: "cl_Create p x (env s) = (a, w)" and w: "env s' = w"
    by (auto simp: r_Create_def split: prod.splits)
  then have "a = None" using create_up [of "env s" x] assms(1) S by auto
  with assms(2) create_ok [of x "env s" w] g S w show "Q a (st s')" by simp
qed

lemma up_Update:
  assumes "S (key_of x) = Some z"
    "\<And>y S'. (\<And>k'. k' \<noteq> key_of x \<Longrightarrow> S' k' = S k') \<Longrightarrow> key_of y = key_of x \<Longrightarrow> Q (Inr y) S'"
  shows "runs store S (r_Update p x) Q"
proof (rule runsI)
  fix s a s'
  assume S: "st s = S" and run: "run_state (r_Update p x) s = (a, s')"
  then obtain w where g: "cl_Update p x (env s) = (a, w)" and w: "env s' = w"
    by (auto simp: r_Update_def split: prod.splits)
  obtain y where "a = Inr y" using update_up [of "env s" x z] assms(1) S g by auto
  with assms(2) update_frame [OF g] update_key g S w show "Q a (st s')" by blast
qed

lemma up_Delete:
  assumes "S (key_of x) = Some z" "\<And>S'. (\<And>k'. k' \<noteq> key_of x \<Longrightarrow> S' k' = S k') \<Longrightarrow> Q None S'"
  shows "runs store S (r_Delete p x) Q"
proof (rule runsI)
  fix s a s'
  assume S: "st s = S" and run: "run_state (r_Delete p x) s = (a, s')"
  then obtain w where g: "cl_Delete p x (env s) = (a, w)" and w: "env s' = w"
    by (auto simp: r_Delete_def split: prod.splits)
  then have "a = None" using delete_up [of "env s" x z] assms(1) S by auto
  with assms(2) delete_frame [OF g] S w show "Q a (st s')" by blast
qed

lemma up_StatusUpdate:
  assumes "S (key_of (OServer x)) = Some (OServer z)"
    "\<And>S'. Q (Inr (OServer (z\<lparr>Status := Status x\<rparr>))) S'"
  shows "runs store S (r_StatusUpdate p (OServer x)) Q"
proof (rule runsI)
  fix s a s'
  assume S: "st s = S" and run: "run_state (r_StatusUpdate p (OServer x)) s = (a, s')"
  then obtain w where g: "cl_StatusUpdate p (OServer x) (env s) = (a, w)" and w: "env s' = w"
    by (auto simp: r_StatusUpdate_def split: prod.splits)
  obtain y where "a = Inr y" using status_up [of "env s" x z] assms(1) S g by auto
  with assms status_ok [of x "env s" y w] g S show "Q a (st s')" by auto
qed

lemmas up_intros = up_Get up_Create up_Update up_Delete runs_quiet runs_return runs_bind runs_if
  runs_case_option runs_case_sum runs_case_prod runs_let runs_inMaintenanceNow runs_playersProtected

end

text \<open>Under a key of a kind there is an object of that kind.\<close>

lemma as_kind:
  "as_Server (Inr x) = Inl e \<Longrightarrow> kind_of x \<noteq> KServer"
  "as_StatefulSet (Inr x) = Inl e \<Longrightarrow> kind_of x \<noteq> KStatefulSet"
  "as_Service (Inr x) = Inl e \<Longrightarrow> kind_of x \<noteq> KService"
  "as_PersistentVolumeClaim (Inr x) = Inl e \<Longrightarrow> kind_of x \<noteq> KPersistentVolumeClaim"
  "as_Secret (Inr x) = Inl e \<Longrightarrow> kind_of x \<noteq> KSecret"
  "as_NetworkPolicy (Inr x) = Inl e \<Longrightarrow> kind_of x \<noteq> KNetworkPolicy"
  "as_Role (Inr x) = Inl e \<Longrightarrow> kind_of x \<noteq> KRole"
  "as_PodDisruptionBudget (Inr x) = Inl e \<Longrightarrow> kind_of x \<noteq> KPodDisruptionBudget"
  "as_VerticalPodAutoscaler (Inr x) = Inl e \<Longrightarrow> kind_of x \<noteq> KVerticalPodAutoscaler"
  "as_ServiceAccount (Inr x) = Inl e \<Longrightarrow> kind_of x \<noteq> KServiceAccount"
  "as_RoleBinding (Inr x) = Inl e \<Longrightarrow> kind_of x \<noteq> KRoleBinding"
  by (cases x; simp)+

lemma as_Inl_Inl:
  "as_Server (Inl a) = Inl e \<longleftrightarrow> a = e" "as_StatefulSet (Inl a) = Inl e \<longleftrightarrow> a = e"
  "as_Service (Inl a) = Inl e \<longleftrightarrow> a = e" "as_PersistentVolumeClaim (Inl a) = Inl e \<longleftrightarrow> a = e"
  by simp_all

text \<open>The Secrets a run reads are there.\<close>

definition group_ready :: "(okey \<Rightarrow> 'q kobj option) \<Rightarrow> string \<Rightarrow> UserGroup \<Rightarrow> bool" where
  "group_ready S ns g \<longleftrightarrow> (\<forall>ref. ug_PasswordSecretRef g = Some ref \<longrightarrow> S (KSecret, ns, skr_Name ref) \<noteq> None)"

definition inputs_ready :: "(okey \<Rightarrow> 'q kobj option) \<Rightarrow> 'q EnshroudedServer \<Rightarrow> bool" where
  "inputs_ready S server \<longleftrightarrow>
     (if UserGroups (Spec server) \<noteq> [] then \<forall>g \<in> set (UserGroups (Spec server)). group_ready S (snamespace server) g
      else \<forall>ref. ServerPasswordSecretRef (Spec server) = Some ref \<longrightarrow>
        skr_Name ref \<noteq> sname server @ ''-config'' \<and>
        (\<exists>x d. S (KSecret, snamespace server, skr_Name ref) = Some (OSecret x) \<and> sec_Data x (skr_Key ref) = Some d))"

definition succeeds :: "('w \<Rightarrow> okey \<Rightarrow> 'q kobj option) \<Rightarrow> ('w, 'q, gerror option) M \<Rightarrow> bool" where
  "succeeds store m \<longleftrightarrow> (\<forall>S. runs store S m (\<lambda>e S'. e = None))"

lemma succeedsD: "succeeds store m \<Longrightarrow> runs store S m (\<lambda>e S'. e = None)"
  by (simp add: succeeds_def)

lemma runs_conj: "runs store S m Q \<Longrightarrow> runs store S m R \<Longrightarrow> runs store S m (\<lambda>a S'. Q a S' \<and> R a S')"
  by (auto simp: runs_def split: prod.splits)

lemma succeeds_seq: "succeeds store m \<Longrightarrow> succeeds store k \<Longrightarrow> succeeds store (seq_err m k)"
  by (fastforce simp: succeeds_def runs_def seq_err_def split: prod.splits option.splits)

lemma succeeds_return: "succeeds store (State_Monad.return None)"
  by (simp add: succeeds_def runs_return)

context kube_up
begin

lemma up_PVC: "succeeds store (reconcilePVC p server)"
  unfolding succeeds_def reconcilePVC_def
  by (intro allI up_intros) (use parse_up in \<open>auto simp: as_Inr key_of_def MustParse_def dest: as_kind split: if_splits option.splits\<close>)

lemma up_owner:
  "cu_SetControllerReference p server m = Inl e \<Longrightarrow> om_OwnerReferences m \<noteq> [] \<or> om_Namespace m \<noteq> snamespace server"
  using owner_up [of m server] by auto

lemmas up_simps = as_Inr key_of_def set_owner_fields new_meta_def

lemma up_children:
  "succeeds store (reconcileService p server)"
  "succeeds store (reconcileNetworkPolicy p server)"
  "succeeds store (reconcilePDB p server)"
  "succeeds store (reconcileSidecarServiceAccount p server)"
  "succeeds store (reconcileSidecarRole p server)"
  "succeeds store (reconcileSidecarRoleBinding p server)"
  "succeeds store (reconcileVPA p server)"
  unfolding succeeds_def reconcileService_def reconcileNetworkPolicy_def reconcilePDB_def
    reconcileSidecarServiceAccount_def reconcileSidecarRole_def reconcileSidecarRoleBinding_def reconcileVPA_def
  by (intro allI up_intros;
      auto simp: up_simps desiredRoleBinding_def desiredPDB_def Let_def desiredVPA_def split: option.splits dest: as_kind up_owner; fail)+

lemma up_RBAC: "succeeds store (reconcileMetricsSidecarRBAC p server)"
  unfolding reconcileMetricsSidecarRBAC_def by (simp add: succeeds_seq succeeds_return up_children)

lemma up_StatefulSet:
  assumes "UpgradeStrategy (UpdatePolicy (Spec server)) \<in> {'''', ''NoSnapshot''}"
  shows "succeeds store (reconcileStatefulSet p server hash)"
  using assms unfolding succeeds_def reconcileStatefulSet_def
  by (intro allI up_intros) (auto simp: up_simps snapshotNeeded_def api_consts dest: as_kind up_owner)

lemma up_S3: "succeeds store (reconcileS3Sidecar p server)"
  unfolding succeeds_def reconcileS3Sidecar_def
  by (intro allI up_intros) (auto simp: up_simps split: sum.splits dest: as_kind)

lemma up_buildGroups:
  assumes "\<forall>g \<in> set ugs. group_ready S (snamespace server) g" "\<And>gs. Q (Inr gs) S"
  shows "runs store S (buildGroups p server groups ugs) Q"
  using assms(1)
proof (induction ugs arbitrary: groups)
  case Nil
  show ?case using assms(2) by (simp add: runs_return)
next
  case (Cons g ugs)
  have "runs store S (groupPassword p server g) (\<lambda>r S'. S' = S \<and> (\<exists>pw. r = Inr pw))"
    unfolding groupPassword_def
    by (intro up_intros) (use Cons.prems in \<open>auto simp: group_ready_def key_of_def split: sum.splits dest: as_kind\<close>)
  from runs_conseq [OF this] Cons show ?case
    unfolding buildGroups.simps by (intro runs_bind) (force split: sum.splits)
qed

lemma up_annotationHash:
  assumes "inputs_ready S server"
  shows "runs store S (annotationHash p server) (\<lambda>r S'. \<exists>h. r = Inr h)"
proof (cases "UserGroups (Spec server) = []")
  case True
  with assms show ?thesis
    unfolding annotationHash_def cleanupConfigSecret_def passwordHash_def inputs_ready_def
    by (simp, intro up_intros)
      (auto simp: up_simps IgnoreNotFound_def dest: as_kind)
next
  case False
  have "runs store S (reconcileConfigSecret p server) (\<lambda>r S'. \<exists>h. r = Inr h)"
    unfolding reconcileConfigSecret_def buildServerConfigJSON_def
    by (intro up_buildGroups up_intros)
      (use assms False in \<open>auto simp: up_simps inputs_ready_def dest: as_kind up_owner\<close>)
  then show ?thesis
    unfolding annotationHash_def using False by (simp, intro runs_bind) (force elim: runs_conseq intro: runs_return)
qed

lemma up_updateStatus:
  assumes "S (KServer, snamespace server, sname server) = Some (OServer z)"
  shows "runs store S (updateStatus p server d w) (\<lambda>e S'. e = None)"
  unfolding updateStatus_def SetServerMetrics_def
  by (intro up_StatusUpdate up_intros)
    (use assms in \<open>auto simp: up_simps snamespace_def sname_def dest: as_kind split: sum.splits if_splits\<close>)

lemma up_prepareObjects:
  assumes "\<not> (vsc_Enabled (VerticalScaling (Spec server)) \<and> vsc_UpdateMode (VerticalScaling (Spec server)) = ''WhenIdle'')"
  shows "succeeds store (prepareObjects p server)"
proof -
  have "succeeds store (applyVPARecommendation p server)"
    using assms by (auto simp: applyVPARecommendation_def api_consts succeeds_return)
  then show ?thesis
    unfolding prepareObjects_def by (intro succeeds_seq up_PVC up_RBAC up_children)
qed

lemma up_reconcileWorkload:
  assumes "UpgradeStrategy (UpdatePolicy (Spec server)) \<in> {'''', ''NoSnapshot''}"
    "\<not> vsb_Enabled (bk_VolumeSnapshot (Backup (Spec server)))"
  shows "runs store S (reconcileWorkload p server hash d) (\<lambda>e S'. e = None \<and> touches (workload_keys server) S S')"
proof -
  have "succeeds store (reconcileVolumeSnapshot p server)"
    using assms(2) by (simp add: reconcileVolumeSnapshot_def succeeds_return)
  then have ok: "succeeds store (reconcileWorkload p server hash d)"
    unfolding reconcileWorkload_def
    by (auto intro!: succeeds_seq up_StatefulSet up_children up_S3 succeeds_return assms)
  have none: "leaves store {} (\<lambda>S S'. True) (State_Monad.return None)"
    by (simp add: leaves_def touches_def runs_return)
  have tail: "leaves store (workload_keys server) (\<lambda>S S'. True) (seq_err (reconcileService p server)
      (seq_err (reconcileS3Sidecar p server) (reconcileVolumeSnapshot p server)))"
    by (rule leaves_mono [OF leaves_seq [OF leaves_ensures [OF runs_reconcileService] leaves_seq [OF leaves_snapshots(2,1)]]])
      (auto intro!: stable_intros simp: workload_keys_def)
  have "leaves store (workload_keys server) (\<lambda>S S'. True) (reconcileWorkload p server hash True)"
    unfolding reconcileWorkload_def by (simp, rule leaves_mono [OF leaves_seq [OF none tail]]) (auto intro: stable_intros)
  with leaves_mono [OF leaves_reconcileWorkload order_refl, where Q = "\<lambda>_ _. True"]
  have "leaves store (workload_keys server) (\<lambda>S S'. True) (reconcileWorkload p server hash d)" by (cases d) auto
  then show ?thesis
    by (intro runs_conseq [OF runs_conj [OF succeedsD [OF ok] leavesD]]) auto
qed

lemma up_reconcileObjects:
  assumes "\<not> (vsc_Enabled (VerticalScaling (Spec server)) \<and> vsc_UpdateMode (VerticalScaling (Spec server)) = ''WhenIdle'')"
    "UpgradeStrategy (UpdatePolicy (Spec server)) \<in> {'''', ''NoSnapshot''}"
    "\<not> vsb_Enabled (bk_VolumeSnapshot (Backup (Spec server)))"
    "S (KServer, snamespace server, sname server) = Some (OServer z)"
  shows "runs store S (reconcileObjects p server hash) (\<lambda>r S'. snd r = None)"
proof -
  have fin: "runs store S' (finishObjects p server hash d) (\<lambda>r S'. snd r = None)"
    if "S' (KServer, snamespace server, sname server) = Some (OServer z)" for S' d
  proof -
    have w: "runs store S' (reconcileWorkload p server hash d)
        (\<lambda>e S2. e = None \<and> S2 (KServer, snamespace server, sname server) = Some (OServer z))"
      using that by (intro runs_conseq [OF up_reconcileWorkload [OF assms(2,3)]])
        (auto simp: workload_keys_def touches_def)
    show ?thesis
      unfolding finishObjects_def
      by (rule runs_bind, rule runs_conseq [OF w]) (auto intro!: runs_bind runs_inMaintenanceNow runs_conseq [OF up_updateStatus] runs_return)
  qed
  have prep: "runs store S (prepareObjects p server) (\<lambda>e S'. e = None \<and> S' (KServer, snamespace server, sname server) = Some (OServer z))"
    using assms(4)
    by (intro runs_conseq [OF runs_conj [OF succeedsD [OF up_prepareObjects [OF assms(1)]] leavesD [OF leaves_prepareObjects]]])
      (simp add: touches_def prepared_keys_def)
  show ?thesis
    unfolding reconcileObjects_def
    by (rule runs_bind, rule runs_conseq [OF prep]) (auto intro!: runs_bind runs_playersProtected fin)
qed

lemma up_reconcileLive:
  assumes "inputs_ready (st s) server"
    "\<not> (vsc_Enabled (VerticalScaling (Spec server)) \<and> vsc_UpdateMode (VerticalScaling (Spec server)) = ''WhenIdle'')"
    "UpgradeStrategy (UpdatePolicy (Spec server)) \<in> {'''', ''NoSnapshot''}"
    "\<not> vsb_Enabled (bk_VolumeSnapshot (Backup (Spec server)))"
    "st s (KServer, snamespace server, sname server) = Some (OServer z)"
    "run_state (reconcileLive p server) s = (r, s')"
  shows "snd r = None"
proof -
  obtain h s1 where h: "run_state (annotationHash p server) s = (h, s1)" by (metis prod.exhaust)
  from runsD [OF up_annotationHash [OF assms(1)] refl h] obtain hash where hash: "h = Inr hash" by blast
  from runsD [OF runs_annotationHash refl h] hash have "touches {configKey server} (st s) (st s1)" by auto
  from touchesD [OF this] assms(5) have "st s1 (KServer, snamespace server, sname server) = Some (OServer z)"
    by (simp add: configKey_def)
  from runsD [OF up_reconcileObjects [where S = "st s1", OF assms(2-4) this] refl] show ?thesis
    using assms(6) h hash by (simp add: reconcileLive_def)
qed

end

lemma live_result:
  assumes "run_state (reconcileLive p server) s = (r, s')" "snd r = None"
  shows "fst r = 0 \<or> fst r = oneMinute \<and> DeferWhilePlaying (UpdatePolicy (Spec server)) \<and> 0 <s ActivePlayers (Status server)"
proof -
  obtain h s1 where h: "run_state (annotationHash p server) s = (h, s1)" by (metis prod.exhaust)
  show ?thesis
  proof (cases h)
    case (Inl r')
    with assms h annotationHash_error [of p server s r' s1] show ?thesis by (simp add: reconcileLive_def)
  next
    case (Inr hash)
    obtain e1 s2 where e1: "run_state (prepareObjects p server) s1 = (e1, s2)" by (metis prod.exhaust)
    obtain d s3 where d: "run_state (playersProtected p server) s2 = (d, s3)" by (metis prod.exhaust)
    have "d \<Longrightarrow> DeferWhilePlaying (UpdatePolicy (Spec server)) \<and> 0 <s ActivePlayers (Status server)"
      using d by (auto simp: playersProtected_def split: if_splits)
    moreover have "e1 = None" "run_state (finishObjects p server hash d) s3 = (r, s')"
      using assms h Inr e1 d by (auto simp: reconcileLive_def reconcileObjects_def split: option.splits)
    ultimately show ?thesis
      using finishObjects_result [of p server hash d s3 r s'] assms(2) by auto
  qed
qed

text \<open>Without maintenance windows a server with players that defers updates is always asked to come back.\<close>

lemma not_deferred:
  assumes "run_state (reconcileLive p server) s = ((0, None), s')"
    "DeferWhilePlaying (UpdatePolicy (Spec server))" "0 <s ActivePlayers (Status server)"
  shows "MaintenanceWindows (UpdatePolicy (Spec server)) \<noteq> []"
proof
  assume none: "MaintenanceWindows (UpdatePolicy (Spec server)) = []"
  obtain h s1 where h: "run_state (annotationHash p server) s = (h, s1)" by (metis prod.exhaust)
  obtain hash where hash: "h = Inr hash"
    using assms(1) h annotationHash_error [of p server s _ s1] by (cases h) (auto simp: reconcileLive_def)
  obtain e1 s2 where e1: "run_state (prepareObjects p server) s1 = (e1, s2)" by (metis prod.exhaust)
  have "run_state (playersProtected p server) s2 = (True, s2)"
    using assms(2,3) none by (simp add: playersProtected_def inMaintenanceNow_def)
  then have "run_state (finishObjects p server hash True) s2 = ((0, None), s')"
    using assms(1) h hash e1 by (auto simp: reconcileLive_def reconcileObjects_def split: option.splits)
  from finishObjects_result [OF this] show False by (simp add: oneMinute_def)
qed

context kube_up
begin

lemma run_succeeds:
  assumes "run_state (Reconcile p ns n) s = (r, s')"
    "st s (KServer, ns, n) = Some (OServer server)"
    "om_DeletionTimestamp (es_Meta server) = None" "finalizerName \<in> set (om_Finalizers (es_Meta server))"
    "inputs_ready (st s) server"
    "\<not> (vsc_Enabled (VerticalScaling (Spec server)) \<and> vsc_UpdateMode (VerticalScaling (Spec server)) = ''WhenIdle'')"
    "UpgradeStrategy (UpdatePolicy (Spec server)) \<in> {'''', ''NoSnapshot''}"
    "\<not> vsb_Enabled (bk_VolumeSnapshot (Backup (Spec server)))"
  shows "r = (0, None) \<or>
    r = (oneMinute, None) \<and> DeferWhilePlaying (UpdatePolicy (Spec server)) \<and> 0 <s ActivePlayers (Status server)"
proof -
  obtain w where g: "cl_Get p KServer ns n (env s) = (Inr (OServer server), w)"
    using get_up [OF assms(2)] by blast
  have same: "store w = st s" by (rule get_store [OF g])
  have key: "snamespace server = ns" "sname server = n"
    using store_key [OF assms(2)] by (simp_all add: key_of_def sname_def snamespace_def)
  have "cu_ContainsFinalizer p (es_Meta server) finalizerName"
    using assms(4) contains_finalizer by simp
  from run_Reconcile(3) [OF assms(1) g _ assms(3) this]
  have live: "run_state (reconcileLive p server) (after s w (EvGet KServer ns n (Inr (OServer server)))) = (r, s')" by simp
  have "snd r = None"
    using up_reconcileLive [OF _ assms(6-8) _ live] assms(2,5) same key by simp
  with live_result [OF live] show ?thesis by (cases r) auto
qed

end

interpretation mem_up: kube_up mem_platform mem_store mem_accept
  apply unfold_locales
  subgoal by (simp add: mem_Get_def)
  subgoal by (simp add: mem_Get_def notFound_def IsNotFound_def)
  subgoal by (simp add: mem_Create_def)
  subgoal by (simp add: mem_Update_def)
  subgoal by (simp add: mem_Delete_def)
  subgoal by simp
  subgoal by (simp add: mem_SetControllerReference_def Let_def)
  by (simp add: mem_Parse_def is_digit_def read_nat_def)

section \<open>The status\<close>

text \<open>The status of a server whose update is not deferred, from its StatefulSet.\<close>

definition status_shows :: "'q EnshroudedServer \<Rightarrow> 'q StatefulSet \<Rightarrow> Condition \<Rightarrow> EnshroudedServerStatus \<Rightarrow> bool" where
  "status_shows server sts c status \<longleftrightarrow>
     Phase status = (if 0 < sint (sts_ReadyReplicas sts) then ''Running''
        else if sts_CurrentRevision sts \<notin> {'''', sts_UpdateRevision sts} then ''Updating'' else ''Pending'') \<and>
     ReadyReplicas status = sts_ReadyReplicas sts \<and>
     has_condition (Conditions status) ''Ready'' = Some c \<and>
     cd_Status c = (if 0 < sint (sts_ReadyReplicas sts) then ''True'' else ''False'') \<and>
     cd_ObservedGeneration c = om_Generation (es_Meta server) \<and>
     \<not> UpdateDeferred status \<and> has_condition (Conditions status) ''UpdateDeferred'' = None \<and>
     ActivePlayers status = ActivePlayers (Status server) \<and> GameVersion status = GameVersion (Status server)"

lemma statusFor_shows:
  assumes "conditions p"
  shows "\<exists>c. status_shows server sts c (statusFor p server (Some sts) False)"
proof -
  have "Phase (statusFor p server (Some sts) False) = (if 0 < sint (sts_ReadyReplicas sts) then ''Running''
      else if sts_CurrentRevision sts \<notin> {'''', sts_UpdateRevision sts} then ''Updating'' else ''Pending'')"
    "ReadyReplicas (statusFor p server (Some sts) False) = sts_ReadyReplicas sts"
    "\<not> UpdateDeferred (statusFor p server (Some sts) False)"
    "ActivePlayers (statusFor p server (Some sts) False) = ActivePlayers (Status server)"
    "GameVersion (statusFor p server (Some sts) False) = GameVersion (Status server)"
    by (auto simp: statusFor_def readiness_def Let_def api_consts word_sless_alt)
  then show ?thesis
    using conditions.statusFor_Ready [OF assms, of server "Some sts" False]
      conditions.statusFor_UpdateDeferred [OF assms, of server "Some sts" False]
    unfolding status_shows_def by simp
qed

context kube_api
begin

lemma stored_StatefulSet: "store w (KStatefulSet, ns, n) = Some x \<Longrightarrow> \<exists>sts. x = OStatefulSet sts"
  using store_key [of w "(KStatefulSet, ns, n)" x] by (cases x) (auto simp: key_of_def)

end

section \<open>Properties\<close>


definition demo_live :: "int EnshroudedServer" where
  "demo_live = demo\<lparr>es_Meta := (es_Meta demo)\<lparr>om_Finalizers := [finalizerName]\<rparr>\<rparr>"

lemma demo_live_stored: "mem_store (env (world_init [OServer demo_live])) (KServer, ''games'', ''srv'') = Some (OServer demo_live)"
  by (simp add: mem_eval demo_live_def)

lemma demo_live_fields:
  "om_DeletionTimestamp (es_Meta demo_live) = None" "finalizerName \<in> set (om_Finalizers (es_Meta demo_live))"
  "inputs_ready S demo_live"
  "\<not> (vsc_Enabled (VerticalScaling (Spec demo_live)) \<and> vsc_UpdateMode (VerticalScaling (Spec demo_live)) = ''WhenIdle'')"
  "UpgradeStrategy (UpdatePolicy (Spec demo_live)) \<in> {'''', ''NoSnapshot''}"
  "\<not> vsb_Enabled (bk_VolumeSnapshot (Backup (Spec demo_live)))"
  "\<not> 0 <s ActivePlayers (Status demo_live)" "snamespace demo_live = ''games''" "sname demo_live = ''srv''"
  by (simp_all add: demo_live_def inputs_ready_def demo_def demo_spec_def new_meta_def sname_def snamespace_def)




end
