(* ===== verification/Secret_Watch.thy ===== *)
theory Secret_Watch
  imports Convergence
begin

text \<open>
  Which Secrets a server depends on and which servers a change of a Secret wakes up
  (\<^verbatim>\<open>allSecretRefs\<close>, the field index of \<^verbatim>\<open>SetupWithManager\<close> and \<^verbatim>\<open>findServersForSecret\<close>).

  Shown: the request list is exactly the servers in the Secret's namespace that reference it, and
  the hash annotated on the pods is fixed by the specification and the data of those Secrets, so that
  every change that can change the hash leads to a reconciliation.
\<close>

section \<open>References\<close>

definition references :: "'q EnshroudedServer \<Rightarrow> string \<Rightarrow> bool" where
  "references server n \<longleftrightarrow>
     (\<exists>ref. ServerPasswordSecretRef (Spec server) = Some ref \<and> skr_Name ref = n) \<or>
     (\<exists>g \<in> set (UserGroups (Spec server)). \<exists>ref. ug_PasswordSecretRef g = Some ref \<and> skr_Name ref = n)"

lemma set_allSecretRefs: "n \<in> set (allSecretRefs server) \<longleftrightarrow> references server n"
proof -
  have "n \<in> set (List.map_filter (\<lambda>g. map_option skr_Name (ug_PasswordSecretRef g)) gs) \<longleftrightarrow>
      (\<exists>g \<in> set gs. \<exists>ref. ug_PasswordSecretRef g = Some ref \<and> skr_Name ref = n)" for gs
    by (induction gs) (auto simp: List.map_filter_simps split: option.splits)
  then show ?thesis
    by (cases "ServerPasswordSecretRef (Spec server)") (auto simp: allSecretRefs_def references_def)
qed

text \<open>What a listing by an index promises: the objects of the store for which the index has the value.\<close>

locale field_index =
  fixes p :: "('w, 'q) platform" and store :: "'w \<Rightarrow> okey \<Rightarrow> 'q kobj option"
  assumes index_found: "cl_ListByField p k ns ix v w = (Inr xs, w') \<Longrightarrow>
      set xs = {x. (\<exists>n. store w (k, ns, n) = Some x) \<and> v \<in> set (ix x)}"
    and index_key: "store w k' = Some x \<Longrightarrow> key_of x = k'"
begin

lemma secretIndex_server: "v \<in> set (secretIndex x) \<longleftrightarrow> (\<exists>server. x = OServer server \<and> references server v)"
  by (cases x) (auto simp: set_allSecretRefs)

lemma requests:
  assumes "cl_ListByField p KServer (om_Namespace secret) secretIndex (om_Name secret) (env s) = (Inr xs, w)"
    "run_state (findServersForSecret p secret) s = (reqs, s')"
  shows "set reqs = {(ns, n). ns = om_Namespace secret \<and>
      (\<exists>server. store (env s) (KServer, ns, n) = Some (OServer server) \<and> references server (om_Name secret))}"
proof -
  from assms have reqs: "reqs = map (\<lambda>x. (om_Namespace (meta_of x), om_Name (meta_of x))) xs"
    by (auto simp: findServersForSecret_def r_ListByField_def)
  have "x \<in> set xs \<longleftrightarrow> (\<exists>n server. store (env s) (KServer, om_Namespace secret, n) = Some x \<and>
      x = OServer server \<and> references server (om_Name secret))" for x
    using index_found [OF assms(1)] secretIndex_server by auto
  moreover have "om_Namespace (es_Meta a) = ns \<and> om_Name (es_Meta a) = n"
    if "store (env s) (KServer, ns, n) = Some (OServer a)" for ns n a
    using index_key [OF that] by (simp add: key_of_def)
  ultimately show ?thesis unfolding reqs by (auto simp: image_iff) (metis meta_of.simps(1))+
qed

end

interpretation mem_index: field_index mem_platform mem_store
  by unfold_locales (auto simp: mem_ListByField_def mem_all_set dest: mem_store_Some)

section \<open>The hash\<close>

text \<open>
  The hash as a function of the specification and of the data of Secrets: of the settings with the
  passwords of the groups, of the server password, or empty.
\<close>

fun secret_data :: "'q kobj option \<Rightarrow> (string \<rightharpoonup> string) option" where
  "secret_data (Some (OSecret x)) = Some (sec_Data x)"
| "secret_data _ = None"

definition password_in :: "(string \<Rightarrow> (string \<rightharpoonup> string) option) \<Rightarrow> SecretKeySelector \<Rightarrow> string" where
  "password_in D ref = (case D (skr_Name ref) of
     Some d \<Rightarrow> (case d (skr_Key ref) of Some pw \<Rightarrow> pw | None \<Rightarrow> '''') | None \<Rightarrow> '''')"

definition hash_of :: "(string \<Rightarrow> (string \<rightharpoonup> string) option) \<Rightarrow> 'q EnshroudedServer \<Rightarrow> string" where
  "hash_of D server =
    (if UserGroups (Spec server) \<noteq> [] then
       sha256hex (marshalConfig (mkConfig (Spec server)
         (map (\<lambda>g. mkGroup g (case ug_PasswordSecretRef g of None \<Rightarrow> '''' | Some ref \<Rightarrow> password_in D ref)) (UserGroups (Spec server)))))
     else case ServerPasswordSecretRef (Spec server) of None \<Rightarrow> '''' | Some ref \<Rightarrow> sha256hex (password_in D ref))"

lemma hash_of_cong: "(\<And>n. references server n \<Longrightarrow> D n = D' n) \<Longrightarrow> hash_of D server = hash_of D' server"
proof -
  assume same: "\<And>n. references server n \<Longrightarrow> D n = D' n"
  have "password_in D ref = password_in D' ref" if "references server (skr_Name ref)" for ref
    using same [OF that] by (simp add: password_in_def)
  then have pw: "password_in D ref = password_in D' ref"
    if "ServerPasswordSecretRef (Spec server) = Some ref \<or> (\<exists>g \<in> set (UserGroups (Spec server)). ug_PasswordSecretRef g = Some ref)" for ref
    using that by (auto simp: references_def)
  define gs where "gs E = map (\<lambda>g. mkGroup g (case ug_PasswordSecretRef g of None \<Rightarrow> '''' | Some ref \<Rightarrow> password_in E ref))
      (UserGroups (Spec server))" for E
  have "gs D = gs D'"
    unfolding gs_def by (intro map_cong refl arg_cong2 [where f = mkGroup]) (auto intro!: pw split: option.split)
  then show ?thesis
    unfolding hash_of_def gs_def [symmetric] using pw by (auto split: option.split)
qed

lemma storedPassword_data:
  "storedPassword S ns g = (case ug_PasswordSecretRef g of None \<Rightarrow> ''''
     | Some ref \<Rightarrow> password_in (\<lambda>n. secret_data (S (KSecret, ns, n))) ref)"
  by (auto simp: storedPassword_def password_in_def split: option.split kobj.split)

context kube_api
begin

lemma annotationHash_value:
  assumes "run_state (annotationHash p server) s = (Inr h, s')" "\<not> references server (sname server @ ''-config'')"
  shows "h = hash_of (\<lambda>n. secret_data (st s (KSecret, snamespace server, n))) server"
proof -
  have a: "touches {configKey server} (st s) (st s')" "hash_from accept (st s) (st s') server h"
    using runsD [OF runs_annotationHash refl assms(1)] by auto
  have "st s' (KSecret, snamespace server, skr_Name ref) = st s (KSecret, snamespace server, skr_Name ref)"
    if "ServerPasswordSecretRef (Spec server) = Some ref" for ref
    using touchesD [OF a(1)] assms(2) that by (auto simp: configKey_def references_def)
  with a(2) show ?thesis
    by (auto simp: hash_from_def hash_of_def password_in_def configText_settings [symmetric] configText_def configOf_def
        storedPassword_data split: if_splits option.splits)
qed

end

section \<open>Properties\<close>

text \<open>
  C32. A change of a Secret wakes up exactly the servers in its namespace that reference it, as the
  server password or as the password of a user group; when the listing fails, none.
\<close>

theorem secret_wakes_its_servers:
  assumes "field_index p store" "run_state (findServersForSecret p secret) s = (reqs, s')"
    "cl_ListByField p KServer (om_Namespace secret) secretIndex (om_Name secret) (env s) = (l, w)"
  shows "case l of
      Inl err \<Rightarrow> reqs = []
    | Inr xs \<Rightarrow> set reqs = {(ns, n). ns = om_Namespace secret \<and>
        (\<exists>server. store (env s) (KServer, ns, n) = Some (OServer server) \<and> references server (om_Name secret))}"
proof (cases l)
  case (Inl err)
  with assms(2,3) show ?thesis by (auto simp: findServersForSecret_def r_ListByField_def)
next
  case (Inr xs)
  with field_index.requests [OF assms(1) _ assms(2)] assms(3) show ?thesis by simp
qed

theorem secret_wakes_its_servers_witness:
  "\<exists>reqs s'. run_state (findServersForSecret mem_platform (new_meta ''pw'' ''games'' Map.empty))
      (world_init [OServer demo_groups]) = (reqs, s') \<and> (''games'', ''srv'') \<in> set reqs"
proof -
  let ?w = "world_init [OServer demo_groups]" and ?m = "new_meta ''pw'' ''games'' Map.empty"
  obtain reqs s' where run: "run_state (findServersForSecret mem_platform ?m) ?w = (reqs, s')"
    by (metis prod.exhaust)
  obtain xs where "cl_ListByField mem_platform KServer (om_Namespace ?m) secretIndex (om_Name ?m) (env ?w) = (Inr xs, env ?w)"
    by (simp add: mem_ListByField_def)
  from secret_wakes_its_servers [OF mem_index.field_index_axioms run this]
  have "set reqs = {(ns, n). ns = ''games'' \<and>
      (\<exists>server. mem_store (env ?w) (KServer, ns, n) = Some (OServer server) \<and> references server ''pw'')}"
    by (simp add: new_meta_def)
  moreover have "mem_store (env ?w) (KServer, ''games'', ''srv'') = Some (OServer demo_groups)"
    by (simp add: mem_eval demo_groups_def)
  moreover have "references demo_groups ''pw''" by (simp add: references_def demo_groups_def)
  ultimately have "(''games'', ''srv'') \<in> set reqs" by simp
  with run show ?thesis by (intro exI conjI)
qed

text \<open>
  C33. The hash annotated on the pods depends on nothing whose changes go unnoticed: for a server that
  does not reference its own generated Secret, two computations of the hash that succeed give the
  same value whenever the Secrets that the server references, for which the index wakes it up, hold
  the same data. Whatever else differs between the two moments, the stored configuration
  Secret included, the hash is the same.
\<close>

theorem hash_fixed_by_watched_secrets:
  assumes "kube_api p store accept" "sname server @ ''-config'' \<notin> set (allSecretRefs server)"
    "run_state (annotationHash p server) s = (Inr h, s')" "run_state (annotationHash p server) t = (Inr h', t')"
    "\<And>n. n \<in> set (allSecretRefs server) \<Longrightarrow>
       secret_data (store (env s) (KSecret, snamespace server, n)) =
       secret_data (store (env t) (KSecret, snamespace server, n))"
  shows "h = h'"
proof -
  have fixed: "h = hash_of (\<lambda>n. secret_data (store (env s) (KSecret, snamespace server, n))) server"
    if "run_state (annotationHash p server) s = (Inr h, s')" for s h s'
    using kube_api.annotationHash_value [OF assms(1) that] assms(2) by (simp add: set_allSecretRefs)
  show ?thesis
    unfolding fixed [OF assms(3)] fixed [OF assms(4)]
    by (rule hash_of_cong, rule assms(5)) (simp add: set_allSecretRefs)
qed

definition demo_stale_config :: "int kobj" where
  "demo_stale_config = OSecret \<lparr>sec_Meta = new_meta ''srv-config'' ''games'' Map.empty, sec_Data = [''enshrouded_server.json'' \<mapsto> ''{}'']\<rparr>"

lemma demo_hash_computed:
  assumes "w = world_init [demo_password] \<or> w = world_init [demo_password, demo_stale_config]"
  shows "\<exists>h s'. run_state (annotationHash mem_platform demo_groups) w = (Inr h, s')"
proof -
  obtain r s' where run: "run_state (reconcileConfigSecret mem_platform demo_groups) w = (r, s')" by (metis prod.exhaust)
  have "\<exists>h. r = Inr h"
    using run assms
    by (auto simp: reconcileConfigSecret_def buildServerConfigJSON_def groupPassword_def r_Get_def r_Create_def r_Update_def
        demo_groups_def demo_password_def demo_stale_config_def sname_def snamespace_def mem_SetControllerReference_def
        mem_Create_def mem_Update_def mem_eval Let_def notFound_def IsNotFound_def)
  moreover have "UserGroups (Spec demo_groups) \<noteq> []" by (simp add: demo_groups_def)
  ultimately show ?thesis using run by (auto simp: annotationHash_def)
qed

theorem hash_fixed_by_watched_secrets_witness:
  "\<exists>h s' t'. run_state (annotationHash mem_platform demo_groups) (world_init [demo_password]) = (Inr h, s') \<and>
     run_state (annotationHash mem_platform demo_groups) (world_init [demo_password, demo_stale_config]) = (Inr h, t')"
proof -
  obtain h s' h' t' where run: "run_state (annotationHash mem_platform demo_groups) (world_init [demo_password]) = (Inr h, s')"
    "run_state (annotationHash mem_platform demo_groups) (world_init [demo_password, demo_stale_config]) = (Inr h', t')"
    using demo_hash_computed by (metis (no_types, lifting))
  have refs: "set (allSecretRefs demo_groups) = {''pw''}" "snamespace demo_groups = ''games''" "sname demo_groups = ''srv''"
    by (simp_all add: allSecretRefs_def demo_groups_def demo_spec_def List.map_filter_def snamespace_def sname_def demo_def new_meta_def)
  have same: "secret_data (mem_store (env (world_init [demo_password])) (KSecret, ''games'', ''pw'')) =
      secret_data (mem_store (env (world_init [demo_password, demo_stale_config])) (KSecret, ''games'', ''pw''))"
    by (simp add: mem_eval demo_password_def demo_stale_config_def)
  have "h = h'"
    by (rule hash_fixed_by_watched_secrets [OF mem_api.kube_api_axioms _ run]) (use refs same in auto)
  with run show ?thesis by blast
qed

end
