(* ===== verification/A2S_Query.thy ===== *)
theory A2S_Query
  imports Go_Prelude "HOL-Library.Sublist"
begin

text \<open>
  The packets of the Steam query protocol in the metrics sidecar (\<^verbatim>\<open>cmd/metrics-sidecar/main.go\<close>):
  \<^verbatim>\<open>buildA2SInfoRequest\<close>, the cursor \<^verbatim>\<open>byteReader\<close> and \<^verbatim>\<open>parseA2SInfo\<close>. A packet is a list of bytes; a
  Go string is the HOL string of the same bytes.

  Shown: the cursor never leaves the packet when it reads, the reader of strings finds the text up
  to the first zero byte, the parser accepts exactly the packets of the protocol and reads back
  what a server encoded, and a packet that ends early yields zero players.
\<close>


section \<open>The code\<close>

definition a2sHeader :: "byte list" where
  "a2sHeader = [0xFF, 0xFF, 0xFF, 0xFF]"

definition bytes_of :: "string \<Rightarrow> byte list" where
  "bytes_of s = map (\<lambda>c. word_of_nat (of_char c)) s"

definition string_of :: "byte list \<Rightarrow> string" where
  "string_of bs = map (\<lambda>b. char_of (unat b)) bs"

definition buildA2SInfoRequest :: "byte list \<Rightarrow> byte list" where
  "buildA2SInfoRequest challenge =
    (let payload = ''Source Engine Query'' @ [CHR 0x00]
     in a2sHeader @ [0x54] @ bytes_of payload @ challenge)"

record A2SInfo =
  ai_Name :: string
  ai_MapName :: string
  ai_Players :: byte
  ai_MaxPlayers :: byte
  ai_Version :: string

record byteReader =
  br_data :: "byte list"
  br_pos :: nat

definition EOF :: gerror where
  "EOF = Errorf ''EOF''"

definition readByte :: "byteReader \<Rightarrow> (byte \<times> gerror option) \<times> byteReader" where
  "readByte r =
    (if br_pos r \<ge> length (br_data r) then ((0, Some EOF), r)
     else ((br_data r ! br_pos r, None), r\<lparr>br_pos := br_pos r + 1\<rparr>))"

text \<open>\<^verbatim>\<open>binary.LittleEndian.Uint16\<close> reads two bytes.\<close>

definition readUint16LE :: "byteReader \<Rightarrow> (16 word \<times> gerror option) \<times> byteReader" where
  "readUint16LE r =
    (if br_pos r + 2 > length (br_data r) then ((0, Some EOF), r)
     else ((ucast (br_data r ! br_pos r) + 256 * ucast (br_data r ! (br_pos r + 1)), None),
           r\<lparr>br_pos := br_pos r + 2\<rparr>))"

function readString_loop :: "nat \<Rightarrow> byteReader \<Rightarrow> (string \<times> gerror option) \<times> byteReader" where
  "readString_loop start r =
    (if br_pos r < length (br_data r) then
       if br_data r ! br_pos r = 0
       then ((string_of (drop start (take (br_pos r) (br_data r))), None), r\<lparr>br_pos := br_pos r + 1\<rparr>)
       else readString_loop start (r\<lparr>br_pos := br_pos r + 1\<rparr>)
     else (('''', Some (Errorf (''unterminated string starting at byte '' @ show_nat start))), r))"
  by pat_completeness auto
termination
  by (relation "measure (\<lambda>(start, r). length (br_data r) - br_pos r)") auto

declare readString_loop.simps [simp del]

definition readString :: "byteReader \<Rightarrow> (string \<times> gerror option) \<times> byteReader" where
  "readString r = readString_loop (br_pos r) r"

definition skip :: "nat \<Rightarrow> byteReader \<Rightarrow> byteReader" where
  "skip n r = r\<lparr>br_pos := br_pos r + n\<rparr>"

text \<open>The verbs \<^verbatim>\<open>%X\<close> and \<^verbatim>\<open>%02X\<close>.\<close>

definition hexDigit :: "nat \<Rightarrow> char" where
  "hexDigit n = (if n < 10 then char_of (48 + n) else char_of (55 + n))"

definition hex2 :: "byte \<Rightarrow> string" where
  "hex2 b = [hexDigit (unat b div 16), hexDigit (unat b mod 16)]"

definition parseFields :: "byteReader \<Rightarrow> gerror + A2SInfo" where
  "parseFields r0 =
    (let ((name, err1), r1) = readString r0 in
     case err1 of Some e \<Rightarrow> Inl (wrapErr ''reading server name'' e) | None \<Rightarrow>
    (let ((mapName, err2), r2) = readString r1 in
     case err2 of Some e \<Rightarrow> Inl (wrapErr ''reading map name'' e) | None \<Rightarrow>
    (let ((folder, err3), r3) = readString r2 in
     case err3 of Some e \<Rightarrow> Inl (wrapErr ''reading folder'' e) | None \<Rightarrow>
    (let ((game, err4), r4) = readString r3 in
     case err4 of Some e \<Rightarrow> Inl (wrapErr ''reading game'' e) | None \<Rightarrow>
    (let r5 = skip 2 r4;
         ((players, ign1), r6) = readByte r5;
         ((maxPlayers, ign2), r7) = readByte r6;
         r8 = skip 1 (skip 1 (skip 1 (skip 1 (skip 1 r7))));
         ((version, ign3), r9) = readString r8
     in Inr \<lparr>ai_Name = name, ai_MapName = mapName, ai_Players = players, ai_MaxPlayers = maxPlayers,
              ai_Version = version\<rparr>)))))"

definition parseA2SInfo :: "byte list \<Rightarrow> gerror + A2SInfo" where
  "parseA2SInfo data =
    (if length data < 6 then Inl (Errorf (''A2S_INFO response too short: '' @ show_nat (length data) @ '' bytes''))
     else if take 4 data \<noteq> a2sHeader
     then Inl (Errorf (''A2S_INFO: invalid header 0x'' @ concat (map hex2 (take 4 data))))
     else if data ! 4 \<noteq> 0x49
     then Inl (Errorf (''A2S_INFO: unexpected type byte 0x'' @ hex2 (data ! 4) @ '' (expected 0x49)''))
     else parseFields \<lparr>br_data = data, br_pos = 6\<rparr>)"

lemma readString_loop_error: "readString_loop start r = ((s, Some e), r') \<Longrightarrow> e \<noteq> NoResult"
proof (induction start r rule: readString_loop.induct)
  case (1 start r)
  then show ?case by (auto simp: readString_loop.simps [of start r] Errorf_def split: if_splits)
qed

lemma parseA2SInfo_result: "parseA2SInfo data \<noteq> Inl NoResult"
proof -
  have "wrapErr m e \<noteq> NoResult" if "readString r = ((s, Some e), r')" for m s e r r'
    using readString_loop_error [OF that [unfolded readString_def]] by (cases e) auto
  then show ?thesis
    by (auto simp: parseA2SInfo_def parseFields_def Errorf_def Let_def split: prod.splits option.splits)
qed

section \<open>The cursor\<close>

text \<open>A zero-terminated text at the front of what is left, and what follows it.\<close>

definition cstring :: "byte list \<Rightarrow> (byte list \<times> byte list) option" where
  "cstring bs = (if 0 \<in> set bs then Some (takeWhile (\<lambda>b. b \<noteq> 0) bs, tl (dropWhile (\<lambda>b. b \<noteq> 0) bs)) else None)"

definition rest :: "byteReader \<Rightarrow> byte list" where
  "rest r = drop (br_pos r) (br_data r)"

lemma cstring_simps:
  "cstring [] = None" "cstring (0 # bs) = Some ([], bs)"
  "b \<noteq> 0 \<Longrightarrow> cstring (b # bs) = map_option (\<lambda>(s, t). (b # s, t)) (cstring bs)"
  by (auto simp: cstring_def)

lemma cstring_encode: "0 \<notin> set s \<Longrightarrow> cstring (s @ 0 # t) = Some (s, t)"
  by (induction s) (auto simp: cstring_simps)

lemma cstring_decode: "cstring bs = Some (s, t) \<longleftrightarrow> bs = s @ 0 # t \<and> 0 \<notin> set s"
proof
  show "cstring bs = Some (s, t) \<Longrightarrow> bs = s @ 0 # t \<and> 0 \<notin> set s"
  proof (induction bs arbitrary: s)
    case (Cons b bs)
    then show ?case by (cases "b = 0") (auto simp: cstring_simps)
  qed (simp add: cstring_simps)
qed (auto intro: cstring_encode)

lemma readString_loop_rest:
  assumes "start \<le> br_pos r" "br_pos r \<le> length (br_data r)"
    and "readString_loop start r = ((s, e), r')"
  shows "br_data r' = br_data r \<and>
    (case cstring (rest r) of
       Some (t, u) \<Rightarrow> e = None \<and> s = string_of (drop start (take (br_pos r) (br_data r)) @ t) \<and>
         rest r' = u \<and> br_pos r' \<le> length (br_data r)
     | None \<Rightarrow> s = '''' \<and> e = Some (Errorf (''unterminated string starting at byte '' @ show_nat start)))"
  using assms
proof (induction start r rule: readString_loop.induct)
  case (1 start r)
  show ?case
  proof (cases "br_pos r < length (br_data r)")
    case False
    with 1(3,4) show ?thesis by (simp add: readString_loop.simps [of start r] rest_def cstring_simps)
  next
    case True
    then have rest: "rest r = br_data r ! br_pos r # drop (Suc (br_pos r)) (br_data r)"
      by (simp add: rest_def Cons_nth_drop_Suc)
    show ?thesis
    proof (cases "br_data r ! br_pos r = 0")
      case z: True
      with 1(4) True rest show ?thesis
        by (auto simp: readString_loop.simps [of start r] cstring_simps rest_def)
    next
      case nz: False
      let ?r = "r\<lparr>br_pos := br_pos r + 1\<rparr>"
      have "rest ?r = drop (Suc (br_pos r)) (br_data r)" by (simp add: rest_def)
      moreover have "drop start (take (Suc (br_pos r)) (br_data r)) =
          drop start (take (br_pos r) (br_data r)) @ [br_data r ! br_pos r]"
        using True 1(2) by (simp add: take_Suc_conv_app_nth)
      ultimately show ?thesis
        using 1(1) [OF True nz] 1(2,4) True nz rest
        by (auto simp: readString_loop.simps [of start r] cstring_simps split: option.splits)
    qed
  qed
qed

lemma readString_rest:
  assumes "readString r = ((s, e), r')"
  shows "br_data r' = br_data r"
    "cstring (rest r) = Some (t, u) \<Longrightarrow> s = string_of t \<and> e = None \<and> rest r' = u"
    "cstring (rest r) = None \<Longrightarrow> s = '''' \<and> e \<noteq> None"
proof -
  have "br_data r' = br_data r \<and>
    (case cstring (rest r) of Some (t, u) \<Rightarrow> s = string_of t \<and> e = None \<and> rest r' = u | None \<Rightarrow> s = '''' \<and> e \<noteq> None)"
  proof (cases "br_pos r \<le> length (br_data r)")
    case True
    from readString_loop_rest [OF order_refl True assms [unfolded readString_def]] show ?thesis
      by (auto split: option.splits)
  next
    case False
    with assms show ?thesis
      by (auto simp: readString_def readString_loop.simps [of _ r] rest_def cstring_simps)
  qed
  then show "br_data r' = br_data r" "cstring (rest r) = Some (t, u) \<Longrightarrow> s = string_of t \<and> e = None \<and> rest r' = u"
    "cstring (rest r) = None \<Longrightarrow> s = '''' \<and> e \<noteq> None" by auto
qed

text \<open>Reading a byte, with the error ignored as in the parser: zero beyond the end.\<close>

definition byte_at :: "nat \<Rightarrow> byte list \<Rightarrow> byte" where
  "byte_at i bs = (if i < length bs then bs ! i else 0)"

lemma rest_skip [simp]: "rest (skip n r) = drop n (rest r)" "br_data (skip n r) = br_data r"
  by (simp_all add: rest_def skip_def add.commute)

lemma readByte_rest:
  assumes "readByte r = ((b, e), r')"
  shows "b = byte_at 0 (rest r)" "rest r' = drop 1 (rest r)"
  using assms by (auto simp: readByte_def rest_def byte_at_def split: if_splits)

section \<open>The packets of the protocol\<close>

text \<open>
  A response: header, type, protocol version, four texts, then the numbers and the version text
  (\<open>numbers\<close>), of which a short packet may miss a part.
\<close>

definition packet :: "byte \<Rightarrow> byte list \<Rightarrow> byte list \<Rightarrow> byte list \<Rightarrow> byte list \<Rightarrow> byte list \<Rightarrow> byte list" where
  "packet proto name mapName folder game numbers =
     a2sHeader @ [0x49, proto] @ name @ [0] @ mapName @ [0] @ folder @ [0] @ game @ [0] @ numbers"

definition version_in :: "byte list \<Rightarrow> string" where
  "version_in numbers = (case cstring (drop 9 numbers) of Some (v, _) \<Rightarrow> string_of v | None \<Rightarrow> '''')"

definition info_of :: "byte list \<Rightarrow> byte list \<Rightarrow> byte list \<Rightarrow> A2SInfo" where
  "info_of name mapName numbers = \<lparr>ai_Name = string_of name, ai_MapName = string_of mapName,
     ai_Players = byte_at 2 numbers, ai_MaxPlayers = byte_at 3 numbers, ai_Version = version_in numbers\<rparr>"

lemma byte_at_drop: "byte_at 0 (drop n bs) = byte_at n bs"
  by (simp add: byte_at_def)

lemma parseFields_tail:
  assumes "readString r = ((s1, e1), r1)" "readString r1 = ((s2, e2), r2)" "readString r2 = ((s3, e3), r3)"
    "readString r3 = ((s4, e4), r4)"
  shows "\<exists>b1 b2 v. b1 = byte_at 2 (rest r4) \<and> b2 = byte_at 3 (rest r4) \<and> v = version_in (rest r4) \<and>
    parseFields r = (case e1 of Some e \<Rightarrow> Inl (wrapErr ''reading server name'' e) | None \<Rightarrow>
      (case e2 of Some e \<Rightarrow> Inl (wrapErr ''reading map name'' e) | None \<Rightarrow>
      (case e3 of Some e \<Rightarrow> Inl (wrapErr ''reading folder'' e) | None \<Rightarrow>
      (case e4 of Some e \<Rightarrow> Inl (wrapErr ''reading game'' e) | None \<Rightarrow>
        Inr \<lparr>ai_Name = s1, ai_MapName = s2, ai_Players = b1, ai_MaxPlayers = b2, ai_Version = v\<rparr>))))"
proof -
  obtain b1 f1 r6 where b1: "readByte (skip 2 r4) = ((b1, f1), r6)" by (metis prod.exhaust)
  obtain b2 f2 r7 where b2: "readByte r6 = ((b2, f2), r7)" by (metis prod.exhaust)
  obtain v e9 r9 where v: "readString (skip 1 (skip 1 (skip 1 (skip 1 (skip 1 r7))))) = ((v, e9), r9)"
    by (metis prod.exhaust)
  have "b1 = byte_at 2 (rest r4)" "b2 = byte_at 3 (rest r4)" "v = version_in (rest r4)"
    using readByte_rest [OF b1] readByte_rest [OF b2] readString_rest(2,3) [OF v]
    by (auto simp: byte_at_drop version_in_def numeral_eq_Suc split: option.splits)
  moreover have "parseFields r = (case e1 of Some e \<Rightarrow> Inl (wrapErr ''reading server name'' e) | None \<Rightarrow>
      (case e2 of Some e \<Rightarrow> Inl (wrapErr ''reading map name'' e) | None \<Rightarrow>
      (case e3 of Some e \<Rightarrow> Inl (wrapErr ''reading folder'' e) | None \<Rightarrow>
      (case e4 of Some e \<Rightarrow> Inl (wrapErr ''reading game'' e) | None \<Rightarrow>
        Inr \<lparr>ai_Name = s1, ai_MapName = s2, ai_Players = b1, ai_MaxPlayers = b2, ai_Version = v\<rparr>))))"
    using v by (simp add: parseFields_def assms b1 b2 Let_def split: option.split)
  ultimately show ?thesis by blast
qed

lemma parseFields_rest:
  "parseFields r = Inr info \<longleftrightarrow>
     (\<exists>n m fo g t1 t2 t3 numbers. cstring (rest r) = Some (n, t1) \<and> cstring t1 = Some (m, t2) \<and>
        cstring t2 = Some (fo, t3) \<and> cstring t3 = Some (g, numbers) \<and> info = info_of n m numbers)"
proof -
  obtain s1 e1 r1 where 1: "readString r = ((s1, e1), r1)" by (metis prod.exhaust)
  obtain s2 e2 r2 where 2: "readString r1 = ((s2, e2), r2)" by (metis prod.exhaust)
  obtain s3 e3 r3 where 3: "readString r2 = ((s3, e3), r3)" by (metis prod.exhaust)
  obtain s4 e4 r4 where 4: "readString r3 = ((s4, e4), r4)" by (metis prod.exhaust)
  from parseFields_tail [OF 1 2 3 4] obtain b1 b2 v where
    tail: "b1 = byte_at 2 (rest r4)" "b2 = byte_at 3 (rest r4)" "v = version_in (rest r4)" and
    parse: "parseFields r = (case e1 of Some e \<Rightarrow> Inl (wrapErr ''reading server name'' e) | None \<Rightarrow>
      (case e2 of Some e \<Rightarrow> Inl (wrapErr ''reading map name'' e) | None \<Rightarrow>
      (case e3 of Some e \<Rightarrow> Inl (wrapErr ''reading folder'' e) | None \<Rightarrow>
      (case e4 of Some e \<Rightarrow> Inl (wrapErr ''reading game'' e) | None \<Rightarrow>
        Inr \<lparr>ai_Name = s1, ai_MapName = s2, ai_Players = b1, ai_MaxPlayers = b2, ai_Version = v\<rparr>))))" by blast
  show ?thesis
  proof (cases "cstring (rest r)")
    case None
    with readString_rest(3) [OF 1] parse show ?thesis by (auto split: option.splits)
  next
    case c1: (Some p1)
    obtain n t1 where p1: "p1 = (n, t1)" by (cases p1)
    note r1 = readString_rest(2) [OF 1 c1 [unfolded p1]]
    show ?thesis
    proof (cases "cstring t1")
      case None
      with readString_rest(3) [OF 2] r1 c1 p1 parse show ?thesis by (auto split: option.splits)
    next
      case c2: (Some p2)
      obtain m t2 where p2: "p2 = (m, t2)" by (cases p2)
      note r2 = readString_rest(2) [OF 2, of m t2]
      show ?thesis
      proof (cases "cstring t2")
        case None
        with readString_rest(3) [OF 3] r1 r2 c1 c2 p1 p2 parse show ?thesis by (auto split: option.splits)
      next
        case c3: (Some p3)
        obtain fo t3 where p3: "p3 = (fo, t3)" by (cases p3)
        show ?thesis
          using readString_rest(2) [OF 3, of fo t3] readString_rest(2,3) [OF 4] r1 r2 c1 c2 c3 p1 p2 p3 parse tail
          by (cases "cstring t3") (auto simp: info_of_def split: option.splits)
      qed
    qed
  qed
qed

lemma parse_iff:
  "parseA2SInfo data = Inr info \<longleftrightarrow>
     (\<exists>proto name mapName folder game numbers.
        data = packet proto name mapName folder game numbers \<and>
        0 \<notin> set name \<and> 0 \<notin> set mapName \<and> 0 \<notin> set folder \<and> 0 \<notin> set game \<and> info = info_of name mapName numbers)"
  (is "_ \<longleftrightarrow> ?R")
proof
  assume parse: "parseA2SInfo data = Inr info"
  then have ok: "6 \<le> length data" "take 4 data = a2sHeader" "data ! 4 = 0x49"
    "parseFields \<lparr>br_data = data, br_pos = 6\<rparr> = Inr info"
    by (auto simp: parseA2SInfo_def split: if_splits)
  have "data = take 4 data @ data ! 4 # data ! 5 # drop 6 data"
    using ok(1) Cons_nth_drop_Suc [of 4 data] Cons_nth_drop_Suc [of 5 data] append_take_drop_id [of 4 data] by simp
  with ok have data: "data = a2sHeader @ [0x49, data ! 5] @ drop 6 data" by simp
  from ok(4) obtain n m fo g t1 t2 t3 numbers where c: "cstring (drop 6 data) = Some (n, t1)" "cstring t1 = Some (m, t2)"
    "cstring t2 = Some (fo, t3)" "cstring t3 = Some (g, numbers)" "info = info_of n m numbers"
    by (auto simp: parseFields_rest rest_def)
  have "data = packet (data ! 5) n m fo g numbers"
    by (subst data) (use c in \<open>simp add: cstring_decode packet_def\<close>)
  with c show ?R unfolding cstring_decode by blast
next
  assume ?R
  then show "parseA2SInfo data = Inr info"
    by (auto simp: parseA2SInfo_def packet_def a2sHeader_def parseFields_rest rest_def cstring_encode)
qed

text \<open>A server's answer: the numbers the sidecar skips are arbitrary, the texts contain no zero.\<close>

definition encodeA2SInfo :: "byte \<Rightarrow> string \<Rightarrow> string \<Rightarrow> byte list \<Rightarrow> byte list \<Rightarrow> byte list \<Rightarrow> A2SInfo \<Rightarrow> byte list" where
  "encodeA2SInfo proto folder game appId flags extra info =
     packet proto (bytes_of (ai_Name info)) (bytes_of (ai_MapName info)) (bytes_of folder) (bytes_of game)
       (appId @ [ai_Players info, ai_MaxPlayers info] @ flags @ bytes_of (ai_Version info) @ [0] @ extra)"

lemma string_of_bytes_of [simp]: "string_of (bytes_of s) = s"
  by (induction s) (simp_all add: string_of_def bytes_of_def unat_of_nat)

lemma zero_bytes_of: "0 \<in> set (bytes_of s) \<longleftrightarrow> CHR 0x00 \<in> set s"
proof -
  have "(word_of_nat (of_char c) :: byte) = 0 \<longleftrightarrow> c = CHR 0x00" for c
  proof -
    have small: "of_char c < (256::nat)" using of_char_mod_256 [where ?'a = nat, of c] by (metis mod_less_divisor zero_less_numeral)
    have "256 dvd (of_char c :: nat) \<longleftrightarrow> of_char c = (0 :: nat)"
      using small nat_dvd_not_less [of "of_char c" 256] by fastforce
    then have "(word_of_nat (of_char c) :: byte) = 0 \<longleftrightarrow> of_char c = (of_char (CHR 0x00) :: nat)"
      by (simp add: word_of_nat_eq_0_iff)
    then show ?thesis by (simp only: of_char_eq_iff)
  qed
  then show ?thesis unfolding bytes_of_def set_map image_iff by metis
qed

lemma info_of_encoded:
  assumes "length appId = 2" "length flags = 5" "CHR 0x00 \<notin> set (ai_Version info)"
  shows "info_of (bytes_of (ai_Name info)) (bytes_of (ai_MapName info))
      (appId @ [ai_Players info, ai_MaxPlayers info] @ flags @ bytes_of (ai_Version info) @ [0] @ extra) = info"
  using assms
  by (simp add: info_of_def byte_at_def nth_append version_in_def zero_bytes_of cstring_encode)

section \<open>Properties\<close>

text \<open>
  C36. The parser accepts exactly the response packets: a packet yields \<open>info\<close> if and only if it is
  the header, the type byte, a version byte, four texts ended by a zero byte and anything after
  them, and \<open>info\<close> holds the first two texts, the bytes at their places behind the texts, and the
  version text; bytes beyond the end of the packet count as zero and an unfinished version as empty.
\<close>

theorem parse_accepts_exactly_packets:
  "parseA2SInfo data = Inr info \<longleftrightarrow>
     (\<exists>proto name mapName folder game numbers.
        data = [0xFF, 0xFF, 0xFF, 0xFF, 0x49, proto] @ name @ [0] @ mapName @ [0] @ folder @ [0] @ game @ [0] @ numbers \<and>
        0 \<notin> set name \<and> 0 \<notin> set mapName \<and> 0 \<notin> set folder \<and> 0 \<notin> set game \<and>
        info = \<lparr>ai_Name = string_of name, ai_MapName = string_of mapName, ai_Players = byte_at 2 numbers,
                ai_MaxPlayers = byte_at 3 numbers, ai_Version = version_in numbers\<rparr>)"
  unfolding parse_iff packet_def info_of_def a2sHeader_def by simp

text \<open>
  C37. Round trip: what a server encodes (texts without zero bytes, any protocol version, folder,
  game, application id, flags and extra data) is read back.
\<close>

theorem parse_encode_roundtrip:
  assumes "CHR 0x00 \<notin> set (ai_Name info)" "CHR 0x00 \<notin> set (ai_MapName info)" "CHR 0x00 \<notin> set (ai_Version info)"
    "CHR 0x00 \<notin> set folder" "CHR 0x00 \<notin> set game" "length appId = 2" "length flags = 5"
  shows "parseA2SInfo (encodeA2SInfo proto folder game appId flags extra info) = Inr info"
  unfolding parse_iff encodeA2SInfo_def
  using info_of_encoded [OF assms(6,7,3), of extra] zero_bytes_of assms by fastforce

theorem parse_encode_roundtrip_witness:
  "parseA2SInfo (encodeA2SInfo 17 ''enshrouded'' ''Enshrouded'' [0, 0] [0, 100, 108, 0, 1] []
     \<lparr>ai_Name = ''Demo'', ai_MapName = ''Embervale'', ai_Players = 3, ai_MaxPlayers = 16, ai_Version = ''0.8''\<rparr>) =
   Inr \<lparr>ai_Name = ''Demo'', ai_MapName = ''Embervale'', ai_Players = 3, ai_MaxPlayers = 16, ai_Version = ''0.8''\<rparr>"
  by (rule parse_encode_roundtrip) simp_all

end
