(* ===== verification/Go_Time.thy ===== *)
theory Go_Time
  imports Go_Prelude
begin

text \<open>
  The functions of the Go library that turn the sidecar's environment variables into numbers:
  \<^verbatim>\<open>strconv.Atoi\<close> (the value it returns; the caller ignores the error) and \<^verbatim>\<open>time.ParseDuration\<close>, with
  its limits on overflow and its fractions, which it computes in double precision.
\<close>

section \<open>strconv.Atoi\<close>

definition maxInt :: int where "maxInt = 2 ^ 63 - 1"

definition Atoi :: "string \<Rightarrow> int" where
  "Atoi s =
    (let neg = (s \<noteq> [] \<and> hd s = CHR ''-'');
         ds = (if s \<noteq> [] \<and> (hd s = CHR ''-'' \<or> hd s = CHR ''+'') then tl s else s)
     in if ds = [] \<or> \<not> list_all is_digit ds then 0
        else if neg then max (- int (read_nat ds)) (- maxInt - 1)
        else min (int (read_nat ds)) maxInt)"

lemma list_all_digits: "list_all is_digit (show_nat n)"
  using show_nat_digits [of n] by (simp add: list_all_iff)

lemma hd_show_nat: "is_digit (hd (show_nat n))"
  using show_nat_digits [of n] by simp

lemma Atoi_show_nat: "int n \<le> maxInt \<Longrightarrow> Atoi (show_nat n) = int n"
  using hd_show_nat [of n] list_all_digits [of n] by (auto simp: Atoi_def Let_def is_digit_def)

lemma Atoi_show_int:
  assumes "- maxInt - 1 \<le> i" "i \<le> maxInt"
  shows "Atoi (show_int i) = i"
proof (cases "i < 0")
  case True
  with assms list_all_digits [of "nat (- i)"] show ?thesis by (simp add: show_int_def Atoi_def Let_def)
next
  case False
  with assms Atoi_show_nat [of "nat i"] show ?thesis by (simp add: show_int_def)
qed

section \<open>Rounding to double precision\<close>

text \<open>
  A positive rational \<open>a / b\<close> in the range of the normal numbers, rounded to 53 bits, to the nearest
  and to even in the middle, as a fraction.
\<close>

definition round_div :: "nat \<Rightarrow> nat \<Rightarrow> nat" where
  "round_div a b = (let q = a div b; r = a mod b in
     if 2 * r > b \<or> (2 * r = b \<and> odd q) then q + 1 else q)"

function scale_up :: "nat \<Rightarrow> nat \<Rightarrow> nat \<Rightarrow> nat" where
  "scale_up k a b = (if b = 0 \<or> a = 0 \<or> 2 ^ 52 * b \<le> a * 2 ^ k then k else scale_up (k + 1) a b)"
  by pat_completeness auto
termination
proof (relation "measure (\<lambda>(k, a, b). 2 ^ 52 * b - a * 2 ^ k)")
  fix k a b :: nat
  assume "\<not> (b = 0 \<or> a = 0 \<or> 2 ^ 52 * b \<le> a * 2 ^ k)"
  then have "0 < a" "a * 2 ^ k < 2 ^ 52 * b" by auto
  moreover from this(1) have "a * 2 ^ k < a * 2 ^ (k + 1)" by simp
  ultimately show "((k + 1, a, b), k, a, b) \<in> measure (\<lambda>(k, a, b). 2 ^ 52 * b - a * 2 ^ k)"
    by (simp only: in_measure prod.case diff_less_mono2)
qed simp

function scale_down :: "nat \<Rightarrow> nat \<Rightarrow> nat \<Rightarrow> nat" where
  "scale_down k a b = (if b = 0 \<or> a < 2 ^ 53 * b * 2 ^ k then k else scale_down (k + 1) a b)"
  by pat_completeness auto
termination
proof (relation "measure (\<lambda>(k, a, b). a + 1 - 2 ^ 53 * b * 2 ^ k)")
  fix k a b :: nat
  assume "\<not> (b = 0 \<or> a < 2 ^ 53 * b * 2 ^ k)"
  then have "0 < b" "2 ^ 53 * b * 2 ^ k < a + 1" by auto
  moreover from this(1) have "2 ^ 53 * b * 2 ^ k < 2 ^ 53 * b * 2 ^ (k + 1)" by simp
  ultimately show "((k + 1, a, b), k, a, b) \<in> measure (\<lambda>(k, a, b). a + 1 - 2 ^ 53 * b * 2 ^ k)"
    by (simp only: in_measure prod.case diff_less_mono2)
qed simp

declare scale_up.simps [simp del] scale_down.simps [simp del]

definition to_double :: "nat \<times> nat \<Rightarrow> nat \<times> nat" where
  "to_double = (\<lambda>(a, b).
     let up = scale_up 0 a b; down = scale_down 0 a b
     in (round_div (a * 2 ^ up) (b * 2 ^ down) * 2 ^ down, 2 ^ up))"

definition double_times :: "nat \<times> nat \<Rightarrow> nat \<times> nat \<Rightarrow> nat \<times> nat" where
  "double_times x y = to_double (fst x * fst y, snd x * snd y)"

section \<open>time.ParseDuration\<close>

fun leadingInt :: "nat \<Rightarrow> string \<Rightarrow> (nat \<times> string) option" where
  "leadingInt x [] = Some (x, [])"
| "leadingInt x (c # s) =
    (if \<not> is_digit c then Some (x, c # s)
     else if x > 2 ^ 63 div 10 then None
     else let x' = x * 10 + digit_val c in if x' > 2 ^ 63 then None else leadingInt x' s)"

text \<open>The value, the power of ten by which it is to be divided, and what follows.\<close>

fun leadingFraction :: "nat \<Rightarrow> nat \<Rightarrow> bool \<Rightarrow> string \<Rightarrow> nat \<times> nat \<times> string" where
  "leadingFraction x scale overflow [] = (x, scale, [])"
| "leadingFraction x scale overflow (c # s) =
    (if \<not> is_digit c then (x, scale, c # s)
     else if overflow then leadingFraction x scale True s
     else if x > (2 ^ 63 - 1) div 10 then leadingFraction x scale True s
     else let y = x * 10 + digit_val c in
       if y > 2 ^ 63 then leadingFraction x scale True s else leadingFraction y (scale * 10) False s)"

definition unitMap :: "string \<Rightarrow> nat option" where
  "unitMap u =
    (if u = ''ns'' then Some 1
     else if u = ''us'' \<or> u = [CHR 0xC2, CHR 0xB5, CHR ''s''] \<or> u = [CHR 0xCE, CHR 0xBC, CHR ''s''] then Some 1000
     else if u = ''ms'' then Some 1000000
     else if u = ''s'' then Some 1000000000
     else if u = ''m'' then Some 60000000000
     else if u = ''h'' then Some 3600000000000
     else None)"

definition unitChar :: "char \<Rightarrow> bool" where
  "unitChar c \<longleftrightarrow> c \<noteq> CHR ''.'' \<and> \<not> is_digit c"

text \<open>One number with its unit: its nanoseconds and what follows, or an error.\<close>

definition durationPart :: "string \<Rightarrow> (nat \<times> string) option" where
  "durationPart s0 =
    (case leadingInt 0 s0 of
       None \<Rightarrow> None
     | Some (v, s1) \<Rightarrow>
        let pre = (length s0 \<noteq> length s1);
            dot = (s1 \<noteq> [] \<and> hd s1 = CHR ''.'');
            (f, scale, s2) = (if dot then leadingFraction 0 1 False (tl s1) else (0, 1, s1));
            post = (dot \<and> length (tl s1) \<noteq> length s2);
            u = takeWhile unitChar s2; s3 = dropWhile unitChar s2
        in if \<not> pre \<and> \<not> post then None
           else if u = [] then None
           else (case unitMap u of
              None \<Rightarrow> None
            | Some unit \<Rightarrow>
               if v > 2 ^ 63 div unit then None
               else let w = v * unit + (if f > 0
                      then (case double_times (to_double (f, 1)) (to_double (unit, scale)) of (a, b) \<Rightarrow> a div b) else 0)
                    in if w > 2 ^ 63 then None else Some (w, s3)))"

lemma leadingInt_length: "leadingInt x s = Some (y, t) \<Longrightarrow> length t \<le> length s"
  by (induction x s rule: leadingInt.induct) (auto simp: Let_def split: if_splits)

lemma leadingFraction_length: "leadingFraction x k ov s = (y, k', t) \<Longrightarrow> length t \<le> length s"
  by (induction x k ov s rule: leadingFraction.induct) (auto simp: Let_def split: if_splits)

lemma durationPart_shorter:
  assumes "durationPart s = Some (w, t)"
  shows "length t < length s"
proof -
  from assms obtain v s1 where 1: "leadingInt 0 s = Some (v, s1)"
    by (auto simp: durationPart_def split: option.splits)
  define dot where "dot = (s1 \<noteq> [] \<and> hd s1 = CHR ''.'')"
  obtain f scale s2 where 2: "(if dot then leadingFraction 0 1 False (tl s1) else (0, 1, s1)) = (f, scale, s2)"
    by (metis prod.exhaust)
  have "length s2 \<le> length s1"
    using 2 leadingFraction_length [of 0 1 False "tl s1" f scale s2] by (auto split: if_splits)
  moreover have "takeWhile unitChar s2 \<noteq> []" "t = dropWhile unitChar s2"
    using assms 1 2 by (auto simp: durationPart_def dot_def Let_def split: if_splits option.splits prod.splits)
  moreover from this(1) have "length (dropWhile unitChar s2) < length s2"
    by (metis length_append length_greater_0_conv less_add_same_cancel2 takeWhile_dropWhile_id)
  ultimately show ?thesis using leadingInt_length [OF 1] by simp
qed

function durationSum :: "nat \<Rightarrow> string \<Rightarrow> nat option" where
  "durationSum d s =
    (if s = [] then Some d
     else if hd s \<noteq> CHR ''.'' \<and> \<not> is_digit (hd s) then None
     else (case durationPart s of
        None \<Rightarrow> None
      | Some (v, t) \<Rightarrow> if d + v > 2 ^ 63 then None else durationSum (d + v) t))"
  by pat_completeness auto
termination
  by (relation "measure (\<lambda>(d, s). length s)") (auto dest: durationPart_shorter)

declare durationSum.simps [simp del]

definition ParseDuration :: "string \<Rightarrow> int option" where
  "ParseDuration orig =
    (let neg = (orig \<noteq> [] \<and> hd orig = CHR ''-'');
         s = (if orig \<noteq> [] \<and> (hd orig = CHR ''-'' \<or> hd orig = CHR ''+'') then tl orig else orig)
     in if s = ''0'' then Some 0
        else if s = [] then None
        else (case durationSum 0 s of
           None \<Rightarrow> None
         | Some d \<Rightarrow> if neg then Some (- int d) else if d > 2 ^ 63 - 1 then None else Some (int d)))"

lemma leadingInt_digits:
  assumes "list_all is_digit ds" "t = [] \<or> \<not> is_digit (hd t)"
    "foldl (\<lambda>n c. n * 10 + digit_val c) x ds \<le> 2 ^ 63"
  shows "leadingInt x (ds @ t) = Some (foldl (\<lambda>n c. n * 10 + digit_val c) x ds, t)"
  using assms
proof (induction ds arbitrary: x)
  case Nil
  then show ?case by (cases t) auto
next
  case (Cons c ds)
  have mono: "x \<le> foldl (\<lambda>n c. n * 10 + digit_val c) x es" for x es
  proof (induction es arbitrary: x)
    case (Cons e es)
    from Cons [of "x * 10 + digit_val e"] show ?case by simp
  qed simp
  from mono [of "x * 10 + digit_val c" ds] Cons.prems(3) have "x * 10 + digit_val c \<le> 2 ^ 63" by simp
  moreover from this have "x \<le> 2 ^ 63 div 10" by simp
  ultimately show ?case using Cons by (simp add: Let_def)
qed

lemma ParseDuration_seconds:
  assumes "n * 1000000000 < 2 ^ 63"
  shows "ParseDuration (show_nat n @ ''s'') = Some (int n * 1000000000)"
proof -
  have li: "leadingInt 0 (show_nat n @ ''s'') = Some (n, ''s'')"
    using leadingInt_digits [OF list_all_digits, of "''s''" 0 n] assms read_show_nat [of n]
    by (simp add: read_nat_def is_digit_def)
  have "n \<le> 2 ^ 63 div 1000000000" using assms by simp
  with li have part: "durationPart (show_nat n @ ''s'') = Some (n * 1000000000, [])"
    using assms by (simp add: durationPart_def Let_def unitChar_def is_digit_def unitMap_def)
  have hd: "is_digit (hd (show_nat n @ ''s''))" using hd_show_nat [of n] by simp
  then have sum: "durationSum 0 (show_nat n @ ''s'') = Some (n * 1000000000)"
    using part assms by (simp add: durationSum.simps)
  from hd have "hd (show_nat n @ ''s'') \<noteq> CHR ''-''" "hd (show_nat n @ ''s'') \<noteq> CHR ''+''"
    by (auto simp: is_digit_def)
  moreover have "show_nat n @ ''s'' \<noteq> ''0''"
    using show_nat_not_Nil [of n] by (cases "show_nat n") auto
  ultimately show ?thesis using sum assms by (simp add: ParseDuration_def Let_def)
qed

lemma ParseDuration_negative: "ParseDuration (CHR ''-'' # s) = Some d \<Longrightarrow> d \<le> 0"
  by (auto simp: ParseDuration_def Let_def split: if_splits option.splits)

text \<open>The numbers of a container's environment are 32-bit.\<close>

lemma Atoi_word: "Atoi (show_int (sint (port :: int32))) = sint port"
  using sint_lt [of port] sint_ge [of port] by (intro Atoi_show_int) (simp_all add: maxInt_def)

lemma show_int_not_Nil: "show_int i \<noteq> []"
  by (simp add: show_int_def)

text \<open>Results stay within 64 bits.\<close>

lemma durationSum_bound: "durationSum d s = Some v \<Longrightarrow> d \<le> 2 ^ 63 \<Longrightarrow> v \<le> 2 ^ 63"
proof (induction d s arbitrary: v rule: durationSum.induct)
  case (1 d s)
  then show ?case by (auto simp: durationSum.simps [of d s] split: if_splits option.splits)
qed

lemma ParseDuration_bounds: "ParseDuration s = Some d \<Longrightarrow> - maxInt - 1 \<le> d \<and> d \<le> maxInt"
proof -
  have "int v \<le> 2 ^ 63" if "durationSum 0 t = Some v" for t v
    using durationSum_bound [OF that] by (metis bot_nat_0.extremum of_nat_le_iff of_nat_numeral of_nat_power)
  then show "ParseDuration s = Some d \<Longrightarrow> - maxInt - 1 \<le> d \<and> d \<le> maxInt"
    by (auto simp: ParseDuration_def Let_def maxInt_def split: if_splits option.splits)
qed

lemma Atoi_bounds: "- maxInt - 1 \<le> Atoi s \<and> Atoi s \<le> maxInt"
  by (auto simp: Atoi_def Let_def maxInt_def)

end
