(* ===== verification/Metrics_Sidecar.thy ===== *)
theory Metrics_Sidecar
  imports Metrics A2S_Query Go_Time
begin

text \<open>
  The metrics sidecar (\<^verbatim>\<open>cmd/metrics-sidecar/main.go\<close>): its configuration (\<^verbatim>\<open>loadConfig\<close>), the query over
  an unconnected UDP socket (\<^verbatim>\<open>udpRoundTrip\<close>, \<^verbatim>\<open>queryA2SInfo\<close>), the status patch (\<^verbatim>\<open>patchServerStatus\<close>),
  the scrape with its gauges (\<^verbatim>\<open>scrape\<close>), the loop over the ticks of \<^verbatim>\<open>main\<close>, and the readiness
  endpoint (\<^verbatim>\<open>makeReadyzHandler\<close>).

  The socket is a parameter, the record \<open>network\<close>, whose calls may change the environment. An address
  is represented by its text, which is what the code compares. The loop that waits for a packet of
  the right peer runs on fuel: \<open>Inl NoResult\<close> says that it was still waiting; the locale
  \<open>udp_deadline\<close> states that only finitely many packets arrive before the deadline, and under it
  enough fuel is shown to give a result.
\<close>

section \<open>Configuration\<close>

record config =
  queryHost :: string
  queryPort :: int
  metricsAddr :: string
  scrapeInterval :: int
  serverNamespace :: string
  serverName :: string
  patchStatusEnabled :: bool

text \<open>\<open>getenv\<close> is \<^verbatim>\<open>os.Getenv\<close>: the empty string for a variable that is not set.\<close>

definition envOrDefault :: "(string \<Rightarrow> string) \<Rightarrow> string \<Rightarrow> string \<Rightarrow> string" where
  "envOrDefault getenv key def = (if getenv key \<noteq> '''' then getenv key else def)"

definition loadConfig :: "(string \<Rightarrow> string) \<Rightarrow> config" where
  "loadConfig getenv =
    (let port = Atoi (envOrDefault getenv ''QUERY_PORT'' ''15637'');
         port = (if port \<le> 0 then 15637 else port);
         interval = (case ParseDuration (envOrDefault getenv ''SCRAPE_INTERVAL'' ''15s'') of
                       None \<Rightarrow> 15 * 1000000000
                     | Some d \<Rightarrow> if d < 5 * 1000000000 then 15 * 1000000000 else d);
         v = getenv ''STATUS_PATCH_ENABLED'';
         patchEnabled = \<not> (v = ''false'' \<or> v = ''0'')
     in \<lparr>queryHost = envOrDefault getenv ''QUERY_HOST'' ''127.0.0.1'',
         queryPort = port,
         metricsAddr = envOrDefault getenv ''METRICS_ADDR'' '':9090'',
         scrapeInterval = interval,
         serverNamespace = getenv ''SERVER_NAMESPACE'',
         serverName = getenv ''SERVER_NAME'',
         patchStatusEnabled = patchEnabled\<rparr>)"

section \<open>The query\<close>

record 'w network =
  nw_ResolveUDPAddr :: "string \<Rightarrow> 'w \<Rightarrow> (gerror + string) \<times> 'w"
  nw_ListenPacket :: "'w \<Rightarrow> gerror option \<times> 'w"
  nw_SetDeadline :: "int \<Rightarrow> 'w \<Rightarrow> gerror option \<times> 'w"
  nw_WriteTo :: "byte list \<Rightarrow> string \<Rightarrow> 'w \<Rightarrow> gerror option \<times> 'w"
  nw_ReadFrom :: "'w \<Rightarrow> (gerror + byte list \<times> string) \<times> 'w"
  nw_Close :: "'w \<Rightarrow> 'w"

definition net_Resolve :: "'w network \<Rightarrow> string \<Rightarrow> ('w, 'q, gerror + string) M" where
  "net_Resolve net addr = call (nw_ResolveUDPAddr net addr) (\<lambda>r. EvNet (NetResolve addr r))"

definition net_Listen :: "'w network \<Rightarrow> ('w, 'q, gerror option) M" where
  "net_Listen net = call (nw_ListenPacket net) (\<lambda>e. EvNet (NetListen e))"

definition net_SetDeadline :: "'w network \<Rightarrow> int \<Rightarrow> ('w, 'q, gerror option) M" where
  "net_SetDeadline net t = call (nw_SetDeadline net t) (\<lambda>e. EvNet (NetDeadline t e))"

definition net_WriteTo :: "'w network \<Rightarrow> byte list \<Rightarrow> string \<Rightarrow> ('w, 'q, gerror option) M" where
  "net_WriteTo net req raddr = call (nw_WriteTo net req raddr) (\<lambda>e. EvNet (NetSend req raddr e))"

definition net_ReadFrom :: "'w network \<Rightarrow> ('w, 'q, gerror + byte list \<times> string) M" where
  "net_ReadFrom net = call (nw_ReadFrom net) (\<lambda>r. EvNet (NetReceive r))"

definition net_Close :: "'w network \<Rightarrow> ('w, 'q, unit) M" where
  "net_Close net = call (\<lambda>w. ((), nw_Close net w)) (\<lambda>_. EvNet NetClose)"

lemmas net_defs = net_Resolve_def net_Listen_def net_SetDeadline_def net_WriteTo_def net_ReadFrom_def net_Close_def

text \<open>A datagram is cut to the buffer of 4096 bytes it is read into.\<close>

definition bufSize :: nat where
  "bufSize = 4096"

fun awaitReply :: "'w network \<Rightarrow> string \<Rightarrow> nat \<Rightarrow> ('w, 'q, gerror + byte list) M" where
  "awaitReply net raddr 0 = State_Monad.return (Inl NoResult)"
| "awaitReply net raddr (Suc fuel) = do {
     r \<leftarrow> net_ReadFrom net;
     (case r of
        Inl err \<Rightarrow> State_Monad.return (Inl (wrapErr ''reading A2S_INFO response'' err))
      | Inr (pkt, from) \<Rightarrow>
          if from = raddr then State_Monad.return (Inr (take bufSize pkt))
          else awaitReply net raddr fuel)
   }"

definition udpRoundTrip ::
  "('w, 'q) platform \<Rightarrow> 'w network \<Rightarrow> nat \<Rightarrow> byte list \<Rightarrow> string \<Rightarrow> int \<Rightarrow> ('w, 'q, gerror + byte list) M" where
  "udpRoundTrip p net fuel req raddr timeout = do {
     now \<leftarrow> time_Now p;
     d \<leftarrow> net_SetDeadline net (now + timeout);
     (case d of
        Some err \<Rightarrow> State_Monad.return (Inl err)
      | None \<Rightarrow> do {
          w \<leftarrow> net_WriteTo net req raddr;
          (case w of
             Some err \<Rightarrow> State_Monad.return (Inl (wrapErr ''sending A2S_INFO request'' err))
           | None \<Rightarrow> awaitReply net raddr fuel)
        })
   }"

definition isChallenge :: "byte list \<Rightarrow> bool" where
  "isChallenge resp \<longleftrightarrow> length resp \<ge> 9 \<and> take 4 resp = a2sHeader \<and> resp ! 4 = 0x41"

definition exchange ::
  "('w, 'q) platform \<Rightarrow> 'w network \<Rightarrow> nat \<Rightarrow> string \<Rightarrow> int \<Rightarrow> ('w, 'q, gerror + A2SInfo) M" where
  "exchange p net fuel raddr timeout = do {
     r \<leftarrow> udpRoundTrip p net fuel (buildA2SInfoRequest [0xFF, 0xFF, 0xFF, 0xFF]) raddr timeout;
     (case r of
        Inl err \<Rightarrow> State_Monad.return (Inl err)
      | Inr resp \<Rightarrow>
          if isChallenge resp then do {
            r2 \<leftarrow> udpRoundTrip p net fuel (buildA2SInfoRequest (drop 5 (take 9 resp))) raddr timeout;
            State_Monad.return (case r2 of
              Inl err \<Rightarrow> Inl (wrapErr ''A2S_INFO (after challenge)'' err)
            | Inr resp2 \<Rightarrow> parseA2SInfo resp2)
          }
          else State_Monad.return (parseA2SInfo resp))
   }"

definition queryA2SInfo ::
  "('w, 'q) platform \<Rightarrow> 'w network \<Rightarrow> nat \<Rightarrow> string \<Rightarrow> int \<Rightarrow> ('w, 'q, gerror + A2SInfo) M" where
  "queryA2SInfo p net fuel addr timeout = do {
     a \<leftarrow> net_Resolve net addr;
     (case a of
        Inl err \<Rightarrow> State_Monad.return (Inl (wrapErr (''resolving '' @ addr) err))
      | Inr raddr \<Rightarrow> do {
          l \<leftarrow> net_Listen net;
          (case l of
             Some err \<Rightarrow> State_Monad.return (Inl (wrapErr ''opening UDP socket'' err))
           | None \<Rightarrow> do {
               r \<leftarrow> exchange p net fuel raddr timeout;
               net_Close net;
               State_Monad.return r
             })
        })
   }"

section \<open>The gauges\<close>

definition newMetrics :: "(gauge \<times> GaugeVec) list" where
  "newMetrics = [
     (GServerUp, \<lparr>go_Namespace = ''enshrouded'', go_Subsystem = '''', go_Name = ''server_up'',
        go_Help = ''1 if the game server responds to A2S queries, 0 otherwise.''\<rparr>, [''server_name'']),
     (GActivePlayers, \<lparr>go_Namespace = ''enshrouded'', go_Subsystem = '''', go_Name = ''active_players'',
        go_Help = ''Number of players currently connected to the game server.''\<rparr>, [''server_name'']),
     (GMaxPlayers, \<lparr>go_Namespace = ''enshrouded'', go_Subsystem = '''', go_Name = ''max_players'',
        go_Help = ''Maximum number of player slots configured on the game server.''\<rparr>, [''server_name'']),
     (GServerInfo, \<lparr>go_Namespace = ''enshrouded'', go_Subsystem = '''', go_Name = ''server_info'',
        go_Help = ''Static server information. Value is always 1 when the server is up.''\<rparr>, [''server_name'', ''map'', ''version''])]"

lemma labelled_sidecar [simp]:
  "labelled newMetrics GServerUp [a]" "labelled newMetrics GActivePlayers [a]"
  "labelled newMetrics GMaxPlayers [a]" "labelled newMetrics GServerInfo [a, b, c]"
  by (simp_all add: labelled_def newMetrics_def)

section \<open>The status patch\<close>

definition patchServerStatus ::
  "('w, 'q) platform \<Rightarrow> string \<Rightarrow> string \<Rightarrow> int32 \<Rightarrow> string \<Rightarrow> ('w, 'q, unit) M" where
  "patchServerStatus p ns name players gameVersion = do {
     g \<leftarrow> r_Get p KServer ns name;
     (case as_Server g of
        Inl err \<Rightarrow> State_Monad.return ()
      | Inr server \<Rightarrow>
          if ActivePlayers (Status server) = players \<and> GameVersion (Status server) = gameVersion
          then State_Monad.return ()
          else do {
            r_StatusPatch p (OServer server) (OServer (server\<lparr>Status := (Status server)\<lparr>
              ActivePlayers := players, GameVersion := gameVersion\<rparr>\<rparr>));
            State_Monad.return ()
          })
   }"

section \<open>The scrape\<close>

text \<open>What \<^verbatim>\<open>main\<close> keeps between ticks: the last answer, whether there ever was one, and \<^verbatim>\<open>isUp\<close>.\<close>

record scrapeState =
  previousInfo :: "A2SInfo option"
  everUp :: bool
  isUp :: bool

definition patchWanted :: "config \<Rightarrow> bool \<Rightarrow> bool" where
  "patchWanted cfg k8sClient \<longleftrightarrow>
     k8sClient \<and> patchStatusEnabled cfg \<and> serverNamespace cfg \<noteq> '''' \<and> serverName cfg \<noteq> ''''"

definition scrapeFailed ::
  "('w, 'q) platform \<Rightarrow> config \<Rightarrow> bool \<Rightarrow> scrapeState \<Rightarrow> ('w, 'q, scrapeState) M" where
  "scrapeFailed p cfg k8sClient st = do {
     gauge_Set p GServerUp [serverName cfg] 0;
     gauge_Set p GActivePlayers [serverName cfg] 0;
     (if patchWanted cfg k8sClient then patchServerStatus p (serverNamespace cfg) (serverName cfg) 0 ''''
      else State_Monad.return ());
     State_Monad.return (st\<lparr>previousInfo := None, isUp := False\<rparr>)
   }"

definition infoChanged :: "A2SInfo option \<Rightarrow> A2SInfo \<Rightarrow> bool" where
  "infoChanged prev info \<longleftrightarrow>
     (case prev of None \<Rightarrow> True | Some i \<Rightarrow> ai_MapName i \<noteq> ai_MapName info \<or> ai_Version i \<noteq> ai_Version info)"

definition publishInfo ::
  "('w, 'q) platform \<Rightarrow> config \<Rightarrow> A2SInfo option \<Rightarrow> A2SInfo \<Rightarrow> ('w, 'q, unit) M" where
  "publishInfo p cfg prev info =
    (if infoChanged prev info then do {
       (case prev of
          Some i \<Rightarrow> gauge_Delete p GServerInfo [serverName cfg, ai_MapName i, ai_Version i]
        | None \<Rightarrow> State_Monad.return ());
       gauge_Set p GServerInfo [serverName cfg, ai_MapName info, ai_Version info] 1
     }
     else State_Monad.return ())"

definition scrapeSucceeded ::
  "('w, 'q) platform \<Rightarrow> config \<Rightarrow> bool \<Rightarrow> scrapeState \<Rightarrow> A2SInfo \<Rightarrow> ('w, 'q, scrapeState) M" where
  "scrapeSucceeded p cfg k8sClient st info = do {
     gauge_Set p GServerUp [serverName cfg] 1;
     gauge_Set p GActivePlayers [serverName cfg] (uint (ai_Players info));
     gauge_Set p GMaxPlayers [serverName cfg] (uint (ai_MaxPlayers info));
     publishInfo p cfg (previousInfo st) info;
     (if patchWanted cfg k8sClient
      then patchServerStatus p (serverNamespace cfg) (serverName cfg) (ucast (ai_Players info)) (ai_Version info)
      else State_Monad.return ());
     State_Monad.return \<lparr>previousInfo = Some info, everUp = True, isUp = True\<rparr>
   }"

text \<open>\<open>None\<close>: the query has not returned.\<close>

definition scrape ::
  "('w, 'q) platform \<Rightarrow> 'w network \<Rightarrow> nat \<Rightarrow> config \<Rightarrow> bool \<Rightarrow> scrapeState \<Rightarrow> ('w, 'q, scrapeState option) M" where
  "scrape p net fuel cfg k8sClient st = do {
     r \<leftarrow> queryA2SInfo p net fuel (queryHost cfg @ '':'' @ show_int (queryPort cfg)) (3 * 1000000000);
     (case r of
        Inl err \<Rightarrow>
          if err = NoResult then State_Monad.return None
          else do { st' \<leftarrow> scrapeFailed p cfg k8sClient st; State_Monad.return (Some st') }
      | Inr info \<Rightarrow> do { st' \<leftarrow> scrapeSucceeded p cfg k8sClient st info; State_Monad.return (Some st') })
   }"

text \<open>The first \<open>n\<close> ticks of the loop in \<^verbatim>\<open>main\<close>.\<close>

definition startState :: scrapeState where
  "startState = \<lparr>previousInfo = None, everUp = False, isUp = False\<rparr>"

fun scrapeTicks ::
  "('w, 'q) platform \<Rightarrow> 'w network \<Rightarrow> nat \<Rightarrow> config \<Rightarrow> bool \<Rightarrow> nat \<Rightarrow> scrapeState \<Rightarrow> ('w, 'q, scrapeState option) M" where
  "scrapeTicks p net fuel cfg k8sClient 0 st = State_Monad.return (Some st)"
| "scrapeTicks p net fuel cfg k8sClient (Suc n) st = do {
     r \<leftarrow> scrape p net fuel cfg k8sClient st;
     (case r of None \<Rightarrow> State_Monad.return None | Some st' \<Rightarrow> scrapeTicks p net fuel cfg k8sClient n st')
   }"

text \<open>The status code the readiness endpoint answers with.\<close>

definition makeReadyzHandler :: "bool \<Rightarrow> int" where
  "makeReadyzHandler up = (if up then 200 else 503)"

text \<open>Which handler of \<^verbatim>\<open>main\<close> answers a path: with a status code, or the Prometheus library.\<close>

datatype answer = StatusCode int | PrometheusHandler

definition serveMux :: "bool \<Rightarrow> string \<Rightarrow> answer" where
  "serveMux up path =
    (if path = ''/metrics'' then PrometheusHandler
     else if path = ''/healthz'' then StatusCode 200
     else if path = ''/readyz'' then StatusCode (makeReadyzHandler up)
     else StatusCode 404)"

section \<open>The handshake\<close>

definition sent :: "'q event list \<Rightarrow> (byte list \<times> string) list" where
  "sent es = List.map_filter (\<lambda>ev. case ev of EvNet (NetSend b a _) \<Rightarrow> Some (b, a) | _ \<Rightarrow> None) es"

lemma sent_simps [simp]:
  "sent [] = []" "sent (EvNet (NetSend b a e) # es) = (b, a) # sent es"
  "(\<And>b a e. ev \<noteq> EvNet (NetSend b a e)) \<Longrightarrow> sent (ev # es) = sent es"
  "sent (xs @ ys) = sent xs @ sent ys"
  by (auto simp: sent_def List.map_filter_def split: event.splits net_event.splits)

text \<open>The reply of the awaited peer is the last packet that was received.\<close>

definition reply :: "string \<Rightarrow> byte list \<Rightarrow> 'q event list \<Rightarrow> bool" where
  "reply raddr resp es \<longleftrightarrow>
     (\<exists>pkt. resp = take bufSize pkt \<and> es \<noteq> [] \<and> last es = EvNet (NetReceive (Inr (pkt, raddr))))"

lemma run_awaitReply:
  assumes "run_state (awaitReply net raddr fuel) s = (r, s')"
  shows "\<exists>es. trace s' = trace s @ es \<and> sent es = [] \<and> (\<forall>resp. r = Inr resp \<longrightarrow> reply raddr resp es)"
  using assms
proof (induction fuel arbitrary: s)
  case 0
  then show ?case by auto
next
  case (Suc fuel)
  obtain a w where a: "nw_ReadFrom net (env s) = (a, w)" by (metis prod.exhaust)
  let ?s = "s\<lparr>env := w, trace := trace s @ [EvNet (NetReceive a)]\<rparr>"
  show ?case
  proof (cases a)
    case (Inl err)
    with Suc.prems a show ?thesis
      by (intro exI [of _ "[EvNet (NetReceive a)]"]) (auto simp: net_ReadFrom_def)
  next
    case (Inr x)
    obtain pkt peer where x: "x = (pkt, peer)" by (cases x)
    show ?thesis
    proof (cases "peer = raddr")
      case True
      with Suc.prems a Inr x show ?thesis
        by (intro exI [of _ "[EvNet (NetReceive a)]"]) (auto simp: net_ReadFrom_def reply_def)
    next
      case False
      with Suc.prems a Inr x have "run_state (awaitReply net raddr fuel) ?s = (r, s')" by (simp add: net_ReadFrom_def)
      from Suc.IH [OF this] obtain es where "trace s' = trace s @ EvNet (NetReceive a) # es" "sent es = []"
        "\<forall>resp. r = Inr resp \<longrightarrow> reply raddr resp es" by auto
      then show ?thesis by (intro exI [of _ "EvNet (NetReceive a) # es"]) (auto simp: reply_def)
    qed
  qed
qed

lemma run_udpRoundTrip:
  assumes "run_state (udpRoundTrip p net fuel req raddr timeout) s = (r, s')"
  shows "\<exists>es. trace s' = trace s @ es \<and> (sent es = [] \<or> sent es = [(req, raddr)]) \<and>
    (\<forall>resp. r = Inr resp \<longrightarrow> sent es = [(req, raddr)] \<and> reply raddr resp es)"
proof -
  obtain t w1 where t: "tm_Now p (env s) = (t, w1)" by (metis prod.exhaust)
  obtain d w2 where d: "nw_SetDeadline net (t + timeout) w1 = (d, w2)" by (metis prod.exhaust)
  obtain e w3 where e: "nw_WriteTo net req raddr w2 = (e, w3)" by (metis prod.exhaust)
  note run = assms [unfolded udpRoundTrip_def time_Now_def net_SetDeadline_def net_WriteTo_def]
  let ?pre = "[EvNow t, EvNet (NetDeadline (t + timeout) d)]"
  show ?thesis
  proof (cases d)
    case (Some err)
    with run t d show ?thesis by (intro exI [of _ ?pre]) auto
  next
    case d0: None
    show ?thesis
    proof (cases e)
      case (Some err)
      with run t d d0 e show ?thesis
        by (intro exI [of _ "?pre @ [EvNet (NetSend req raddr e)]"]) auto
    next
      case None
      let ?s = "s\<lparr>env := w3, trace := trace s @ ?pre @ [EvNet (NetSend req raddr e)]\<rparr>"
      from run t d d0 e None have "run_state (awaitReply net raddr fuel) ?s = (r, s')" by simp
      from run_awaitReply [OF this] obtain es where "trace s' = trace s @ ?pre @ EvNet (NetSend req raddr e) # es"
        "sent es = []" "\<forall>resp. r = Inr resp \<longrightarrow> reply raddr resp es" by auto
      then show ?thesis
        by (intro exI [of _ "?pre @ EvNet (NetSend req raddr e) # es"]) (auto simp: reply_def)
    qed
  qed
qed

text \<open>The requests of one exchange: the first one, and one with the challenge the peer answered with.\<close>

definition firstRequest :: "byte list" where
  "firstRequest = buildA2SInfoRequest [0xFF, 0xFF, 0xFF, 0xFF]"

definition handshake :: "string \<Rightarrow> A2SInfo \<Rightarrow> 'q event list \<Rightarrow> bool" where
  "handshake raddr info es \<longleftrightarrow>
     (\<exists>resp. reply raddr resp es \<and> parseA2SInfo resp = Inr info \<and> \<not> isChallenge resp \<and> sent es = [(firstRequest, raddr)]) \<or>
     (\<exists>es1 es2 challenge resp. es = es1 @ es2 \<and> reply raddr challenge es1 \<and> isChallenge challenge \<and>
        sent es1 = [(firstRequest, raddr)] \<and> sent es2 = [(buildA2SInfoRequest (drop 5 (take 9 challenge)), raddr)] \<and>
        reply raddr resp es2 \<and> parseA2SInfo resp = Inr info)"

lemma run_exchange:
  assumes "run_state (exchange p net fuel raddr timeout) s = (Inr info, s')"
  shows "\<exists>es. trace s' = trace s @ es \<and> handshake raddr info es"
proof -
  obtain r1 s1 where 1: "run_state (udpRoundTrip p net fuel firstRequest raddr timeout) s = (r1, s1)" by (metis prod.exhaust)
  from assms 1 obtain resp where resp: "r1 = Inr resp" by (cases r1) (auto simp: exchange_def firstRequest_def)
  from run_udpRoundTrip [OF 1] resp obtain es1 where es1: "trace s1 = trace s @ es1"
    "sent es1 = [(firstRequest, raddr)]" "reply raddr resp es1" by auto
  show ?thesis
  proof (cases "isChallenge resp")
    case False
    with assms 1 resp have "parseA2SInfo resp = Inr info" "s' = s1" by (auto simp: exchange_def firstRequest_def)
    with es1 False show ?thesis unfolding handshake_def by blast
  next
    case True
    let ?req = "buildA2SInfoRequest (drop 5 (take 9 resp))"
    obtain r2 s2 where 2: "run_state (udpRoundTrip p net fuel ?req raddr timeout) s1 = (r2, s2)" by (metis prod.exhaust)
    from assms 1 resp True 2 obtain resp2 where resp2: "r2 = Inr resp2" "parseA2SInfo resp2 = Inr info" "s' = s2"
      by (cases r2) (auto simp: exchange_def firstRequest_def)
    from run_udpRoundTrip [OF 2] resp2 obtain es2 where "trace s2 = trace s1 @ es2"
      "sent es2 = [(?req, raddr)]" "reply raddr resp2 es2" by auto
    with es1 True resp2 show ?thesis unfolding handshake_def by (intro exI [of _ "es1 @ es2"]) auto
  qed
qed

section \<open>The wait ends\<close>

text \<open>
  \<open>pending w\<close> is a bound on the packets that can still be read before the deadline: every packet read
  lowers it, and setting a deadline bounds it.
\<close>

locale udp_deadline =
  fixes net :: "'w network" and pending :: "'w \<Rightarrow> nat" and bound :: nat
  assumes read_packet: "nw_ReadFrom net w = (Inr x, w') \<Longrightarrow> pending w' < pending w"
    and read_error: "nw_ReadFrom net w = (Inl e, w') \<Longrightarrow> e \<noteq> NoResult"
    and deadline_bound: "nw_SetDeadline net t w = (None, w') \<Longrightarrow> pending w' \<le> bound"
    and write_keeps: "nw_WriteTo net b a w = (None, w') \<Longrightarrow> pending w' \<le> pending w"
    and call_error: "nw_SetDeadline net t w = (Some e, w') \<Longrightarrow> e \<noteq> NoResult"
      "nw_WriteTo net b a w = (Some e, w') \<Longrightarrow> e \<noteq> NoResult"
      "nw_ResolveUDPAddr net n w = (Inl e, w') \<Longrightarrow> e \<noteq> NoResult"
      "nw_ListenPacket net w = (Some e, w') \<Longrightarrow> e \<noteq> NoResult"
begin

lemma wrapErr_result [simp]: "wrapErr m e = NoResult \<longleftrightarrow> e = NoResult"
  by (cases e) simp_all

lemma awaitReply_returns:
  assumes "run_state (awaitReply net raddr fuel) s = (r, s')" "pending (env s) < fuel"
  shows "r \<noteq> Inl NoResult"
  using assms
proof (induction fuel arbitrary: s)
  case (Suc fuel)
  obtain a w where a: "nw_ReadFrom net (env s) = (a, w)" by (metis prod.exhaust)
  show ?case
  proof (cases a)
    case (Inl err)
    with Suc.prems a read_error show ?thesis by (auto simp: net_ReadFrom_def)
  next
    case (Inr x)
    with a read_packet Suc.prems(2) have "pending w < fuel" by fastforce
    with Suc.IH [of "s\<lparr>env := w, trace := trace s @ [EvNet (NetReceive a)]\<rparr>"] Suc.prems(1) a Inr show ?thesis
      by (auto simp: net_ReadFrom_def split: prod.splits if_splits)
  qed
qed simp

lemma udpRoundTrip_returns:
  assumes "run_state (udpRoundTrip p net fuel req raddr timeout) s = (r, s')" "bound < fuel"
  shows "r \<noteq> Inl NoResult"
proof -
  obtain t w1 where t: "tm_Now p (env s) = (t, w1)" by (metis prod.exhaust)
  obtain d w2 where d: "nw_SetDeadline net (t + timeout) w1 = (d, w2)" by (metis prod.exhaust)
  obtain e w3 where e: "nw_WriteTo net req raddr w2 = (e, w3)" by (metis prod.exhaust)
  note run = assms(1) [unfolded udpRoundTrip_def time_Now_def net_SetDeadline_def net_WriteTo_def]
  show ?thesis
  proof (cases d)
    case (Some err)
    with run t d call_error(1) show ?thesis by auto
  next
    case d0: None
    show ?thesis
    proof (cases e)
      case (Some err)
      with run t d d0 e call_error(2) show ?thesis by auto
    next
      case None
      have "pending w3 < fuel"
        using deadline_bound [of "t + timeout" w1 w2] write_keeps [of req raddr w2 w3] d d0 e None assms(2) by simp
      with awaitReply_returns run t d d0 e None show ?thesis by fastforce
    qed
  qed
qed

lemma exchange_returns:
  assumes "run_state (exchange p net fuel raddr timeout) s = (r, s')" "bound < fuel"
  shows "r \<noteq> Inl NoResult"
proof -
  obtain r1 s1 where 1: "run_state (udpRoundTrip p net fuel firstRequest raddr timeout) s = (r1, s1)" by (metis prod.exhaust)
  show ?thesis
  proof (cases r1)
    case (Inl e)
    with assms 1 udpRoundTrip_returns [OF 1 assms(2)] show ?thesis by (auto simp: exchange_def firstRequest_def)
  next
    case (Inr resp)
    obtain r2 s2 where 2: "run_state (udpRoundTrip p net fuel (buildA2SInfoRequest (drop 5 (take 9 resp))) raddr timeout) s1 = (r2, s2)"
      by (metis prod.exhaust)
    with assms 1 Inr udpRoundTrip_returns [OF 2 assms(2)] parseA2SInfo_result show ?thesis
      by (auto simp: exchange_def firstRequest_def split: if_splits sum.splits)
  qed
qed

lemma queryA2SInfo_returns:
  assumes "run_state (queryA2SInfo p net fuel addr timeout) s = (r, s')" "bound < fuel"
  shows "r \<noteq> Inl NoResult"
proof -
  obtain a w1 where a: "nw_ResolveUDPAddr net addr (env s) = (a, w1)" by (metis prod.exhaust)
  obtain l w2 where l: "nw_ListenPacket net w1 = (l, w2)" by (metis prod.exhaust)
  note run = assms(1) [unfolded queryA2SInfo_def net_Resolve_def net_Listen_def net_Close_def]
  show ?thesis
  proof (cases a)
    case (Inl err)
    with run a call_error(3) show ?thesis by auto
  next
    case a0: (Inr raddr)
    show ?thesis
    proof (cases l)
      case (Some err)
      with run a a0 l call_error(4) show ?thesis by auto
    next
      case None
      obtain r3 s3 where "run_state (exchange p net fuel raddr timeout)
          (s\<lparr>env := w2, trace := trace s @ [EvNet (NetResolve addr a), EvNet (NetListen l)]\<rparr>) = (r3, s3)"
        by (metis prod.exhaust)
      with exchange_returns [OF this assms(2)] run a a0 l None show ?thesis by auto
    qed
  qed
qed

lemma scrape_returns:
  assumes "run_state (scrape p net fuel cfg k8s st) s = (r, s')" "bound < fuel"
  shows "r \<noteq> None"
proof -
  obtain q s1 where q: "run_state (queryA2SInfo p net fuel (queryHost cfg @ '':'' @ show_int (queryPort cfg)) (3 * 1000000000)) s = (q, s1)"
    by (metis prod.exhaust)
  from queryA2SInfo_returns [OF q assms(2)] assms(1) q show ?thesis
    by (auto simp: scrape_def split: sum.splits prod.splits)
qed

lemma ticks_return:
  assumes "run_state (scrapeTicks p net fuel cfg k8s n st) s = (r, s')" "bound < fuel"
  shows "r \<noteq> None"
  using assms(1)
proof (induction n arbitrary: st s)
  case (Suc n)
  obtain q s1 where q: "run_state (scrape p net fuel cfg k8s st) s = (q, s1)" by (metis prod.exhaust)
  with scrape_returns [OF q assms(2)] Suc show ?case by (cases q) auto
qed auto

end

section \<open>The gauges\<close>

text \<open>The gauges agree with the state kept between ticks.\<close>

definition agrees :: "config \<Rightarrow> scrapeState \<Rightarrow> (gauge \<times> string list \<Rightarrow> int option) \<Rightarrow> bool" where
  "agrees cfg st G \<longleftrightarrow>
    (case previousInfo st of
       None \<Rightarrow> \<not> isUp st \<and> G (GServerUp, [serverName cfg]) = Some 0 \<and> G (GActivePlayers, [serverName cfg]) = Some 0
     | Some i \<Rightarrow> isUp st \<and> everUp st \<and> G (GServerUp, [serverName cfg]) = Some 1 \<and>
         G (GActivePlayers, [serverName cfg]) = Some (uint (ai_Players i)) \<and>
         G (GMaxPlayers, [serverName cfg]) = Some (uint (ai_MaxPlayers i)) \<and>
         G (GServerInfo, [serverName cfg, ai_MapName i, ai_Version i]) = Some 1)"

locale sidecar_env = gauge_registry p gval
  for p :: "('w, 'q) platform" and gval :: "'w \<Rightarrow> gauge \<times> string list \<Rightarrow> int option" +
  fixes net :: "'w network"
  assumes net_gval: "gval (snd (nw_ResolveUDPAddr net n w)) = gval w" "gval (snd (nw_ListenPacket net w)) = gval w"
      "gval (snd (nw_SetDeadline net t w)) = gval w" "gval (snd (nw_WriteTo net b n w)) = gval w"
      "gval (snd (nw_ReadFrom net w)) = gval w" "gval (nw_Close net w) = gval w"
    and client_gval: "gval (snd (cl_Get p k ns n w)) = gval w" "gval (snd (cl_StatusPatch p x y w)) = gval w"
      "gval (snd (tm_Now p w)) = gval w"
begin

abbreviation gauges :: "('w, 'q) world \<Rightarrow> gauge \<times> string list \<Rightarrow> int option" where
  "gauges s \<equiv> gval (env s)"

lemma keeps_call: "(\<And>w. gval (snd (f w)) = gval w) \<Longrightarrow> keeps gauges (call f ev)"
  by (auto simp: keeps_def split: prod.splits) (metis snd_conv)

lemma keeps_net [keeps_intros]:
  "keeps gauges (net_Resolve net n)" "keeps gauges (net_Listen net)" "keeps gauges (net_SetDeadline net t)"
  "keeps gauges (net_WriteTo net b n)" "keeps gauges (net_ReadFrom net)" "keeps gauges (net_Close net)"
  "keeps gauges (r_Get p k ns n)" "keeps gauges (r_StatusPatch p x y)" "keeps gauges (time_Now p)"
  unfolding net_defs client_defs by (rule keeps_call; simp add: net_gval client_gval)+

lemma keeps_awaitReply [keeps_intros]: "keeps gauges (awaitReply net raddr fuel)"
proof (induction fuel)
  case 0
  show ?case by (simp add: keeps_return)
next
  case (Suc fuel)
  then show ?case unfolding awaitReply.simps by (intro keeps_intros)
qed

lemma keeps_query: "keeps gauges (queryA2SInfo p net fuel addr timeout)"
  unfolding queryA2SInfo_def exchange_def udpRoundTrip_def by (intro keeps_intros)

lemma keeps_patch: "keeps gauges (patchServerStatus p ns n players v)"
  unfolding patchServerStatus_def by (intro keeps_intros)

lemma gauges_failed:
  assumes "run_state (scrapeFailed p cfg k8s st) s = (st', s')"
  shows "st' = st\<lparr>previousInfo := None, isUp := False\<rparr>"
    "gauges s' = (gauges s)((GServerUp, [serverName cfg]) \<mapsto> 0, (GActivePlayers, [serverName cfg]) \<mapsto> 0)"
  using assms keepsD [OF keeps_patch]
  by (auto simp: scrapeFailed_def gauge_Set_def set_gval split: prod.splits if_splits)

lemma gauges_publishInfo:
  assumes "run_state (publishInfo p cfg prev info) s = (u, s')"
  shows "gauges s' = (if infoChanged prev info
     then (case prev of
        Some i \<Rightarrow> (gauges s)((GServerInfo, [serverName cfg, ai_MapName i, ai_Version i]) := None)
      | None \<Rightarrow> gauges s)((GServerInfo, [serverName cfg, ai_MapName info, ai_Version info]) \<mapsto> 1)
     else gauges s)"
  using assms
  by (cases prev) (auto simp: publishInfo_def gauge_Set_def gauge_Delete_def set_gval delete_gval split: if_splits)

lemma gauges_succeeded:
  assumes "run_state (scrapeSucceeded p cfg k8s st info) s = (st', s')"
  shows "st' = \<lparr>previousInfo = Some info, everUp = True, isUp = True\<rparr>"
    "gauges s' (GServerUp, [serverName cfg]) = Some 1"
    "gauges s' (GActivePlayers, [serverName cfg]) = Some (uint (ai_Players info))"
    "gauges s' (GMaxPlayers, [serverName cfg]) = Some (uint (ai_MaxPlayers info))"
    "gauges s' (GServerInfo, l) = (if infoChanged (previousInfo st) info
     then (case previousInfo st of
        Some i \<Rightarrow> (gauges s)((GServerInfo, [serverName cfg, ai_MapName i, ai_Version i]) := None)
      | None \<Rightarrow> gauges s)((GServerInfo, [serverName cfg, ai_MapName info, ai_Version info]) \<mapsto> 1)
     else gauges s) (GServerInfo, l)"
proof -
  let ?n = "serverName cfg"
  let ?s1 = "s\<lparr>env := pm_Set p GMaxPlayers [?n] (uint (ai_MaxPlayers info)) (pm_Set p GActivePlayers [?n] (uint (ai_Players info)) (pm_Set p GServerUp [?n] 1 (env s))),
    trace := trace s @ [EvGaugeSet GServerUp [?n] 1, EvGaugeSet GActivePlayers [?n] (uint (ai_Players info)), EvGaugeSet GMaxPlayers [?n] (uint (ai_MaxPlayers info))]\<rparr>"
  obtain u s2 where pub: "run_state (publishInfo p cfg (previousInfo st) info) ?s1 = (u, s2)" by (metis prod.exhaust)
  have "gauges s' = gauges s2" "st' = \<lparr>previousInfo = Some info, everUp = True, isUp = True\<rparr>"
    using assms pub keepsD [OF keeps_patch]
    by (auto simp: scrapeSucceeded_def gauge_Set_def split: prod.splits if_splits)
  moreover note gauges_publishInfo [OF pub]
  ultimately show "st' = \<lparr>previousInfo = Some info, everUp = True, isUp = True\<rparr>"
    "gauges s' (GServerUp, [serverName cfg]) = Some 1"
    "gauges s' (GActivePlayers, [serverName cfg]) = Some (uint (ai_Players info))"
    "gauges s' (GMaxPlayers, [serverName cfg]) = Some (uint (ai_MaxPlayers info))"
    "gauges s' (GServerInfo, l) = (if infoChanged (previousInfo st) info
     then (case previousInfo st of
        Some i \<Rightarrow> (gauges s)((GServerInfo, [serverName cfg, ai_MapName i, ai_Version i]) := None)
      | None \<Rightarrow> gauges s)((GServerInfo, [serverName cfg, ai_MapName info, ai_Version info]) \<mapsto> 1)
     else gauges s) (GServerInfo, l)"
    by (simp_all add: set_gval split: option.split)
qed

lemma scrape_cases:
  assumes "run_state (scrape p net fuel cfg k8s st) s = (Some st', s')"
  shows "(\<exists>s1. gauges s1 = gauges s \<and> run_state (scrapeFailed p cfg k8s st) s1 = (st', s')) \<or>
    (\<exists>s1 info. gauges s1 = gauges s \<and> run_state (scrapeSucceeded p cfg k8s st info) s1 = (st', s'))"
proof -
  obtain q s1 where q: "run_state (queryA2SInfo p net fuel (queryHost cfg @ '':'' @ show_int (queryPort cfg)) (3 * 1000000000)) s = (q, s1)"
    by (metis prod.exhaust)
  from keepsD [OF keeps_query q] have same: "gauges s1 = gauges s" .
  show ?thesis
  proof (cases q)
    case (Inl e)
    with assms q same show ?thesis by (auto simp: scrape_def split: prod.splits if_splits)
  next
    case (Inr info)
    with assms q same show ?thesis by (auto simp: scrape_def split: prod.splits)
  qed
qed

lemma scrape_agrees:
  assumes "run_state (scrape p net fuel cfg k8s st) s = (Some st', s')" "previousInfo st = None \<or> agrees cfg st (gauges s)"
  shows "agrees cfg st' (gauges s')"
  using scrape_cases [OF assms(1)]
proof (elim disjE exE conjE)
  fix s1
  assume "run_state (scrapeFailed p cfg k8s st) s1 = (st', s')"
  from gauges_failed [OF this] show ?thesis by (simp add: agrees_def)
next
  fix s1 info
  assume s1: "gauges s1 = gauges s" and run: "run_state (scrapeSucceeded p cfg k8s st info) s1 = (st', s')"
  from gauges_succeeded(1-4) [OF run] gauges_succeeded(5) [OF run, of "[serverName cfg, ai_MapName info, ai_Version info]"]
    assms(2) s1 show ?thesis
    by (auto simp: agrees_def infoChanged_def split: option.splits if_splits)
qed

lemma ticks_agree:
  assumes "run_state (scrapeTicks p net fuel cfg k8s n st) s = (Some st', s')"
    "previousInfo st = None \<or> agrees cfg st (gauges s)"
  shows "previousInfo st' = None \<or> agrees cfg st' (gauges s')"
  using assms
proof (induction n arbitrary: st s)
  case 0
  then show ?case by simp
next
  case (Suc n)
  obtain r s1 where r: "run_state (scrape p net fuel cfg k8s st) s = (r, s1)" by (metis prod.exhaust)
  with Suc.prems(1) obtain st1 where "r = Some st1" "run_state (scrapeTicks p net fuel cfg k8s n st1) s1 = (Some st', s')"
    by (cases r) auto
  with Suc scrape_agrees r show ?case by blast
qed

text \<open>What a tick does with the result of its query.\<close>

lemma scrape_query:
  assumes "run_state (scrape p net fuel cfg k8s st) s = (Some st', s')"
    "run_state (queryA2SInfo p net fuel (queryHost cfg @ '':'' @ show_int (queryPort cfg)) (3 * 1000000000)) s = (q, s1)"
  shows "case q of Inl e \<Rightarrow> run_state (scrapeFailed p cfg k8s st) s1 = (st', s')
    | Inr info \<Rightarrow> run_state (scrapeSucceeded p cfg k8s st info) s1 = (st', s')"
  using assms by (cases q) (auto simp: scrape_def split: prod.splits if_splits)

lemma tick_shows_query:
  assumes "run_state (scrape p net fuel cfg k8s st) s = (Some st', s')"
    "run_state (queryA2SInfo p net fuel (queryHost cfg @ '':'' @ show_int (queryPort cfg)) (3 * 1000000000)) s = (q, s1)"
    "previousInfo st = None \<or> agrees cfg st (gauges s)"
  shows "isUp st' = (case q of Inl e \<Rightarrow> False | Inr info \<Rightarrow> True) \<and>
    previousInfo st' = (case q of Inl e \<Rightarrow> None | Inr info \<Rightarrow> Some info) \<and> agrees cfg st' (gauges s')"
  using scrape_query [OF assms(1,2)] scrape_agrees [OF assms(1,3)] gauges_failed(1) gauges_succeeded(1)
  by (cases q) fastforce+

end

section \<open>Which calls the query makes\<close>

lemma emits_net [emits_intros]:
  assumes "\<And>e. \<phi> (EvNet e)"
  shows "emits \<phi> (net_Resolve net a)" "emits \<phi> (net_Listen net)" "emits \<phi> (net_SetDeadline net t)"
    "emits \<phi> (net_WriteTo net b a)" "emits \<phi> (net_ReadFrom net)" "emits \<phi> (net_Close net)"
  using assms by (simp_all add: net_defs emits_call)

lemma emits_awaitReply [emits_intros]: "(\<And>e. \<phi> (EvNet e)) \<Longrightarrow> emits \<phi> (awaitReply net raddr fuel)"
  by (induction fuel) (auto intro!: emits_intros)

lemma emits_queryA2SInfo [emits_intros]:
  "(\<And>e. \<phi> (EvNet e)) \<Longrightarrow> (\<And>t. \<phi> (EvNow t)) \<Longrightarrow> emits \<phi> (queryA2SInfo p net fuel addr timeout)"
  unfolding queryA2SInfo_def exchange_def udpRoundTrip_def by (intro emits_intros)

section \<open>The store\<close>

text \<open>
  A merge patch of the status: the fields in which the object differs from its base are written over
  what is stored.
\<close>

definition merged :: "EnshroudedServerStatus \<Rightarrow> EnshroudedServerStatus \<Rightarrow> EnshroudedServerStatus \<Rightarrow> EnshroudedServerStatus" where
  "merged base new old = old\<lparr>
     Phase := if Phase new = Phase base then Phase old else Phase new,
     ReadyReplicas := if ReadyReplicas new = ReadyReplicas base then ReadyReplicas old else ReadyReplicas new,
     ActivePlayers := if ActivePlayers new = ActivePlayers base then ActivePlayers old else ActivePlayers new,
     GameVersion := if GameVersion new = GameVersion base then GameVersion old else GameVersion new,
     UpdateDeferred := if UpdateDeferred new = UpdateDeferred base then UpdateDeferred old else UpdateDeferred new,
     Conditions := if Conditions new = Conditions base then Conditions old else Conditions new\<rparr>"

locale status_patches = kube_api p store accept
  for p :: "('w, 'q) platform" and store :: "'w \<Rightarrow> okey \<Rightarrow> 'q kobj option" and accept +
  assumes patch_ok: "cl_StatusPatch p (OServer base) (OServer new) w = (None, w') \<Longrightarrow>
      \<exists>old. store w (key_of (OServer new)) = Some (OServer old) \<and>
        store w' = (store w)(key_of (OServer new) \<mapsto> OServer (old\<lparr>Status := merged (Status base) (Status new) (Status old)\<rparr>))"
    and patch_fails: "cl_StatusPatch p x y w = (Some e, w') \<Longrightarrow> store w' = store w"
begin

lemma patched:
  assumes "run_state (patchServerStatus p ns n players version) s = (u, s')"
    "st s (KServer, ns, n) = Some (OServer server)"
  shows "\<exists>es. trace s' = trace s @ es \<and>
    (if \<exists>x. EvStatusPatch x None \<in> set es
     then (ActivePlayers (Status server) \<noteq> players \<or> GameVersion (Status server) \<noteq> version) \<and>
       st s' = (st s)((KServer, ns, n) \<mapsto>
         OServer (server\<lparr>Status := (Status server)\<lparr>ActivePlayers := players, GameVersion := version\<rparr>\<rparr>))
     else st s' = st s)"
proof -
  obtain g w where g: "cl_Get p KServer ns n (env s) = (g, w)" by (metis prod.exhaust)
  have same: "store w = st s" by (rule get_store [OF g])
  let ?get = "EvGet KServer ns n g"
  show ?thesis
  proof (cases "as_Server g")
    case (Inl err)
    with assms g same show ?thesis by (intro exI [of _ "[?get]"]) (auto simp: patchServerStatus_def r_Get_def)
  next
    case (Inr x)
    then have x: "x = server" using get_found [of KServer ns n "env s"] g assms(2) by (auto simp: as_Inr)
    let ?new = "server\<lparr>Status := (Status server)\<lparr>ActivePlayers := players, GameVersion := version\<rparr>\<rparr>"
    have key: "key_of (OServer ?new) = (KServer, ns, n)" using store_key [OF assms(2)] by (simp add: key_of_def)
    obtain e w2 where e: "cl_StatusPatch p (OServer server) (OServer ?new) w = (e, w2)" by (metis prod.exhaust)
    show ?thesis
    proof (cases "ActivePlayers (Status server) = players \<and> GameVersion (Status server) = version")
      case True
      with assms g Inr x same show ?thesis
        by (intro exI [of _ "[?get]"]) (auto simp: patchServerStatus_def r_Get_def)
    next
      case False
      then have run: "env s' = w2" "trace s' = trace s @ [?get, EvStatusPatch (OServer ?new) e]"
        using assms(1) g Inr x e by (auto simp: patchServerStatus_def r_Get_def r_StatusPatch_def)
      have merge: "merged (Status server) (Status ?new) (Status server) = Status ?new"
        by (cases "Status server") (simp add: merged_def)
      show ?thesis
        by (rule exI [of _ "[?get, EvStatusPatch (OServer ?new) e]"])
          (use patch_ok [of server ?new w w2] patch_fails [of "OServer server" "OServer ?new" w _ w2] e key assms(2)
            same False run merge in \<open>cases e; auto\<close>)
    qed
  qed
qed

end

lemma mem_StatusPatch_OServer:
  "mem_StatusPatch (OServer base) (OServer new) w =
    (case mem_store w (key_of (OServer new)) of
       Some (OServer z) \<Rightarrow> (None, mem_put (OServer (z\<lparr>Status := merged (Status base) (Status new) (Status z)\<rparr>)) w)
     | _ \<Rightarrow> (Some notFound, w))"
  by (simp add: merged_def Let_def split del: if_split cong: option.case_cong kobj.case_cong)

interpretation mem_patches: status_patches mem_platform mem_store mem_accept
proof unfold_locales
  fix base new :: "int EnshroudedServer" and w w'
  assume *: "cl_StatusPatch mem_platform (OServer base) (OServer new) w = (None, w')"
  then obtain z where z: "mem_store w (key_of (OServer new)) = Some (OServer z)"
    "w' = mem_put (OServer (z\<lparr>Status := merged (Status base) (Status new) (Status z)\<rparr>)) w"
    by (auto simp: mem_StatusPatch_OServer simp del: mem_StatusPatch.simps split: option.splits kobj.splits)
  from mem_store_Some [OF z(1)] have "key_of (OServer z) = key_of (OServer new)" "\<not> gone (OServer z)" by auto
  then have "mem_store w' = (mem_store w)(key_of (OServer new) \<mapsto> OServer (z\<lparr>Status := merged (Status base) (Status new) (Status z)\<rparr>))"
    unfolding z(2) mem_store_put by (auto simp: key_of_def gone_def)
  with z(1) show "\<exists>old. mem_store w (key_of (OServer new)) = Some (OServer old) \<and>
      mem_store w' = (mem_store w)(key_of (OServer new) \<mapsto> OServer (old\<lparr>Status := merged (Status base) (Status new) (Status old)\<rparr>))"
    by blast
next
  fix x y :: "int kobj" and w e w'
  assume "cl_StatusPatch mem_platform x y w = (Some e, w')"
  then show "mem_store w' = mem_store w"
    by (cases "(x, y, w)" rule: mem_StatusPatch.cases)
      (auto simp: mem_StatusPatch_OServer simp del: mem_StatusPatch.simps(1) split: option.splits kobj.splits)
qed

section \<open>Properties\<close>

text \<open>
  C39. Whatever the environment says, the port is positive (values above 65535 are not rejected), the
  interval is at least five seconds, and both fit the 64 bits of Go's \<^verbatim>\<open>int\<close> and \<^verbatim>\<open>time.Duration\<close>.
\<close>

theorem loadConfig_bounds:
  "0 < queryPort (loadConfig getenv) \<and> queryPort (loadConfig getenv) \<le> maxInt \<and>
   5 * 1000000000 \<le> scrapeInterval (loadConfig getenv) \<and> scrapeInterval (loadConfig getenv) \<le> maxInt"
proof -
  have "queryPort (loadConfig getenv) = (let port = Atoi (envOrDefault getenv ''QUERY_PORT'' ''15637'') in if port \<le> 0 then 15637 else port)"
    "scrapeInterval (loadConfig getenv) = (case ParseDuration (envOrDefault getenv ''SCRAPE_INTERVAL'' ''15s'') of
       None \<Rightarrow> 15 * 1000000000 | Some d \<Rightarrow> if d < 5 * 1000000000 then 15 * 1000000000 else d)"
    by (simp_all add: loadConfig_def Let_def)
  with Atoi_bounds [of "envOrDefault getenv ''QUERY_PORT'' ''15637''"] ParseDuration_bounds show ?thesis
    by (auto simp: Let_def maxInt_def split: option.split)
qed

text \<open>
  C18. An answer the sidecar accepts comes from the address it asked and from the handshake: the first
  request carries the placeholder challenge; if the reply is a challenge, exactly one more request
  is sent, with the four bytes the peer gave, and the reply to it is what is parsed; otherwise the
  first reply is. Packets of other senders are ignored, and the socket is closed at the end.
\<close>

theorem query_follows_handshake:
  assumes "run_state (queryA2SInfo p net fuel addr timeout) s = (Inr info, s')"
  shows "\<exists>raddr es. trace s' = trace s @ [EvNet (NetResolve addr (Inr raddr)), EvNet (NetListen None)] @ es @ [EvNet NetClose] \<and>
    ((\<exists>resp. reply raddr resp es \<and> parseA2SInfo resp = Inr info \<and> \<not> isChallenge resp \<and>
        sent es = [(buildA2SInfoRequest [0xFF, 0xFF, 0xFF, 0xFF], raddr)]) \<or>
     (\<exists>es1 es2 challenge resp. es = es1 @ es2 \<and> reply raddr challenge es1 \<and> isChallenge challenge \<and>
        sent es = [(buildA2SInfoRequest [0xFF, 0xFF, 0xFF, 0xFF], raddr), (buildA2SInfoRequest (drop 5 (take 9 challenge)), raddr)] \<and>
        reply raddr resp es2 \<and> parseA2SInfo resp = Inr info))"
proof -
  obtain a w1 where a: "nw_ResolveUDPAddr net addr (env s) = (a, w1)" by (metis prod.exhaust)
  obtain l w2 where l: "nw_ListenPacket net w1 = (l, w2)" by (metis prod.exhaust)
  note run = assms [unfolded queryA2SInfo_def net_Resolve_def net_Listen_def net_Close_def]
  from run a obtain raddr where a0: "a = Inr raddr" by (cases a) auto
  from run a a0 l have l0: "l = None" by (cases l) auto
  let ?s = "s\<lparr>env := w2, trace := trace s @ [EvNet (NetResolve addr a), EvNet (NetListen l)]\<rparr>"
  obtain r s1 where r: "run_state (exchange p net fuel raddr timeout) ?s = (r, s1)" by (metis prod.exhaust)
  from run a a0 l l0 r have "r = Inr info" and close: "trace s' = trace s1 @ [EvNet NetClose]" by auto
  with run_exchange r obtain es where es: "trace s1 = trace ?s @ es" "handshake raddr info es" by blast
  with close a0 l0 show ?thesis
    unfolding handshake_def firstRequest_def by (intro exI [of _ raddr] exI [of _ es]) auto
qed

text \<open>A socket that delivers a packet of a stranger, then a challenge, then the server's answer.\<close>

definition demo_info :: A2SInfo where
  "demo_info = \<lparr>ai_Name = ''Demo'', ai_MapName = ''Embervale'', ai_Players = 3, ai_MaxPlayers = 16, ai_Version = ''0.8''\<rparr>"

definition demo_answer :: "byte list" where
  "demo_answer = encodeA2SInfo 17 ''enshrouded'' ''Enshrouded'' [0, 0] [0, 100, 108, 0, 1] [] demo_info"

definition demo_challenge :: "byte list" where
  "demo_challenge = a2sHeader @ [0x41, 1, 2, 3, 4]"

definition demo_net :: "mem network" where
  "demo_net = \<lparr>
     nw_ResolveUDPAddr = (\<lambda>a w. (Inr a, w)),
     nw_ListenPacket = (\<lambda>w. (None, w)),
     nw_SetDeadline = (\<lambda>t w. (None, w\<lparr>m_clock := if m_clock w = 1 then 1 else 3\<rparr>)),
     nw_WriteTo = (\<lambda>b a w. (None, w)),
     nw_ReadFrom = (\<lambda>w.
       if m_clock w = 3 then (Inr (demo_answer, ''10.9.8.7:53''), w\<lparr>m_clock := 2\<rparr>)
       else if m_clock w = 2 then (Inr (demo_challenge, ''127.0.0.1:15637''), w\<lparr>m_clock := 1\<rparr>)
       else if m_clock w = 1 then (Inr (demo_answer, ''127.0.0.1:15637''), w\<lparr>m_clock := 0\<rparr>)
       else (Inl (Errorf ''i/o timeout''), w)),
     nw_Close = (\<lambda>w. w)\<rparr>"

lemma demo_parse: "parseA2SInfo demo_answer = Inr demo_info"
  unfolding demo_answer_def by code_simp

lemma demo_packets:
  "take bufSize demo_answer = demo_answer" "take bufSize demo_challenge = demo_challenge" "isChallenge demo_challenge"
proof -
  have "length demo_answer \<le> bufSize" by code_simp
  then show "take bufSize demo_answer = demo_answer" by simp
  show "take bufSize demo_challenge = demo_challenge" "isChallenge demo_challenge" by code_simp+
qed

lemma demo_query:
  "fst (run_state (queryA2SInfo mem_platform demo_net 5 ''127.0.0.1:15637'' 3000000000) (world_init [])) = Inr demo_info"
  by (simp add: queryA2SInfo_def exchange_def udpRoundTrip_def net_defs time_Now_def demo_net_def world_init_def
      mem_init_def demo_packets demo_parse numeral_eq_Suc)

theorem query_follows_handshake_witness:
  "\<exists>s' es raddr. run_state (queryA2SInfo mem_platform demo_net 5 ''127.0.0.1:15637'' 3000000000) (world_init []) = (Inr demo_info, s') \<and>
     trace s' = [EvNet (NetResolve ''127.0.0.1:15637'' (Inr raddr)), EvNet (NetListen None)] @ es @ [EvNet NetClose] \<and>
     (firstRequest, raddr) \<in> set (sent es)"
proof -
  obtain s' where run: "run_state (queryA2SInfo mem_platform demo_net 5 ''127.0.0.1:15637'' 3000000000) (world_init []) = (Inr demo_info, s')"
    using demo_query by (metis prod.collapse)
  from query_follows_handshake [OF run] obtain raddr es where
    "trace s' = [EvNet (NetResolve ''127.0.0.1:15637'' (Inr raddr)), EvNet (NetListen None)] @ es @ [EvNet NetClose]"
    "(firstRequest, raddr) \<in> set (sent es)"
    by (auto simp: world_init_def firstRequest_def simp del: sent_simps(4))
  with run show ?thesis by (intro exI conjI)
qed

text \<open>
  The wait for an answer ends: if at most \<open>bound\<close> packets can arrive before a deadline, fuel for
  one more read is enough for the query to return, with an answer or an error.
\<close>

theorem query_returns:
  assumes "udp_deadline net pending bound" "bound < fuel"
    "run_state (queryA2SInfo p net fuel addr timeout) s = (r, s')"
  shows "r \<noteq> Inl NoResult"
  using assms udp_deadline.queryA2SInfo_returns by blast

interpretation demo_deadline: udp_deadline demo_net "\<lambda>w. nat (m_clock w)" 3
  by unfold_locales (auto simp: demo_net_def Errorf_def split: if_splits)

theorem query_returns_witness:
  "\<exists>r s'. run_state (queryA2SInfo mem_platform demo_net 4 ''127.0.0.1:15637'' 3000000000) (world_init []) = (r, s') \<and> r \<noteq> Inl NoResult"
proof -
  obtain r s' where run: "run_state (queryA2SInfo mem_platform demo_net 4 ''127.0.0.1:15637'' 3000000000) (world_init []) = (r, s')"
    by (metis prod.exhaust)
  from query_returns [OF demo_deadline.udp_deadline_axioms _ run] run show ?thesis by auto
qed

text \<open>
  C9. After every tick, whatever the ticks before it have seen, the readiness endpoint and the gauges
  show what the query of that tick returned: if it failed, the endpoint answers 503 and the server
  counts as down with no players; if it brought an answer, the endpoint answers 200, the server
  counts as up, and the gauges show the players, the slots, the map and the version of that answer.
\<close>

theorem sidecar_gauges_agree:
  assumes "sidecar_env p gval net"
    "run_state (scrapeTicks p net fuel cfg k8s n startState) s = (Some st, s1)"
    "run_state (queryA2SInfo p net fuel (queryHost cfg @ '':'' @ show_int (queryPort cfg)) (3 * 1000000000)) s1 = (q, s2)"
    "run_state (scrape p net fuel cfg k8s st) s1 = (Some st', s')"
  shows "case q of
      Inl err \<Rightarrow> serveMux (isUp st') ''/readyz'' = StatusCode 503 \<and>
        gval (env s') (GServerUp, [serverName cfg]) = Some 0 \<and> gval (env s') (GActivePlayers, [serverName cfg]) = Some 0
    | Inr info \<Rightarrow> serveMux (isUp st') ''/readyz'' = StatusCode 200 \<and>
        gval (env s') (GServerUp, [serverName cfg]) = Some 1 \<and>
        gval (env s') (GActivePlayers, [serverName cfg]) = Some (uint (ai_Players info)) \<and>
        gval (env s') (GMaxPlayers, [serverName cfg]) = Some (uint (ai_MaxPlayers info)) \<and>
        gval (env s') (GServerInfo, [serverName cfg, ai_MapName info, ai_Version info]) = Some 1"
proof -
  have "previousInfo st = None \<or> agrees cfg st (gval (env s1))"
    by (rule sidecar_env.ticks_agree [OF assms(1,2)]) (simp add: startState_def)
  from sidecar_env.tick_shows_query [OF assms(1,4,3) this] show ?thesis
    by (cases q) (auto simp: agrees_def serveMux_def makeReadyzHandler_def)
qed

lemma mem_Patch_gauges: "m_gauges (snd (mem_StatusPatch x y w)) = m_gauges w"
  by (cases "(x, y, w)" rule: mem_StatusPatch.cases)
    (auto simp: mem_put_def Let_def split: option.split kobj.split)

interpretation demo_sidecar: sidecar_env mem_platform mem_gval demo_net
  by unfold_locales (auto simp: demo_net_def mem_gval_def mem_Get_def mem_Patch_gauges)

definition demo_config :: config where
  "demo_config = \<lparr>queryHost = ''127.0.0.1'', queryPort = 15637, metricsAddr = '':9090'', scrapeInterval = 15000000000,
     serverNamespace = ''games'', serverName = ''srv'', patchStatusEnabled = True\<rparr>"

lemma demo_addr: "queryHost demo_config @ CHR '':'' # show_int (queryPort demo_config) = ''127.0.0.1:15637''"
  by (simp add: demo_config_def show_int_def show_nat.simps char_of_def bit_0)

theorem sidecar_gauges_agree_witness:
  "\<exists>st s'. run_state (scrape mem_platform demo_net 5 demo_config False startState) (world_init []) = (Some st, s') \<and>
     serveMux (isUp st) ''/readyz'' = StatusCode 200 \<and>
     mem_gval (env s') (GServerUp, [''srv'']) = Some 1 \<and> mem_gval (env s') (GActivePlayers, [''srv'']) = Some 3"
proof -
  have none: "run_state (scrapeTicks mem_platform demo_net 5 demo_config False 0 startState) (world_init []) = (Some startState, world_init [])"
    by simp
  obtain s1 where s1: "run_state (queryA2SInfo mem_platform demo_net 5 ''127.0.0.1:15637'' 3000000000) (world_init []) = (Inr demo_info, s1)"
    using demo_query by (metis prod.collapse)
  then have q: "run_state (queryA2SInfo mem_platform demo_net 5
      (queryHost demo_config @ '':'' @ show_int (queryPort demo_config)) (3 * 1000000000)) (world_init []) = (Inr demo_info, s1)"
    by (simp add: demo_addr)
  obtain st s' where "run_state (scrapeSucceeded mem_platform demo_config False startState demo_info) s1 = (st, s')"
    by (metis prod.exhaust)
  with s1 have run: "run_state (scrape mem_platform demo_net 5 demo_config False startState) (world_init []) = (Some st, s')"
    by (simp add: scrape_def demo_addr)
  have "serverName demo_config = ''srv''" "ai_Players demo_info = 3" by (simp_all add: demo_config_def demo_info_def)
  with sidecar_gauges_agree [OF demo_sidecar.sidecar_env_axioms none q run] run show ?thesis by auto
qed

text \<open>
  The status patch touches the player count and the game version of the server it was asked for
  and nothing else in the store, not even if the operator writes the rest of the status at the same
  time; when the values are already there, or the server cannot be read, nothing is written.
\<close>

theorem patch_changes_only_players:
  assumes "status_patches p store accept" "run_state (patchServerStatus p ns n players version) s = (u, s')"
    "store (env s) (KServer, ns, n) = Some (OServer server)"
  shows "\<exists>es. trace s' = trace s @ es \<and>
    (if \<exists>x. EvStatusPatch x None \<in> set es
     then (ActivePlayers (Status server) \<noteq> players \<or> GameVersion (Status server) \<noteq> version) \<and>
       store (env s') = (store (env s))((KServer, ns, n) \<mapsto>
         OServer (server\<lparr>Status := (Status server)\<lparr>ActivePlayers := players, GameVersion := version\<rparr>\<rparr>))
     else store (env s') = store (env s))"
  using assms by (rule status_patches.patched)

theorem patch_changes_only_players_witness:
  "\<exists>u s'. run_state (patchServerStatus mem_platform ''games'' ''srv'' 3 ''0.8'') (world_init [OServer demo]) = (u, s') \<and>
     (mem_store (env s') = mem_store (mem_init [OServer demo]) \<or>
      mem_store (env s') (KServer, ''games'', ''srv'') =
        Some (OServer (demo\<lparr>Status := (Status demo)\<lparr>ActivePlayers := 3, GameVersion := ''0.8''\<rparr>\<rparr>)))"
proof -
  obtain u s' where run: "run_state (patchServerStatus mem_platform ''games'' ''srv'' 3 ''0.8'') (world_init [OServer demo]) = (u, s')"
    by (metis prod.exhaust)
  have "mem_store (env (world_init [OServer demo])) (KServer, ''games'', ''srv'') = Some (OServer demo)"
    by (simp add: mem_eval)
  from patch_changes_only_players [OF mem_patches.status_patches_axioms run this] run show ?thesis
    by (auto simp: world_init_def split: if_splits)
qed

text \<open>
  C38. A gap leaves a trace: when a query fails while a map and version are published and a later one
  reports another map or version, both are published from then on, because the failed tick forgets
  which labels it had published without deleting them.
\<close>

theorem failed_tick_leaves_stale_info:
  assumes "sidecar_env p gval net"
    "gval (env s) (GServerInfo, [serverName cfg, m, v]) = Some 1"
    "run_state (scrape p net fuel cfg k8s st) s = (Some st1, s1)" "previousInfo st1 = None"
    "run_state (scrape p net fuel cfg k8s st1) s1 = (Some st2, s2)" "previousInfo st2 = Some i"
    "(ai_MapName i, ai_Version i) \<noteq> (m, v)"
  shows "gval (env s2) (GServerInfo, [serverName cfg, m, v]) = Some 1 \<and>
    gval (env s2) (GServerInfo, [serverName cfg, ai_MapName i, ai_Version i]) = Some 1"
proof -
  have 1: "gval (env s1) (GServerInfo, [serverName cfg, m, v]) = Some 1"
    using sidecar_env.scrape_cases [OF assms(1,3)] assms(2,4) sidecar_env.gauges_failed [OF assms(1)]
      sidecar_env.gauges_succeeded(1) [OF assms(1)] by fastforce
  obtain s' info where s': "gval (env s') = gval (env s1)" "run_state (scrapeSucceeded p cfg k8s st1 info) s' = (st2, s2)"
    using sidecar_env.scrape_cases [OF assms(1,5)] assms(6) sidecar_env.gauges_failed(1) [OF assms(1)] by fastforce
  have "info = i" using sidecar_env.gauges_succeeded(1) [OF assms(1) s'(2)] assms(6) by simp
  with sidecar_env.gauges_succeeded(5) [OF assms(1) s'(2)] 1 s'(1) assms(4,7) show ?thesis
    by (auto simp: infoChanged_def)
qed

definition flaky_net :: "mem network" where
  "flaky_net = demo_net\<lparr>nw_ListenPacket := (\<lambda>w.
     if m_clock w = 0 then (Some (Errorf ''too many open files''), w\<lparr>m_clock := 7\<rparr>) else (None, w))\<rparr>"

interpretation flaky_sidecar: sidecar_env mem_platform mem_gval flaky_net
  by unfold_locales (auto simp: flaky_net_def demo_net_def mem_gval_def mem_Get_def mem_Patch_gauges)

definition flaky_world :: "(mem, int) world" where
  "flaky_world = \<lparr>env = (mem_init [])\<lparr>m_gauges := [((GServerInfo, [''srv'', ''Embervale'', ''0.7'']), 1)]\<rparr>, trace = []\<rparr>"

lemma flaky_first:
  "\<exists>st1 s1. run_state (scrape mem_platform flaky_net 5 demo_config False startState) flaky_world = (Some st1, s1) \<and>
     previousInfo st1 = None \<and> m_clock (env s1) = 7"
proof -
  obtain e s0 where q: "run_state (queryA2SInfo mem_platform flaky_net 5 ''127.0.0.1:15637'' 3000000000) flaky_world = (Inl e, s0)"
    "e \<noteq> NoResult" "m_clock (env s0) = 7"
    by (simp add: queryA2SInfo_def net_defs flaky_net_def demo_net_def flaky_world_def mem_init_def Errorf_def)
  obtain st1 s1 where r: "run_state (scrapeFailed mem_platform demo_config False startState) s0 = (st1, s1)"
    by (metis prod.exhaust)
  then have "m_clock (env s1) = 7" using q(3) by (auto simp: scrapeFailed_def patchWanted_def gauge_Set_def)
  with flaky_sidecar.gauges_failed(1) [OF r] q r show ?thesis by (auto simp: scrape_def demo_addr)
qed

lemma flaky_second:
  assumes "m_clock (env s) = 7"
  shows "\<exists>st2 s2. run_state (scrape mem_platform flaky_net 5 demo_config False st1) s = (Some st2, s2) \<and>
     previousInfo st2 = Some demo_info"
proof -
  have "fst (run_state (queryA2SInfo mem_platform flaky_net 5 ''127.0.0.1:15637'' 3000000000) s) = Inr demo_info"
    using assms by (simp add: queryA2SInfo_def exchange_def udpRoundTrip_def net_defs time_Now_def demo_net_def
        flaky_net_def demo_packets demo_parse numeral_eq_Suc)
  then obtain s1 where q: "run_state (queryA2SInfo mem_platform flaky_net 5 ''127.0.0.1:15637'' 3000000000) s = (Inr demo_info, s1)"
    by (metis prod.collapse)
  obtain st2 s2 where r: "run_state (scrapeSucceeded mem_platform demo_config False st1 demo_info) s1 = (st2, s2)"
    by (metis prod.exhaust)
  with flaky_sidecar.gauges_succeeded(1) [OF r] q show ?thesis by (auto simp: scrape_def demo_addr)
qed

theorem failed_tick_leaves_stale_info_witness:
  "\<exists>st1 s1 st2 s2. run_state (scrape mem_platform flaky_net 5 demo_config False startState) flaky_world = (Some st1, s1) \<and>
     run_state (scrape mem_platform flaky_net 5 demo_config False st1) s1 = (Some st2, s2) \<and>
     mem_gval (env s2) (GServerInfo, [''srv'', ''Embervale'', ''0.7'']) = Some 1 \<and>
     mem_gval (env s2) (GServerInfo, [''srv'', ''Embervale'', ''0.8'']) = Some 1"
proof -
  from flaky_first obtain st1 s1 where 1: "run_state (scrape mem_platform flaky_net 5 demo_config False startState) flaky_world = (Some st1, s1)"
    "previousInfo st1 = None" "m_clock (env s1) = 7" by blast
  from flaky_second [OF 1(3)] obtain st2 s2 where 2: "run_state (scrape mem_platform flaky_net 5 demo_config False st1) s1 = (Some st2, s2)"
    "previousInfo st2 = Some demo_info" by blast
  have n: "serverName demo_config = ''srv''" by (simp add: demo_config_def)
  have "mem_gval (env flaky_world) (GServerInfo, [serverName demo_config, ''Embervale'', ''0.7'']) = Some 1"
    "(ai_MapName demo_info, ai_Version demo_info) \<noteq> (''Embervale'', ''0.7'')"
    by (simp_all add: flaky_world_def mem_gval_def n demo_info_def)
  from failed_tick_leaves_stale_info [OF flaky_sidecar.sidecar_env_axioms this(1) 1(1,2) 2 this(2)] n
  have "mem_gval (env s2) (GServerInfo, [''srv'', ''Embervale'', ''0.7'']) = Some 1"
    "mem_gval (env s2) (GServerInfo, [''srv'', ''Embervale'', ''0.8'']) = Some 1" by (simp_all add: demo_info_def)
  with 1(1) 2(1) show ?thesis by (intro exI conjI)
qed

end
