(* ===== verification/Savegame_Survival.thy ===== *)
theory Savegame_Survival
  imports Reconciler Metrics_Sidecar
begin

text \<open>
  The savegame among concurrent actors. Operator runs, sidecar scrapes and everybody else who talks to
  the API server interleave call by call: while a call of the program is under way, others may write
  before and after it takes effect, a read may answer from a state of the past (a lagging cache), and a
  write that reports an error may have taken effect. The locale \<open>concurrent_api\<close> states this by the
  sequence \<open>hist\<close> of all states of the store so far.

  Shown: as long as nobody sets \<^verbatim>\<open>retainOnDelete: false\<close> on a server and nobody else touches its
  savegame claim, the claim survives untouched whatever operator and sidecars do, including the
  deletion of the server. The proof is a rely/guarantee argument: each call of the program keeps the
  invariant if the others do; \<open>maintains\<close> and its rules (\<open>maintains_intros\<close>) compose the calls.
\<close>

section \<open>Concurrent states\<close>

type_synonym 'q objects = "okey \<Rightarrow> 'q kobj option"

definition evolves ::
  "('q objects \<Rightarrow> 'q objects \<Rightarrow> bool) \<Rightarrow> ('q objects \<Rightarrow> 'q objects \<Rightarrow> bool) \<Rightarrow>
   'q objects list \<Rightarrow> 'q objects list \<Rightarrow> bool" where
  "evolves others own h h' \<longleftrightarrow>
     (\<exists>Ss. h' = h @ Ss \<and> successively (\<lambda>S S'. S' = S \<or> others S S' \<or> own S S') (last h # Ss))"

definition nothing :: "'q objects \<Rightarrow> 'q objects \<Rightarrow> bool" where
  "nothing S S' \<longleftrightarrow> False"

definition upholds :: "('q objects \<Rightarrow> 'q objects \<Rightarrow> bool) \<Rightarrow> ('q objects \<Rightarrow> bool) \<Rightarrow> bool" where
  "upholds R I \<longleftrightarrow> (\<forall>S S'. R S S' \<longrightarrow> I S \<longrightarrow> I S')"

lemma upholds_nothing: "upholds nothing I"
  by (simp add: upholds_def nothing_def)

lemma successively_invariant:
  assumes "successively R (S # Ss)" "\<And>S S'. R S S' \<Longrightarrow> I S \<Longrightarrow> I S'" "I S"
  shows "\<forall>S' \<in> set Ss. I S'"
  using assms by (induction Ss arbitrary: S) auto

lemma evolves_invariant:
  assumes "evolves others own h h'" "h \<noteq> []" "\<forall>S \<in> set h. I S"
    "upholds others I" "upholds own I"
  shows "\<forall>S \<in> set h'. I S"
proof -
  obtain Ss where Ss: "h' = h @ Ss" "successively (\<lambda>S S'. S' = S \<or> others S S' \<or> own S S') (last h # Ss)"
    using assms(1) by (auto simp: evolves_def)
  have "\<forall>S \<in> set Ss. I S"
  proof (rule successively_invariant [OF Ss(2)])
    show "I S'" if "S' = S \<or> others S S' \<or> own S S'" "I S" for S S'
      using assms(4,5) that unfolding upholds_def by blast
    show "I (last h)" using assms(2,3) by simp
  qed
  with assms(3) Ss(1) show ?thesis by auto
qed

text \<open>What the program's own calls do to the store when they take effect.\<close>

definition created :: "('q kobj option \<Rightarrow> 'q kobj \<Rightarrow> 'q kobj) \<Rightarrow> 'q kobj \<Rightarrow> 'q objects \<Rightarrow> 'q objects \<Rightarrow> bool" where
  "created accept x S S' \<longleftrightarrow> S (key_of x) = None \<and> S' = S(key_of x \<mapsto> accept None x)"

definition replaced :: "('q kobj option \<Rightarrow> 'q kobj \<Rightarrow> 'q kobj) \<Rightarrow> 'q kobj \<Rightarrow> 'q objects \<Rightarrow> 'q objects \<Rightarrow> bool" where
  "replaced accept x S S' \<longleftrightarrow>
     (\<exists>old. S (key_of x) = Some old \<and> (S' = S(key_of x \<mapsto> accept (Some old) x) \<or> S' = S(key_of x := None)))"

definition removed :: "'q kobj \<Rightarrow> 'q objects \<Rightarrow> 'q objects \<Rightarrow> bool" where
  "removed x S S' \<longleftrightarrow> (\<exists>y. S' = S(key_of x := y))"

definition status_set :: "'q kobj \<Rightarrow> 'q objects \<Rightarrow> 'q objects \<Rightarrow> bool" where
  "status_set x S S' \<longleftrightarrow>
     (\<exists>old st. S (key_of x) = Some (OServer old) \<and> S' = S(key_of x \<mapsto> OServer (old\<lparr>Status := st\<rparr>)))"

locale concurrent_api = kube_reads p for p :: "('w, 'q) platform" +
  fixes net :: "'w network"
    and hist :: "'w \<Rightarrow> 'q objects list"
    and accept :: "'q kobj option \<Rightarrow> 'q kobj \<Rightarrow> 'q kobj"
    and others :: "'q objects \<Rightarrow> 'q objects \<Rightarrow> bool"
  assumes hist_nonempty: "hist w \<noteq> []"
    and get_past: "cl_Get p k ns n w = (Inr x, w') \<Longrightarrow> \<exists>S \<in> set (hist w'). S (k, ns, n) = Some x"
    and get_hist: "evolves others nothing (hist w) (hist (snd (cl_Get p k ns n w)))"
    and list_hist: "evolves others nothing (hist w) (hist (snd (cl_List p k ns ls w)))"
    and create_hist: "evolves others (created accept x) (hist w) (hist (snd (cl_Create p x w)))"
    and update_hist: "evolves others (replaced accept x) (hist w) (hist (snd (cl_Update p x w)))"
    and delete_hist: "evolves others (removed x) (hist w) (hist (snd (cl_Delete p x w)))"
    and status_hist: "evolves others (status_set (OServer y)) (hist w) (hist (snd (cl_StatusUpdate p (OServer y) w)))"
    and patch_hist: "evolves others (status_set (OServer y)) (hist w) (hist (snd (cl_StatusPatch p base (OServer y) w)))"
    and time_hist: "evolves others nothing (hist w) (hist (snd (tm_Now p w)))"
      "evolves others nothing (hist w) (hist (tm_Sleep p d w))"
    and gauge_hist: "evolves others nothing (hist w) (hist (pm_Set p g l i w))"
      "evolves others nothing (hist w) (hist (pm_Delete p g l w))"
    and net_hist: "evolves others nothing (hist w) (hist (snd (nw_ResolveUDPAddr net a w)))"
      "evolves others nothing (hist w) (hist (snd (nw_ListenPacket net w)))"
      "evolves others nothing (hist w) (hist (snd (nw_SetDeadline net d w)))"
      "evolves others nothing (hist w) (hist (snd (nw_WriteTo net b a w)))"
      "evolves others nothing (hist w) (hist (snd (nw_ReadFrom net w)))"
      "evolves others nothing (hist w) (hist (nw_Close net w))"
    and accept_name: "key_of (accept old x) = key_of x"
    and accept_retain: "accept old (OServer s) = OServer y \<Longrightarrow>
      RetainOnDelete (Storage (Spec y)) = Some False \<Longrightarrow> RetainOnDelete (Storage (Spec s)) = Some False"

section \<open>Invariants\<close>

definition always :: "('w \<Rightarrow> 'q objects list) \<Rightarrow> ('q objects \<Rightarrow> bool) \<Rightarrow> ('w, 'q) world \<Rightarrow> bool" where
  "always hist I s \<longleftrightarrow> (\<forall>S \<in> set (hist (env s)). I S)"

definition maintains :: "('w \<Rightarrow> 'q objects list) \<Rightarrow> ('q objects \<Rightarrow> bool) \<Rightarrow> ('w, 'q, 'a) M \<Rightarrow> bool" where
  "maintains hist I m \<longleftrightarrow> (\<forall>s. always hist I s \<longrightarrow> always hist I (snd (run_state m s)))"

named_theorems maintains_intros \<open>rules for computations that keep an invariant of the store\<close>

lemma maintainsD: "maintains hist I m \<Longrightarrow> run_state m s = (a, s') \<Longrightarrow> always hist I s \<Longrightarrow> always hist I s'"
  by (metis maintains_def snd_conv)

lemma maintains_return [maintains_intros]: "maintains hist I (State_Monad.return a)"
  by (simp add: maintains_def)

lemma maintains_bind [maintains_intros]:
  "maintains hist I m \<Longrightarrow> (\<And>a. maintains hist I (f a)) \<Longrightarrow> maintains hist I (State_Monad.bind m f)"
  by (auto simp: maintains_def split: prod.splits)

lemma maintains_if [maintains_intros]:
  "(b \<Longrightarrow> maintains hist I m) \<Longrightarrow> (\<not> b \<Longrightarrow> maintains hist I n) \<Longrightarrow> maintains hist I (if b then m else n)"
  by simp

lemma maintains_case_option [maintains_intros]:
  "(x = None \<Longrightarrow> maintains hist I m) \<Longrightarrow> (\<And>a. x = Some a \<Longrightarrow> maintains hist I (f a)) \<Longrightarrow>
   maintains hist I (case x of None \<Rightarrow> m | Some a \<Rightarrow> f a)"
  by (cases x) simp_all

lemma maintains_case_sum [maintains_intros]:
  "(\<And>e. x = Inl e \<Longrightarrow> maintains hist I (f e)) \<Longrightarrow> (\<And>a. x = Inr a \<Longrightarrow> maintains hist I (g a)) \<Longrightarrow>
   maintains hist I (case x of Inl e \<Rightarrow> f e | Inr a \<Rightarrow> g a)"
  by (cases x) simp_all

lemma maintains_case_prod [maintains_intros]:
  "(\<And>a b. x = (a, b) \<Longrightarrow> maintains hist I (f a b)) \<Longrightarrow> maintains hist I (case x of (a, b) \<Rightarrow> f a b)"
  by (cases x) simp

lemma maintains_let [maintains_intros]: "maintains hist I (f x) \<Longrightarrow> maintains hist I (Let x f)"
  by simp

lemma maintains_seq_err [maintains_intros]:
  "maintains hist I m \<Longrightarrow> maintains hist I k \<Longrightarrow> maintains hist I (seq_err m k)"
  unfolding seq_err_def by (intro maintains_intros)

text \<open>
  The claim is there, as it was at the start, and nobody asks for its deletion.
\<close>

definition claimKey :: "string \<Rightarrow> string \<Rightarrow> okey" where
  "claimKey ns n = (KPersistentVolumeClaim, ns, n @ ''-savegame'')"

definition savegame_kept :: "string \<Rightarrow> string \<Rightarrow> 'q kobj \<Rightarrow> 'q objects \<Rightarrow> bool" where
  "savegame_kept ns n claim S \<longleftrightarrow> S (claimKey ns n) = Some claim \<and>
     (\<forall>y. S (KServer, ns, n) = Some (OServer y) \<longrightarrow> RetainOnDelete (Storage (Spec y)) \<noteq> Some False)"

context concurrent_api
begin

lemma maintains_call:
  assumes "\<And>w. evolves others own (hist w) (hist (snd (f w)))"
    "upholds others I" "upholds own I"
  shows "maintains hist I (call f ev)"
  unfolding maintains_def always_def
proof (intro allI impI)
  fix s :: "('w, 'q) world"
  assume "\<forall>S \<in> set (hist (env s)). I S"
  from evolves_invariant [OF assms(1) hist_nonempty this assms(2,3)]
  have "\<forall>S \<in> set (hist (snd (f (env s)))). I S" .
  then show "\<forall>S \<in> set (hist (env (snd (run_state (call f ev) s)))). I S" by (simp split: prod.split)
qed

lemma maintains_quiet:
  assumes "upholds others I"
  shows "maintains hist I (r_Get p k ns n)" "maintains hist I (r_List p k ns ls)" "maintains hist I (time_Now p)"
    "maintains hist I (time_Sleep p d)" "maintains hist I (gauge_Set p g l i)" "maintains hist I (gauge_Delete p g l)"
    "maintains hist I (net_Resolve net a)" "maintains hist I (net_Listen net)" "maintains hist I (net_SetDeadline net t)"
    "maintains hist I (net_WriteTo net b a)" "maintains hist I (net_ReadFrom net)" "maintains hist I (net_Close net)"
  unfolding client_defs net_defs
  by (rule maintains_call [OF _ assms upholds_nothing],
      simp add: get_hist list_hist time_hist gauge_hist net_hist)+

lemma maintains_Get_bind:
  assumes "upholds others I" "\<And>e. maintains hist I (f (Inl e))"
    and "\<And>x S. key_of x = (k, ns, n) \<Longrightarrow> I S \<Longrightarrow> S (k, ns, n) = Some x \<Longrightarrow> maintains hist I (f (Inr x))"
  shows "maintains hist I (State_Monad.bind (r_Get p k ns n) f)"
  unfolding maintains_def
proof (intro allI impI)
  fix s :: "('w, 'q) world"
  assume s: "always hist I s"
  obtain r s1 where r: "run_state (r_Get p k ns n) s = (r, s1)" by (metis prod.exhaust)
  have s1: "always hist I s1" by (rule maintainsD [OF maintains_quiet(1) [OF assms(1)] r s])
  have "maintains hist I (f r)"
  proof (cases r)
    case (Inr x)
    with r obtain w where g: "cl_Get p k ns n (env s) = (Inr x, w)" "env s1 = w"
      by (auto simp: r_Get_def split: prod.splits)
    with get_past [OF g(1)] s1 obtain S where "I S" "S (k, ns, n) = Some x" by (auto simp: always_def)
    with assms(3) get_key [OF g(1)] Inr show ?thesis by blast
  qed (use assms(2) in simp)
  with s1 r show "always hist I (snd (run_state (r_Get p k ns n \<bind> f) s))" by (simp add: maintains_def)
qed

end

text \<open>The others neither touch the claim nor ask for its deletion.\<close>

locale savegame_rely = concurrent_api p net hist accept others
  for p :: "('w, 'q) platform" and net hist accept others +
  fixes ns n :: string and claim :: "'q kobj"
  assumes others_keep: "upholds others (savegame_kept ns n claim)"
begin

lemmas quiet = maintains_quiet [OF others_keep]
lemmas own_call = maintains_call [OF _ others_keep]

lemma maintains_Create: "kind_of x \<noteq> KServer \<Longrightarrow> maintains hist (savegame_kept ns n claim) (r_Create p x)"
  unfolding r_Create_def
  by (rule own_call [OF create_hist]) (auto simp: upholds_def created_def savegame_kept_def key_of_def)

lemma maintains_Update:
  "kind_of x \<notin> {KServer, KPersistentVolumeClaim} \<Longrightarrow> maintains hist (savegame_kept ns n claim) (r_Update p x)"
  unfolding r_Update_def
  by (rule own_call [OF update_hist]) (auto simp: upholds_def replaced_def savegame_kept_def key_of_def claimKey_def)

lemma maintains_Update_server:
  assumes "RetainOnDelete (Storage (Spec y)) \<noteq> Some False \<or> key_of (OServer y) \<noteq> (KServer, ns, n)"
  shows "maintains hist (savegame_kept ns n claim) (r_Update p (OServer y))"
  unfolding r_Update_def
  by (rule own_call [OF update_hist], unfold upholds_def replaced_def savegame_kept_def)
    (use assms accept_retain in \<open>auto simp: claimKey_def key_of_def split: if_splits\<close>)

lemma maintains_Delete:
  "key_of x \<notin> {(KServer, ns, n), claimKey ns n} \<Longrightarrow> maintains hist (savegame_kept ns n claim) (r_Delete p x)"
  unfolding r_Delete_def
  by (rule own_call [OF delete_hist]) (auto simp: upholds_def removed_def savegame_kept_def)

lemma upholds_status: "upholds (status_set (OServer z)) (savegame_kept ns n claim)"
  by (auto simp: upholds_def status_set_def savegame_kept_def claimKey_def key_of_def split: if_split_asm)

lemma maintains_status:
  "maintains hist (savegame_kept ns n claim) (r_StatusUpdate p (OServer y))"
  "maintains hist (savegame_kept ns n claim) (r_StatusPatch p base (OServer y))"
  unfolding r_StatusUpdate_def r_StatusPatch_def
  by (rule own_call [OF status_hist upholds_status], rule own_call [OF patch_hist upholds_status])

lemmas savegame_intros = maintains_intros maintains_Create maintains_Update maintains_status quiet

text \<open>Loops.\<close>

lemma maintains_awaitReply: "maintains hist (savegame_kept ns n claim) (awaitReply net raddr fuel)"
  by (induction fuel) (auto intro!: savegame_intros)

lemma maintains_groups: "maintains hist (savegame_kept ns n claim) (buildGroups p server gs ugs)"
  by (induction ugs arbitrary: gs) (auto intro!: savegame_intros simp: groupPassword_def)

lemma maintains_poll: "maintains hist (savegame_kept ns n claim) (pollSnapshot p server strict snapName deadline fuel)"
  by (induction fuel) (auto intro!: savegame_intros)

lemma maintains_deleteSnapshots: "maintains hist (savegame_kept ns n claim) (deleteSnapshots p vs)"
  by (induction vs) (auto intro!: savegame_intros maintains_Delete simp: key_of_def claimKey_def)

lemmas savegame_loops = maintains_awaitReply maintains_groups maintains_poll maintains_deleteSnapshots

text \<open>The operations, for whichever server they run.\<close>

lemma maintains_prepare: "maintains hist (savegame_kept ns n claim) (prepareObjects p server)"
  unfolding prepareObjects_def reconcilePVC_def reconcileMetricsSidecarRBAC_def reconcilePDB_def reconcileVPA_def
    applyVPARecommendation_def reconcileNetworkPolicy_def reconcileSidecarServiceAccount_def reconcileSidecarRole_def
    reconcileSidecarRoleBinding_def playersProtected_def inMaintenanceNow_def
  by (intro savegame_intros maintains_Delete) (simp_all add: key_of_def claimKey_def desiredRoleBinding_def Let_def)

lemma maintains_workload: "maintains hist (savegame_kept ns n claim) (reconcileWorkload p server hash d)"
  unfolding reconcileWorkload_def reconcileStatefulSet_def reconcileService_def reconcileS3Sidecar_def
    reconcileVolumeSnapshot_def pruneVolumeSnapshots_def snapshotBeforeUpdate_def inMaintenanceNow_def
  by (intro savegame_intros savegame_loops) (simp_all add: key_of_def claimKey_def)

lemma maintains_hash: "maintains hist (savegame_kept ns n claim) (annotationHash p server)"
  unfolding annotationHash_def passwordHash_def setPhaseError_def reconcileConfigSecret_def cleanupConfigSecret_def
    buildServerConfigJSON_def
  by (intro savegame_intros savegame_loops maintains_Delete) (simp_all add: key_of_def claimKey_def)

lemma maintains_live: "maintains hist (savegame_kept ns n claim) (reconcileLive p server)"
  unfolding reconcileLive_def reconcileObjects_def finishObjects_def updateStatus_def SetServerMetrics_def
    playersProtected_def inMaintenanceNow_def
  by (intro savegame_intros maintains_prepare maintains_workload maintains_hash)

lemma maintains_deleteClaim:
  assumes "RetainOnDelete (Storage (Spec server)) \<noteq> Some False \<or> (snamespace server, sname server) \<noteq> (ns, n)"
  shows "maintains hist (savegame_kept ns n claim) (deleteClaim p server)"
proof -
  have "maintains hist (savegame_kept ns n claim) (r_Delete p (OPersistentVolumeClaim pvc))"
    if "RetainOnDelete (Storage (Spec server)) = Some False"
      "key_of (OPersistentVolumeClaim pvc) = (KPersistentVolumeClaim, snamespace server, pvcName server)" for pvc
    using that assms by (intro maintains_Delete) (auto simp: key_of_def claimKey_def pvcName_def)
  then show ?thesis
    unfolding deleteClaim_def Let_def
    by (intro maintains_if maintains_Get_bind [OF others_keep])
      (auto intro!: savegame_intros simp: as_Inr split: option.splits)
qed

lemma maintains_Reconcile: "maintains hist (savegame_kept ns n claim) (Reconcile p ns' n')"
  unfolding Reconcile_def
proof (rule maintains_Get_bind [OF others_keep])
  show "maintains hist (savegame_kept ns n claim) (case as_Server (Inl e) of
      Inl err \<Rightarrow> State_Monad.return (0, IgnoreNotFound (Some err)) | Inr server \<Rightarrow> k server)" for e k
    by (simp add: maintains_return)
next
  fix x S
  assume x: "key_of x = (KServer, ns', n')" "savegame_kept ns n claim S" "S (KServer, ns', n') = Some x"
  show "maintains hist (savegame_kept ns n claim) (case as_Server (Inr x) of
      Inl err \<Rightarrow> State_Monad.return (0, IgnoreNotFound (Some err))
    | Inr server \<Rightarrow>
        if om_DeletionTimestamp (es_Meta server) \<noteq> None then handleDeletion p server
        else if \<not> cu_ContainsFinalizer p (es_Meta server) finalizerName then do {
           u \<leftarrow> r_Update p (OServer (server\<lparr>es_Meta := cu_AddFinalizer p (es_Meta server) finalizerName\<rparr>));
           (case as_Server u of
              Inl err \<Rightarrow> State_Monad.return (0, Some err)
            | Inr answer \<Rightarrow> reconcileLive p answer)
         }
         else reconcileLive p server)"
  proof (rule maintains_case_sum)
    fix server
    assume "as_Server (Inr x) = Inr server"
    then have server: "x = OServer server" by (simp add: as_Inr)
    have retain: "RetainOnDelete (Storage (Spec server)) \<noteq> Some False \<or> (snamespace server, sname server) \<noteq> (ns, n)"
      using x server by (auto simp: savegame_kept_def key_of_def snamespace_def sname_def)
    have upd: "maintains hist (savegame_kept ns n claim) (r_Update p (OServer (server\<lparr>es_Meta := m\<rparr>)))"
      if "om_Namespace m = om_Namespace (es_Meta server)" "om_Name m = om_Name (es_Meta server)" for m
      by (rule maintains_Update_server) (use retain that in \<open>auto simp: key_of_def snamespace_def sname_def\<close>)
    show "maintains hist (savegame_kept ns n claim) (if om_DeletionTimestamp (es_Meta server) \<noteq> None then handleDeletion p server
        else if \<not> cu_ContainsFinalizer p (es_Meta server) finalizerName then do {
           u \<leftarrow> r_Update p (OServer (server\<lparr>es_Meta := cu_AddFinalizer p (es_Meta server) finalizerName\<rparr>));
           (case as_Server u of
              Inl err \<Rightarrow> State_Monad.return (0, Some err)
            | Inr answer \<Rightarrow> reconcileLive p answer)
         }
         else reconcileLive p server)"
      unfolding handleDeletion_def DeleteServerMetrics_def
      by (intro maintains_if maintains_bind maintains_live maintains_deleteClaim [OF retain] upd maintains_return
          maintains_case_option maintains_case_sum quiet) (simp_all add: add_finalizer_fields remove_finalizer)
  qed (rule maintains_return)
qed

lemma maintains_scrape: "maintains hist (savegame_kept ns n claim) (scrape p net fuel cfg k8s st)"
  unfolding scrape_def scrapeFailed_def scrapeSucceeded_def publishInfo_def patchServerStatus_def queryA2SInfo_def
    exchange_def udpRoundTrip_def
  by (intro savegame_intros savegame_loops)

end

section \<open>A cluster with a lagging cache\<close>

text \<open>
  The cluster of \<open>Mem_Cluster\<close> with all its past states; a read answers from the state before the last
  write.
\<close>

type_synonym log = "mem \<times> mem list"

definition log_hist :: "log \<Rightarrow> int objects list" where
  "log_hist = (\<lambda>(m, past). map mem_store past @ [mem_store m])"

definition seen :: "log \<Rightarrow> mem" where
  "seen = (\<lambda>(m, past). if past = [] then m else last past)"

definition logged :: "(mem \<Rightarrow> 'a \<times> mem) \<Rightarrow> log \<Rightarrow> 'a \<times> log" where
  "logged f = (\<lambda>(m, past). case f m of (a, m') \<Rightarrow> (a, (m', past @ [m])))"

definition log_platform :: "(log, int) platform" where
  "log_platform = \<lparr>
     cl_Get = (\<lambda>k ns n w. (fst (mem_Get k ns n (seen w)), w)),
     cl_List = (\<lambda>k ns ls w. (fst (mem_List k ns ls (seen w)), w)),
     cl_ListByField = (\<lambda>k ns ix v w. (fst (mem_ListByField k ns ix v (seen w)), w)),
     cl_Create = (\<lambda>x. logged (mem_Create x)), cl_Update = (\<lambda>x. logged (mem_Update x)),
     cl_Delete = (\<lambda>x. logged (mem_Delete x)),
     cl_StatusUpdate = (\<lambda>x. logged (mem_StatusUpdate x)), cl_StatusPatch = (\<lambda>b x. logged (mem_StatusPatch b x)),
     tm_Now = (\<lambda>w. (m_clock (fst w), w)),
     tm_Sleep = (\<lambda>d w. snd (logged (\<lambda>m. ((), tm_Sleep mem_platform d m)) w)),
     tm_LoadLocation = tm_LoadLocation mem_platform,
     pm_Set = (\<lambda>g l v w. snd (logged (\<lambda>m. ((), pm_Set mem_platform g l v m)) w)),
     pm_Delete = (\<lambda>g l w. snd (logged (\<lambda>m. ((), pm_Delete mem_platform g l m)) w)),
     cu_SetControllerReference = cu_SetControllerReference mem_platform,
     cu_ContainsFinalizer = cu_ContainsFinalizer mem_platform,
     cu_AddFinalizer = cu_AddFinalizer mem_platform,
     cu_RemoveFinalizer = cu_RemoveFinalizer mem_platform,
     am_SetStatusCondition = am_SetStatusCondition mem_platform,
     am_RemoveStatusCondition = am_RemoveStatusCondition mem_platform,
     q_IsZero = q_IsZero mem_platform, q_Cmp = q_Cmp mem_platform, q_Sign = q_Sign mem_platform,
     q_Equal = q_Equal mem_platform, q_String = q_String mem_platform, q_Parse = q_Parse mem_platform,
     so_Slice = so_Slice mem_platform\<rparr>"

definition deaf_net :: "'w network" where
  "deaf_net = \<lparr>
     nw_ResolveUDPAddr = (\<lambda>a w. (Inr a, w)),
     nw_ListenPacket = (\<lambda>w. (None, w)),
     nw_SetDeadline = (\<lambda>t w. (None, w)),
     nw_WriteTo = (\<lambda>b a w. (None, w)),
     nw_ReadFrom = (\<lambda>w. (Inl (Errorf ''i/o timeout''), w)),
     nw_Close = (\<lambda>w. w)\<rparr>"

lemma evolves_same: "evolves others own h h"
  by (simp add: evolves_def)

lemma logged_evolves:
  assumes "\<And>m. mem_store (snd (f m)) = mem_store m \<or> own (mem_store m) (mem_store (snd (f m)))"
  shows "evolves others own (log_hist w) (log_hist (snd (logged f w)))"
proof -
  obtain m past where w: "w = (m, past)" by (cases w)
  obtain a m' where f: "f m = (a, m')" by (metis prod.exhaust)
  with assms [of m] show ?thesis
    unfolding evolves_def w by (intro exI [of _ "[mem_store m']"]) (auto simp: log_hist_def logged_def)
qed

lemma mem_write_effects:
  "mem_store (snd (mem_Create x m)) = mem_store m \<or> created mem_accept x (mem_store m) (mem_store (snd (mem_Create x m)))"
  "mem_store (snd (mem_Update x m)) = mem_store m \<or> replaced mem_accept x (mem_store m) (mem_store (snd (mem_Update x m)))"
  "removed x (mem_store m) (mem_store (snd (mem_Delete x m)))"
  "mem_store (snd (mem_StatusUpdate (OServer y) m)) = mem_store m \<or>
     status_set (OServer y) (mem_store m) (mem_store (snd (mem_StatusUpdate (OServer y) m)))"
  "mem_store (snd (mem_StatusPatch b (OServer y) m)) = mem_store m \<or>
     status_set (OServer y) (mem_store m) (mem_store (snd (mem_StatusPatch b (OServer y) m)))"
proof -
  show "mem_store (snd (mem_Create x m)) = mem_store m \<or> created mem_accept x (mem_store m) (mem_store (snd (mem_Create x m)))"
    using mem_api.create_ok [of x m "snd (mem_Create x m)"]
    by (cases "mem_store m (key_of x)") (auto simp: mem_Create_def created_def)
  show "mem_store (snd (mem_Update x m)) = mem_store m \<or> replaced mem_accept x (mem_store m) (mem_store (snd (mem_Update x m)))"
    using mem_api.update_ok [of x m _ "snd (mem_Update x m)"]
    by (cases "mem_store m (key_of x)") (auto simp: mem_Update_def replaced_def)
  show "removed x (mem_store m) (mem_store (snd (mem_Delete x m)))"
    unfolding removed_def
    by (rule exI [of _ "mem_store (snd (mem_Delete x m)) (key_of x)"])
      (use mem_api.delete_frame [of x m "fst (mem_Delete x m)" "snd (mem_Delete x m)"] in \<open>auto simp: fun_eq_iff\<close>)
  show "mem_store (snd (mem_StatusUpdate (OServer y) m)) = mem_store m \<or>
     status_set (OServer y) (mem_store m) (mem_store (snd (mem_StatusUpdate (OServer y) m)))"
    using mem_api.status_ok [of y m _ "snd (mem_StatusUpdate (OServer y) m)"]
    by (auto simp: status_set_def split: option.splits kobj.splits)
  show "mem_store (snd (mem_StatusPatch b (OServer y) m)) = mem_store m \<or>
     status_set (OServer y) (mem_store m) (mem_store (snd (mem_StatusPatch b (OServer y) m)))"
  proof (cases b)
    case (OServer base)
    obtain e m' where e: "mem_StatusPatch b (OServer y) m = (e, m')" by (metis prod.exhaust)
    then show ?thesis
      using mem_patches.patch_ok [of base y m m'] mem_patches.patch_fails [of b "OServer y" m _ m'] OServer
      by (cases e) (auto simp: status_set_def)
  qed simp_all
qed

lemma log_platform_simps [simp]:
  "cl_Get log_platform k ns n w = (fst (mem_Get k ns n (seen w)), w)"
  "cl_List log_platform k ns ls w = (fst (mem_List k ns ls (seen w)), w)"
  "cl_Create log_platform x = logged (mem_Create x)" "cl_Update log_platform x = logged (mem_Update x)"
  "cl_Delete log_platform x = logged (mem_Delete x)" "cl_StatusUpdate log_platform x = logged (mem_StatusUpdate x)"
  "cl_StatusPatch log_platform b x = logged (mem_StatusPatch b x)" "tm_Now log_platform w = (m_clock (fst w), w)"
  "tm_Sleep log_platform d w = snd (logged (\<lambda>m. ((), tm_Sleep mem_platform d m)) w)"
  "pm_Set log_platform g l v w = snd (logged (\<lambda>m. ((), pm_Set mem_platform g l v m)) w)"
  "pm_Delete log_platform g l w = snd (logged (\<lambda>m. ((), pm_Delete mem_platform g l m)) w)"
  "cu_SetControllerReference log_platform = cu_SetControllerReference mem_platform"
  "cu_ContainsFinalizer log_platform = cu_ContainsFinalizer mem_platform"
  "cu_AddFinalizer log_platform = cu_AddFinalizer mem_platform"
  "cu_RemoveFinalizer log_platform = cu_RemoveFinalizer mem_platform"
  by (simp_all add: log_platform_def)

lemma seen_past: "mem_store (seen w) \<in> set (log_hist w)"
  by (cases w) (simp add: seen_def log_hist_def)

lemma logged_result: "logged f w = (a, w') \<Longrightarrow> \<exists>m'. f (fst w) = (a, m')"
  by (cases w) (auto simp: logged_def split: prod.splits)

interpretation log_api: concurrent_api log_platform deaf_net log_hist mem_accept others for others
proof unfold_locales
  show "key_of x = (k, ns, n)" if "cl_Get log_platform k ns n w = (Inr x, w')" for k ns n w x w'
    using that mem_api.get_key [of k ns n "seen w" x] by (cases "mem_Get k ns n (seen w)") auto
  show "key_of x = key_of z" if "cl_Update log_platform z w = (Inr x, w')" for z w x w'
    using that mem_api.update_key [of z "fst w" x] by (auto dest!: logged_result)
  show "kind_of x = k \<and> om_Namespace (meta_of x) = ns \<and> ls \<subseteq>\<^sub>m om_Labels (meta_of x)"
    if "cl_List log_platform k ns ls w = (Inr xs, w')" "x \<in> set xs" for k ns ls w xs w' x
    using that mem_api.list_key [of k ns ls "seen w" xs] by (cases "mem_List k ns ls (seen w)") auto
  show "\<exists>S \<in> set (log_hist w'). S (k, ns, n) = Some x" if "cl_Get log_platform k ns n w = (Inr x, w')" for k ns n w x w'
    using that mem_api.get_found [of k ns n "seen w" x] seen_past [of w]
    by (cases "mem_Get k ns n (seen w)") auto
  show "log_hist w \<noteq> []" for w by (cases w) (simp add: log_hist_def)
  show "evolves others (status_set (OServer y)) (log_hist w) (log_hist (snd (cl_StatusUpdate log_platform (OServer y) w)))" for y w
    by (simp, rule logged_evolves, rule mem_write_effects(4))
  show "RetainOnDelete (Storage (Spec s)) = Some False"
    if "mem_accept old (OServer s) = OServer y" "RetainOnDelete (Storage (Spec y)) = Some False" for old s y
    using that by (cases old; cases "the old") (auto simp: mem_accept.simps)
qed (use mem_api.set_owner mem_api.contains_finalizer mem_api.add_finalizer mem_api.remove_finalizer mem_api.accept_key in
    \<open>simp_all add: evolves_same logged_evolves mem_write_effects deaf_net_def\<close>)

section \<open>The system\<close>

inductive system_step ::
  "('w, 'q) platform \<Rightarrow> 'w network \<Rightarrow> ('w \<Rightarrow> 'q objects list) \<Rightarrow> ('q objects \<Rightarrow> 'q objects \<Rightarrow> bool) \<Rightarrow>
   ('w, 'q) world \<Rightarrow> ('w, 'q) world \<Rightarrow> bool" for p net hist others where
  operator: "run_state (Reconcile p ns n) s = (r, s') \<Longrightarrow> system_step p net hist others s s'"
| sidecar: "run_state (scrape p net fuel cfg k8s st) s = (st', s') \<Longrightarrow> system_step p net hist others s s'"
| elsewhere: "evolves others nothing (hist (env s)) (hist (env s')) \<Longrightarrow> system_step p net hist others s s'"

context savegame_rely
begin

lemma step_keeps:
  assumes "system_step p net hist others s s'" "always hist (savegame_kept ns n claim) s"
  shows "always hist (savegame_kept ns n claim) s'"
  using assms
proof cases
  case (elsewhere)
  from evolves_invariant [OF this hist_nonempty _ others_keep upholds_nothing] assms(2) show ?thesis
    by (simp add: always_def)
qed (use assms(2) maintainsD [OF maintains_Reconcile] maintainsD [OF maintains_scrape] in blast)+

lemma steps_keep:
  "(system_step p net hist others)\<^sup>*\<^sup>* s s' \<Longrightarrow> always hist (savegame_kept ns n claim) s \<Longrightarrow>
   always hist (savegame_kept ns n claim) s'"
  by (induction rule: rtranclp_induct) (blast intro: step_keeps)+

end

section \<open>Property\<close>

text \<open>
  C2. The savegame survives: start with a savegame claim and let operator runs for any servers, scrapes of
  any sidecars and the others take steps in any order, interleaved call by call, with reads from a
  lagging cache and errors that leave open whether a write happened. If nobody but the operator
  touches the claim and nobody sets \<^verbatim>\<open>retainOnDelete: false\<close> on its server, then the claim is in the
  store unchanged at every moment, even if the server is deleted.
\<close>

theorem savegame_survives:
  assumes "concurrent_api p net hist accept others" "upholds others (savegame_kept ns n claim)"
    "(system_step p net hist others)\<^sup>*\<^sup>* s s'" "\<forall>S \<in> set (hist (env s)). savegame_kept ns n claim S"
  shows "\<forall>S \<in> set (hist (env s')). S (claimKey ns n) = Some claim"
proof -
  have "savegame_rely p net hist accept others ns n claim"
    using assms(1,2) by (simp add: savegame_rely_def savegame_rely_axioms_def)
  from savegame_rely.steps_keep [OF this assms(3)] assms(4) show ?thesis
    by (simp add: always_def savegame_kept_def)
qed

definition demo_claim :: "int kobj" where
  "demo_claim = OPersistentVolumeClaim (desiredPVC demo 0)"

definition demo_log :: "(log, int) world" where
  "demo_log = \<lparr>env = (mem_init [OServer (demo_deleted (Some True)), demo_claim], []), trace = []\<rparr>"

interpretation demo_savegame: savegame_rely log_platform deaf_net log_hist mem_accept
  "\<lambda>S S'. S' = S((KSecret, ''games'', ''pw'') := None)" "''games''" "''srv''" demo_claim
  by unfold_locales (auto simp: upholds_def savegame_kept_def claimKey_def)

theorem savegame_survives_witness:
  "\<exists>r s'. run_state (Reconcile log_platform ''games'' ''srv'') demo_log = (r, s') \<and>
     (\<forall>S \<in> set (log_hist (env s')). S (claimKey ''games'' ''srv'') = Some demo_claim)"
proof -
  obtain r s' where run: "run_state (Reconcile log_platform ''games'' ''srv'') demo_log = (r, s')" by (metis prod.exhaust)
  let ?others = "\<lambda>S S'. S' = S((KSecret, ''games'', ''pw'') := None)"
  have "(system_step log_platform deaf_net log_hist ?others)\<^sup>*\<^sup>* demo_log s'"
    using system_step.operator [OF run] by (rule r_into_rtranclp)
  moreover have "\<forall>S \<in> set (log_hist (env demo_log)). savegame_kept ''games'' ''srv'' demo_claim S"
    by (simp add: demo_log_def log_hist_def savegame_kept_def claimKey_def demo_claim_def desiredPVC_def pvcName_def
        demo_deleted_def snamespace_def sname_def mem_eval)
  ultimately show ?thesis
    using savegame_survives [OF log_api.concurrent_api_axioms demo_savegame.others_keep] run by blast
qed

end
