(* ===== verification/Operator_Setup.thy ===== *)
theory Operator_Setup
  imports Reconciler
begin

text \<open>
  How the operator is put together: \<^verbatim>\<open>cmd/main.go\<close> (flags, TLS and server options, the calls that build
  and start the manager, the exits) and \<^verbatim>\<open>SetupWithManager\<close> of \<^verbatim>\<open>enshroudedserver_controller.go\<close> (the watches).

  The calls into controller-runtime are data (\<open>setup_call\<close>); whether one fails is a parameter. What a
  watch does with a changed object is stated in the locale \<open>event_source\<close>, as controller-runtime
  documents it.

  Shown: the servers refuse HTTP/2 unless it is enabled, metrics served over TLS are authorized, the
  manager starts only after everything before has succeeded, and which changes of child objects wake
  up their server.
\<close>

section \<open>The entry point\<close>

record flags =
  fl_metricsAddr :: string
  fl_metricsCertPath :: string
  fl_metricsCertName :: string
  fl_metricsCertKey :: string
  fl_webhookCertPath :: string
  fl_webhookCertName :: string
  fl_webhookCertKey :: string
  fl_enableLeaderElection :: bool
  fl_probeAddr :: string
  fl_secureMetrics :: bool
  fl_enableHTTP2 :: bool

definition defaultFlags :: flags where
  "defaultFlags = \<lparr>fl_metricsAddr = ''0'',
     fl_metricsCertPath = '''', fl_metricsCertName = ''tls.crt'', fl_metricsCertKey = ''tls.key'',
     fl_webhookCertPath = '''', fl_webhookCertName = ''tls.crt'', fl_webhookCertKey = ''tls.key'',
     fl_enableLeaderElection = False, fl_probeAddr = '':8081'', fl_secureMetrics = True, fl_enableHTTP2 = False\<rparr>"

text \<open>Of \<^verbatim>\<open>tls.Config\<close> the code sets one field.\<close>

record tlsConfig =
  NextProtos :: "string list"

definition disableHTTP2 :: "tlsConfig \<Rightarrow> tlsConfig" where
  "disableHTTP2 c = c\<lparr>NextProtos := [''http/1.1'']\<rparr>"

definition tlsOpts :: "flags \<Rightarrow> (tlsConfig \<Rightarrow> tlsConfig) list" where
  "tlsOpts fl = (if \<not> fl_enableHTTP2 fl then [disableHTTP2] else [])"

record webhookOptions =
  wo_TLSOpts :: "(tlsConfig \<Rightarrow> tlsConfig) list"
  wo_CertDir :: string
  wo_CertName :: string
  wo_KeyName :: string

definition webhookServerOptions :: "flags \<Rightarrow> webhookOptions" where
  "webhookServerOptions fl =
    (let opts = \<lparr>wo_TLSOpts = tlsOpts fl, wo_CertDir = '''', wo_CertName = '''', wo_KeyName = ''''\<rparr>
     in if length (fl_webhookCertPath fl) > 0
        then opts\<lparr>wo_CertDir := fl_webhookCertPath fl, wo_CertName := fl_webhookCertName fl,
          wo_KeyName := fl_webhookCertKey fl\<rparr>
        else opts)"

datatype filterProvider = NoFilter | WithAuthenticationAndAuthorization

record metricsOptions =
  mo_BindAddress :: string
  mo_SecureServing :: bool
  mo_TLSOpts :: "(tlsConfig \<Rightarrow> tlsConfig) list"
  mo_FilterProvider :: filterProvider
  mo_CertDir :: string
  mo_CertName :: string
  mo_KeyName :: string

definition metricsServerOptions :: "flags \<Rightarrow> metricsOptions" where
  "metricsServerOptions fl =
    (let opts = \<lparr>mo_BindAddress = fl_metricsAddr fl, mo_SecureServing = fl_secureMetrics fl, mo_TLSOpts = tlsOpts fl,
           mo_FilterProvider = NoFilter, mo_CertDir = '''', mo_CertName = '''', mo_KeyName = ''''\<rparr>;
         opts = (if fl_secureMetrics fl then opts\<lparr>mo_FilterProvider := WithAuthenticationAndAuthorization\<rparr> else opts)
     in if length (fl_metricsCertPath fl) > 0
        then opts\<lparr>mo_CertDir := fl_metricsCertPath fl, mo_CertName := fl_metricsCertName fl,
          mo_KeyName := fl_metricsCertKey fl\<rparr>
        else opts)"

record managerOptions =
  mgr_Metrics :: metricsOptions
  mgr_WebhookServer :: webhookOptions
  mgr_HealthProbeBindAddress :: string
  mgr_LeaderElection :: bool
  mgr_LeaderElectionID :: string

definition managerOptionsFor :: "flags \<Rightarrow> managerOptions" where
  "managerOptionsFor fl = \<lparr>
     mgr_Metrics = metricsServerOptions fl,
     mgr_WebhookServer = webhookServerOptions fl,
     mgr_HealthProbeBindAddress = fl_probeAddr fl,
     mgr_LeaderElection = fl_enableLeaderElection fl,
     mgr_LeaderElectionID = ''8677a919.enshrouded.io''\<rparr>"

section \<open>The watches\<close>

datatype watch = For kind | Owns kind | WatchesMapped kind

definition controllerWatches :: "watch list" where
  "controllerWatches = [For KServer, Owns KStatefulSet, Owns KService, Owns KNetworkPolicy, Owns KServiceAccount,
     Owns KRole, Owns KRoleBinding, Owns KPodDisruptionBudget, WatchesMapped KSecret]"

section \<open>The calls of the start\<close>

datatype setup_call =
    GetConfig
  | NewManager managerOptions
  | IndexField string
  | CompleteController "watch list"
  | CompleteWebhook
  | AddHealthzCheck string
  | AddReadyzCheck string
  | Start

definition SetupWithManager :: "setup_call list" where
  "SetupWithManager = [IndexField ''.spec.allSecretRefs'', CompleteController controllerWatches]"

definition SetupEnshroudedServerWebhookWithManager :: "setup_call list" where
  "SetupEnshroudedServerWebhookWithManager = [CompleteWebhook]"

text \<open>The calls of \<^verbatim>\<open>main\<close> in their order; after each that fails, the program exits with 1.\<close>

definition main_calls :: "flags \<Rightarrow> (string \<Rightarrow> string) \<Rightarrow> setup_call list" where
  "main_calls fl getenv =
     [GetConfig, NewManager (managerOptionsFor fl)] @ SetupWithManager @
     (if getenv ''ENABLE_WEBHOOKS'' \<noteq> ''false'' then SetupEnshroudedServerWebhookWithManager else []) @
     [AddHealthzCheck ''healthz'', AddReadyzCheck ''readyz'', Start]"

fun until_error :: "(setup_call list \<Rightarrow> gerror option) \<Rightarrow> setup_call list \<Rightarrow> setup_call list \<Rightarrow> int \<times> setup_call list" where
  "until_error fails done [] = (0, done)"
| "until_error fails done (c # cs) =
    (if fails (done @ [c]) \<noteq> None then (1, done @ [c]) else until_error fails (done @ [c]) cs)"

text \<open>\<open>fails cs\<close>: the error of the last of the calls \<open>cs\<close>, after the others. The result: exit code and calls made.\<close>

definition main :: "(setup_call list \<Rightarrow> gerror option) \<Rightarrow> flags \<Rightarrow> (string \<Rightarrow> string) \<Rightarrow> int \<times> setup_call list" where
  "main fails fl getenv = until_error fails [] (main_calls fl getenv)"

lemma until_error_prefix:
  "until_error fails done cs = (code, calls) \<Longrightarrow>
   \<exists>made rest. cs = made @ rest \<and> calls = done @ made \<and>
     (\<forall>k < length made. 0 < k \<longrightarrow> fails (done @ take k made) = None) \<and>
     (if code = 0 then rest = [] \<and> (made \<noteq> [] \<longrightarrow> fails calls = None) else code = 1 \<and> made \<noteq> [] \<and> fails calls \<noteq> None)"
proof (induction fails "done" cs arbitrary: code calls rule: until_error.induct)
  case (1 fails "done")
  then show ?case by simp
next
  case (2 fails "done" c cs)
  show ?case
  proof (cases "fails (done @ [c]) = None")
    case False
    with 2 show ?thesis by (intro exI [of _ "[c]"] exI [of _ cs]) auto
  next
    case True
    with 2 obtain made rest where m: "cs = made @ rest" "calls = (done @ [c]) @ made"
      "\<forall>k < length made. 0 < k \<longrightarrow> fails ((done @ [c]) @ take k made) = None"
      "if code = 0 then rest = [] \<and> (made \<noteq> [] \<longrightarrow> fails calls = None) else code = 1 \<and> made \<noteq> [] \<and> fails calls \<noteq> None"
      by auto
    have "fails (done @ take k (c # made)) = None" if "k < length (c # made)" "0 < k" for k
      using that m(3) True by (cases k; cases "k - 1") auto
    with m True show ?thesis by (intro exI [of _ "c # made"] exI [of _ rest]) (auto split: if_splits)
  qed
qed

lemma manager_options:
  "(\<not> fl_enableHTTP2 fl \<or> fl = defaultFlags \<longrightarrow>
     NextProtos (fold (\<lambda>f c. f c) (mo_TLSOpts (mgr_Metrics (managerOptionsFor fl))) c) = [''http/1.1''] \<and>
     NextProtos (fold (\<lambda>f c. f c) (wo_TLSOpts (mgr_WebhookServer (managerOptionsFor fl))) c) = [''http/1.1'']) \<and>
   (fl_secureMetrics fl \<or> fl = defaultFlags \<longrightarrow>
     mo_SecureServing (mgr_Metrics (managerOptionsFor fl)) \<and>
     mo_FilterProvider (mgr_Metrics (managerOptionsFor fl)) = WithAuthenticationAndAuthorization) \<and>
   (fl = defaultFlags \<longrightarrow> mo_BindAddress (mgr_Metrics (managerOptionsFor fl)) = ''0'' \<and> \<not> mgr_LeaderElection (managerOptionsFor fl))"
  by (auto simp: managerOptionsFor_def metricsServerOptions_def webhookServerOptions_def tlsOpts_def disableHTTP2_def
      defaultFlags_def Let_def)



section \<open>What wakes up a server\<close>

definition controlled_by :: "'q EnshroudedServer \<Rightarrow> OwnerReference list" where
  "controlled_by server = [\<lparr>or_Kind = ''EnshroudedServer'', or_Name = sname server,
     or_UID = om_UID (es_Meta server), or_Controller = True\<rparr>]"

locale owner_names = owner_refs p for p :: "('w, 'q) platform" +
  assumes set_owner_refs: "om_OwnerReferences m = [] \<Longrightarrow> cu_SetControllerReference p server m = Inr m' \<Longrightarrow>
      om_OwnerReferences m' = controlled_by server"
begin

lemma owned_meta:
  assumes "cu_SetControllerReference p server (new_meta n ns ls) = Inr m'"
  shows "om_OwnerReferences m' = controlled_by server \<and> om_Namespace m' = ns"
  using set_owner_refs [OF _ assms] set_owner_fields [OF assms] by (simp_all add: new_meta_def)

end

text \<open>
  Which requests controller-runtime queues for a change of an object, the mapped watch of Secrets
  (\<^verbatim>\<open>findServersForSecret\<close>) apart.
\<close>

locale event_source =
  fixes enqueue :: "watch list \<Rightarrow> 'q kobj \<Rightarrow> (string \<times> string) set"
  assumes enqueue_for: "For (kind_of x) \<in> set ws \<Longrightarrow> (om_Namespace (meta_of x), om_Name (meta_of x)) \<in> enqueue ws x"
    and enqueue_owner: "Owns (kind_of x) \<in> set ws \<Longrightarrow> r \<in> set (om_OwnerReferences (meta_of x)) \<Longrightarrow> or_Controller r \<Longrightarrow>
      or_Kind r = ''EnshroudedServer'' \<Longrightarrow> (om_Namespace (meta_of x), or_Name r) \<in> enqueue ws x"
    and enqueue_only: "(ns, n) \<in> enqueue ws x \<Longrightarrow>
      ns = om_Namespace (meta_of x) \<and>
      (For (kind_of x) \<in> set ws \<and> n = om_Name (meta_of x) \<or>
       Owns (kind_of x) \<in> set ws \<and> (\<exists>r \<in> set (om_OwnerReferences (meta_of x)). or_Controller r \<and>
         or_Kind r = ''EnshroudedServer'' \<and> or_Name r = n))"
begin

lemma enqueue_owned:
  assumes "Owns (kind_of x) \<in> set ws" "For (kind_of x) \<notin> set ws" "om_OwnerReferences (meta_of x) = controlled_by server"
    "om_Namespace (meta_of x) = snamespace server"
  shows "enqueue ws x = {(snamespace server, sname server)}"
proof (intro equalityI subsetI)
  fix q
  assume "q \<in> enqueue ws x"
  then obtain ns n where q: "q = (ns, n)" "(ns, n) \<in> enqueue ws x" by (cases q) simp
  from enqueue_only [OF q(2)] assms q(1) show "q \<in> {(snamespace server, sname server)}"
    by (simp add: controlled_by_def)
next
  fix q
  assume "q \<in> {(snamespace server, sname server)}"
  with enqueue_owner [OF assms(1), of "hd (controlled_by server)"] assms(3,4) show "q \<in> enqueue ws x"
    by (simp add: controlled_by_def)
qed

lemma enqueue_unwatched: "Owns (kind_of x) \<notin> set ws \<Longrightarrow> For (kind_of x) \<notin> set ws \<Longrightarrow> enqueue ws x = {}"
  using enqueue_only [of _ _ ws x] by auto

end

definition queue_for :: "watch list \<Rightarrow> 'q kobj \<Rightarrow> (string \<times> string) set" where
  "queue_for ws x =
     (if For (kind_of x) \<in> set ws then {(om_Namespace (meta_of x), om_Name (meta_of x))} else {}) \<union>
     (if Owns (kind_of x) \<in> set ws
      then {(om_Namespace (meta_of x), or_Name r) | r. r \<in> set (om_OwnerReferences (meta_of x)) \<and> or_Controller r \<and>
        or_Kind r = ''EnshroudedServer''} else {})"

interpretation runtime_events: event_source queue_for
  by unfold_locales (auto simp: queue_for_def split: if_splits)

definition unwatched :: "kind set" where
  "unwatched = {KPersistentVolumeClaim, KSecret, KVerticalPodAutoscaler, KVolumeSnapshot}"

fun child_created :: "'q EnshroudedServer \<Rightarrow> 'q event \<Rightarrow> bool" where
  "child_created server (EvCreate x _) \<longleftrightarrow> kind_of x \<in> unwatched \<or>
     Owns (kind_of x) \<in> set controllerWatches \<and> om_OwnerReferences (meta_of x) = controlled_by server \<and>
     om_Namespace (meta_of x) = snamespace server"
| "child_created server _ \<longleftrightarrow> True"

lemma watched_kinds:
  "Owns k \<in> set controllerWatches \<longleftrightarrow> k \<in> {KStatefulSet, KService, KNetworkPolicy, KServiceAccount, KRole, KRoleBinding, KPodDisruptionBudget}"
  "For k \<in> set controllerWatches \<longleftrightarrow> k = KServer"
  by (auto simp: controllerWatches_def)

context owner_names
begin

lemma emits_deleteSnapshots_child: "emits (child_created server) (deleteSnapshots p vs)"
  by (induction vs) (auto intro!: emits_intros)

lemma emits_poll_child: "emits (child_created server) (pollSnapshot p srv strict snapName deadline fuel)"
  by (induction fuel) (auto intro!: emits_intros)

lemma emits_groups_child: "emits (child_created server) (buildGroups p srv gs ugs)"
  by (induction ugs arbitrary: gs) (auto intro!: emits_intros simp: groupPassword_def)

lemmas child_loops = emits_deleteSnapshots_child emits_poll_child emits_groups_child

lemma emits_prepare_child: "emits (child_created server) (prepareObjects p server)"
  unfolding prepareObjects_def reconcilePVC_def reconcileMetricsSidecarRBAC_def reconcilePDB_def reconcileVPA_def
    applyVPARecommendation_def reconcileNetworkPolicy_def reconcileSidecarServiceAccount_def reconcileSidecarRole_def
    reconcileSidecarRoleBinding_def playersProtected_def inMaintenanceNow_def
  by (intro emits_intros)
    (auto simp: unwatched_def watched_kinds desiredRoleBinding_def desiredPDB_def Let_def dest!: owned_meta)

lemma emits_workload_child: "emits (child_created server) (reconcileWorkload p server hash d)"
  unfolding reconcileWorkload_def reconcileStatefulSet_def reconcileService_def reconcileS3Sidecar_def
    reconcileVolumeSnapshot_def pruneVolumeSnapshots_def snapshotBeforeUpdate_def inMaintenanceNow_def
  by (intro emits_intros child_loops) (auto simp: unwatched_def watched_kinds desiredService_def Let_def dest!: owned_meta)

lemma emits_hash_child: "emits (child_created server) (annotationHash p server)"
  unfolding annotationHash_def passwordHash_def setPhaseError_def reconcileConfigSecret_def cleanupConfigSecret_def
    buildServerConfigJSON_def
  by (intro emits_intros child_loops) (simp_all add: unwatched_def)

lemma emits_live_child: "emits (child_created server) (reconcileLive p server)"
  unfolding reconcileLive_def reconcileObjects_def finishObjects_def updateStatus_def SetServerMetrics_def
    playersProtected_def inMaintenanceNow_def
  by (intro emits_intros emits_prepare_child emits_workload_child emits_hash_child) simp_all

end

interpretation mem_owners: owner_names mem_platform
proof unfold_locales
  show "om_OwnerReferences m' = controlled_by server"
    if "om_OwnerReferences m = []" "cu_SetControllerReference mem_platform server m = Inr m'" for m m' server
    using that by (auto simp: mem_SetControllerReference_def controlled_by_def Let_def split: if_splits)
qed

text \<open>
  C20. Drift is noticed, with four exceptions: every object that a run creates for a server is either of a
  watched kind and carries the owner reference by which any later change of it queues exactly this
  server, or it is a savegame claim, a generated configuration Secret, an autoscaler or a snapshot, whose
  changes queue nothing (a Secret only the servers that reference it).
\<close>

theorem drift_wakes_server:
  assumes "owner_names p" "event_source enqueue" "run_state (reconcileLive p server) s = (r, s')"
  shows "\<exists>es. trace s' = trace s @ es \<and>
    (\<forall>x e. EvCreate x e \<in> set es \<longrightarrow>
      (if kind_of x \<in> {KPersistentVolumeClaim, KSecret, KVerticalPodAutoscaler, KVolumeSnapshot}
       then enqueue controllerWatches x = {}
       else enqueue controllerWatches x = {(snamespace server, sname server)}))"
proof -
  obtain es where es: "trace s' = trace s @ es" "list_all (child_created server) es"
    using emitsD [OF owner_names.emits_live_child [OF assms(1)] assms(3)] by blast
  have "if kind_of x \<in> unwatched then enqueue controllerWatches x = {}
      else enqueue controllerWatches x = {(snamespace server, sname server)}" if "EvCreate x e \<in> set es" for x e
  proof (cases "kind_of x \<in> unwatched")
    case True
    then show ?thesis
      using event_source.enqueue_unwatched [OF assms(2), of x controllerWatches] by (auto simp: watched_kinds unwatched_def)
  next
    case False
    with es(2) that have "Owns (kind_of x) \<in> set controllerWatches \<and> om_OwnerReferences (meta_of x) = controlled_by server \<and>
        om_Namespace (meta_of x) = snamespace server"
      by (fastforce simp: list_all_iff)
    with False event_source.enqueue_owned [OF assms(2), of x controllerWatches server] show ?thesis
      by (auto simp: watched_kinds)
  qed
  with es(1) show ?thesis unfolding unwatched_def by blast
qed

theorem drift_wakes_server_witness:
  "\<exists>r s'. run_state (reconcileLive mem_platform demo) (world_init [OServer demo]) = (r, s') \<and>
     (\<forall>x e. EvCreate x e \<in> set (trace s') \<longrightarrow> queue_for controllerWatches x \<in> {{}, {(''games'', ''srv'')}})"
proof -
  obtain r s' where run: "run_state (reconcileLive mem_platform demo) (world_init [OServer demo]) = (r, s')" by (metis prod.exhaust)
  from drift_wakes_server [OF mem_owners.owner_names_axioms runtime_events.event_source_axioms run] run show ?thesis
    by (auto simp: world_init_def split: if_splits)
qed

end
