(* ===== verification/Program_Start.thy ===== *)
theory Program_Start
  imports Metrics_Sidecar Operator_Setup
begin

text \<open>
  What the two programs do before their loops: the scheme they register
  (\<^verbatim>\<open>api/v1alpha1/groupversion_info.go\<close>, the \<^verbatim>\<open>init\<close> functions of \<^verbatim>\<open>enshroudedserver_types.go\<close> and \<^verbatim>\<open>cmd/main.go\<close>), the API client
  of the sidecar (\<^verbatim>\<open>buildK8sClient\<close>) and the sidecar's \<^verbatim>\<open>main\<close>.

  A client can only handle objects of Go types its scheme knows, and unstructured objects, which
  carry their group, version and kind. The scheme is a value of the library, the parameter
  \<open>scheme_lib\<close>; the locale \<open>runtime_scheme\<close> states what registration does.

  Shown: the operator's scheme knows every kind its code handles; the sidecar's scheme knows the one kind
  it handles; the sidecar reaches its loop in every environment and its ticks return.
\<close>

section \<open>Schemes\<close>

record GroupVersionKind =
  gvk_Group :: string
  gvk_Version :: string
  gvk_Kind :: string

abbreviation gvk :: "string \<Rightarrow> string \<Rightarrow> string \<Rightarrow> GroupVersionKind" where
  "gvk g v k \<equiv> \<lparr>gvk_Group = g, gvk_Version = v, gvk_Kind = k\<rparr>"

definition GroupVersion :: "string \<times> string" where
  "GroupVersion = (''enshrouded.enshrouded.io'', ''v1alpha1'')"

text \<open>The arguments of \<^verbatim>\<open>SchemeBuilder.Register\<close>, by the names of their Go types.\<close>

definition registeredTypes :: "string list" where
  "registeredTypes = [''EnshroudedServer'', ''EnshroudedServerList'']"

record 's scheme_lib =
  sl_NewScheme :: 's
  sl_AddTypes :: "string \<times> string \<Rightarrow> string list \<Rightarrow> 's \<Rightarrow> gerror + 's"
  sl_AddClientGo :: "'s \<Rightarrow> gerror + 's"
  sl_Recognizes :: "'s \<Rightarrow> GroupVersionKind \<Rightarrow> bool"

definition AddToScheme :: "'s scheme_lib \<Rightarrow> 's \<Rightarrow> gerror + 's" where
  "AddToScheme lib s = sl_AddTypes lib GroupVersion registeredTypes s"

text \<open>\<^verbatim>\<open>utilruntime.Must\<close> panics on an error.\<close>

definition Must :: "gerror + 's \<Rightarrow> gerror + 's" where
  "Must r = (case r of Inl e \<Rightarrow> Inl (Panic (errText e)) | Inr s \<Rightarrow> Inr s)"

definition main_init :: "'s scheme_lib \<Rightarrow> gerror + 's" where
  "main_init lib =
    (case Must (sl_AddClientGo lib (sl_NewScheme lib)) of
       Inl e \<Rightarrow> Inl e
     | Inr s \<Rightarrow> Must (AddToScheme lib s))"

definition volumeSnapshotGVK :: GroupVersionKind where
  "volumeSnapshotGVK = gvk ''snapshot.storage.k8s.io'' ''v1'' ''VolumeSnapshot''"

definition volumeSnapshotListGVK :: GroupVersionKind where
  "volumeSnapshotListGVK = gvk ''snapshot.storage.k8s.io'' ''v1'' ''VolumeSnapshotList''"

definition vpaGVK :: GroupVersionKind where
  "vpaGVK = gvk ''autoscaling.k8s.io'' ''v1'' ''VerticalPodAutoscaler''"

text \<open>How the code represents the objects of a kind: by a Go type with its registered name, or unstructured.\<close>

datatype representation = Typed GroupVersionKind | Unstructured GroupVersionKind

fun represented :: "kind \<Rightarrow> representation" where
  "represented KServer = Typed (gvk (fst GroupVersion) (snd GroupVersion) ''EnshroudedServer'')"
| "represented KStatefulSet = Typed (gvk ''apps'' ''v1'' ''StatefulSet'')"
| "represented KService = Typed (gvk '''' ''v1'' ''Service'')"
| "represented KPersistentVolumeClaim = Typed (gvk '''' ''v1'' ''PersistentVolumeClaim'')"
| "represented KSecret = Typed (gvk '''' ''v1'' ''Secret'')"
| "represented KNetworkPolicy = Typed (gvk ''networking.k8s.io'' ''v1'' ''NetworkPolicy'')"
| "represented KServiceAccount = Typed (gvk '''' ''v1'' ''ServiceAccount'')"
| "represented KRole = Typed (gvk ''rbac.authorization.k8s.io'' ''v1'' ''Role'')"
| "represented KRoleBinding = Typed (gvk ''rbac.authorization.k8s.io'' ''v1'' ''RoleBinding'')"
| "represented KPodDisruptionBudget = Typed (gvk ''policy'' ''v1'' ''PodDisruptionBudget'')"
| "represented KVerticalPodAutoscaler = Unstructured vpaGVK"
| "represented KVolumeSnapshot = Unstructured volumeSnapshotGVK"

text \<open>
  Lists of a kind: \<^verbatim>\<open>findServersForSecret\<close> lists servers with the type \<^verbatim>\<open>EnshroudedServerList\<close> and
  \<^verbatim>\<open>pruneVolumeSnapshots\<close> snapshots as an unstructured list; the caches behind the operator's client list
  the other types, by the convention that the list of a kind is that kind with the suffix \<^verbatim>\<open>List\<close>.
\<close>

definition listOf :: "GroupVersionKind \<Rightarrow> GroupVersionKind" where
  "listOf g = g\<lparr>gvk_Kind := gvk_Kind g @ ''List''\<rparr>"

fun representedList :: "kind \<Rightarrow> representation" where
  "representedList KServer = Typed (gvk (fst GroupVersion) (snd GroupVersion) ''EnshroudedServerList'')"
| "representedList KVolumeSnapshot = Unstructured volumeSnapshotListGVK"
| "representedList k = (case represented k of Typed g \<Rightarrow> Typed (listOf g) | Unstructured g \<Rightarrow> Unstructured (listOf g))"

definition handlesList :: "'s scheme_lib \<Rightarrow> 's \<Rightarrow> kind \<Rightarrow> bool" where
  "handlesList lib s k = (case representedList k of Typed g \<Rightarrow> sl_Recognizes lib s g | Unstructured g \<Rightarrow> True)"

definition handles :: "'s scheme_lib \<Rightarrow> 's \<Rightarrow> kind \<Rightarrow> bool" where
  "handles lib s k = (case represented k of Typed g \<Rightarrow> sl_Recognizes lib s g | Unstructured g \<Rightarrow> True)"

text \<open>The built-in kinds of the client library that the code uses, and their lists.\<close>

definition builtin_objects :: "GroupVersionKind list" where
  "builtin_objects = [gvk ''apps'' ''v1'' ''StatefulSet'', gvk '''' ''v1'' ''Service'',
     gvk '''' ''v1'' ''PersistentVolumeClaim'', gvk '''' ''v1'' ''Secret'', gvk ''networking.k8s.io'' ''v1'' ''NetworkPolicy'',
     gvk '''' ''v1'' ''ServiceAccount'', gvk ''rbac.authorization.k8s.io'' ''v1'' ''Role'',
     gvk ''rbac.authorization.k8s.io'' ''v1'' ''RoleBinding'', gvk ''policy'' ''v1'' ''PodDisruptionBudget'']"

definition builtin_kinds :: "GroupVersionKind list" where
  "builtin_kinds = builtin_objects @ map listOf builtin_objects"

locale runtime_scheme =
  fixes lib :: "'s scheme_lib"
  assumes new_empty: "\<not> sl_Recognizes lib (sl_NewScheme lib) x"
    and add_types: "sl_AddTypes lib gv ts s = Inr s' \<Longrightarrow> t \<in> set ts \<Longrightarrow> sl_Recognizes lib s' (gvk (fst gv) (snd gv) t)"
    and add_types_only: "sl_AddTypes lib gv ts s = Inr s' \<Longrightarrow> x \<in> set builtin_kinds \<Longrightarrow>
      gv \<noteq> (gvk_Group x, gvk_Version x) \<Longrightarrow> sl_Recognizes lib s' x \<longleftrightarrow> sl_Recognizes lib s x"
    and add_clientgo: "sl_AddClientGo lib s = Inr s' \<Longrightarrow> x \<in> set builtin_kinds \<Longrightarrow> sl_Recognizes lib s' x"
begin

lemma AddToScheme_server:
  assumes "AddToScheme lib s = Inr s'"
  shows "handles lib s' KServer" "handlesList lib s' KServer"
    "k \<noteq> KServer \<Longrightarrow> handles lib s' k \<longleftrightarrow> handles lib s k"
    "k \<noteq> KServer \<Longrightarrow> handlesList lib s' k \<longleftrightarrow> handlesList lib s k"
proof -
  show "handlesList lib s' KServer"
    using add_types [OF assms [unfolded AddToScheme_def], of "''EnshroudedServerList''"] by (simp add: handlesList_def registeredTypes_def)
  show "handles lib s' KServer"
    using add_types [OF assms [unfolded AddToScheme_def], of "''EnshroudedServer''"] by (simp add: handles_def registeredTypes_def)
  show "handles lib s' k \<longleftrightarrow> handles lib s k" if "k \<noteq> KServer"
    using add_types_only [OF assms [unfolded AddToScheme_def]] that
    by (cases k) (simp_all add: handles_def builtin_kinds_def builtin_objects_def GroupVersion_def)
  show "handlesList lib s' k \<longleftrightarrow> handlesList lib s k" if "k \<noteq> KServer"
    using add_types_only [OF assms [unfolded AddToScheme_def]] that
    by (cases k) (simp_all add: handlesList_def listOf_def builtin_kinds_def builtin_objects_def GroupVersion_def)
qed

lemma main_init_handles:
  assumes "main_init lib = Inr s"
  shows "handles lib s k \<and> handlesList lib s k"
proof -
  obtain s1 where s1: "sl_AddClientGo lib (sl_NewScheme lib) = Inr s1" "AddToScheme lib s1 = Inr s"
    using assms by (auto simp: main_init_def Must_def split: sum.splits)
  have "handles lib s1 k \<and> handlesList lib s1 k" if "k \<noteq> KServer"
    using add_clientgo [OF s1(1)] that
    by (cases k) (simp_all add: handles_def handlesList_def listOf_def builtin_kinds_def builtin_objects_def)
  with AddToScheme_server [OF s1(2)] show ?thesis by (cases "k = KServer") auto
qed

end

definition list_scheme :: "GroupVersionKind list scheme_lib" where
  "list_scheme = \<lparr>sl_NewScheme = [],
     sl_AddTypes = (\<lambda>gv ts s. Inr (s @ map (gvk (fst gv) (snd gv)) ts)),
     sl_AddClientGo = (\<lambda>s. Inr (s @ builtin_kinds)),
     sl_Recognizes = (\<lambda>s x. x \<in> set s)\<rparr>"

interpretation listed: runtime_scheme list_scheme
  by unfold_locales (auto simp: list_scheme_def)

section \<open>The start of the sidecar\<close>

text \<open>
  The calls into the client library are parameters: the in-cluster configuration, and the client made
  from a configuration and a scheme. \<open>None\<close> is the client \<^verbatim>\<open>nil\<close>.
\<close>

definition buildK8sClient ::
  "'s scheme_lib \<Rightarrow> gerror + 'c \<Rightarrow> ('c \<Rightarrow> 's \<Rightarrow> gerror + 'k) \<Rightarrow> (gerror + 'k option)" where
  "buildK8sClient lib inClusterConfig newClient =
    (case inClusterConfig of
       Inl err \<Rightarrow> Inr None
     | Inr cfg \<Rightarrow>
         (case AddToScheme lib (sl_NewScheme lib) of
            Inl err \<Rightarrow> Inl (wrapErr ''registering EnshroudedServer scheme'' err)
          | Inr scheme \<Rightarrow>
              (case newClient cfg scheme of
                 Inl err \<Rightarrow> Inl (wrapErr ''creating K8s client'' err)
               | Inr c \<Rightarrow> Inr (Some c))))"

text \<open>On an error the client is \<^verbatim>\<open>nil\<close> as well; \<^verbatim>\<open>main\<close> logs the error and goes on.\<close>

definition haveClient :: "gerror + 'k option \<Rightarrow> bool" where
  "haveClient r = (case r of Inl err \<Rightarrow> False | Inr c \<Rightarrow> c \<noteq> None)"

record httpServer =
  hs_Addr :: string
  hs_ReadTimeout :: int
  hs_WriteTimeout :: int

definition metricsServer :: "config \<Rightarrow> httpServer" where
  "metricsServer cfg = \<lparr>hs_Addr = metricsAddr cfg, hs_ReadTimeout = 5 * 1000000000, hs_WriteTimeout = 10 * 1000000000\<rparr>"

text \<open>
  What the goroutine of the HTTP server does with the result of \<^verbatim>\<open>ListenAndServe\<close>: the exit code, if it
  ends the program.
\<close>

definition serverExit :: "gerror \<Rightarrow> gerror option \<Rightarrow> int option" where
  "serverExit errServerClosed err = (if err \<noteq> None \<and> err \<noteq> Some errServerClosed then Some 1 else None)"

text \<open>\<^verbatim>\<open>reg.MustRegister\<close> panics on two gauges of one name, \<^verbatim>\<open>time.NewTicker\<close> on an interval that is not positive.\<close>

definition MustRegister :: "(gauge \<times> GaugeVec) list \<Rightarrow> gerror option" where
  "MustRegister gs =
    (if distinct (map (fqName \<circ> fst \<circ> snd) gs) then None
     else Some (Panic ''duplicate metrics collector registration attempted''))"

definition NewTicker :: "int \<Rightarrow> gerror option" where
  "NewTicker d = (if d \<le> 0 then Some (Panic ''non-positive interval for NewTicker'') else None)"

text \<open>
  The program up to its \<open>n\<close>th tick. \<open>listener\<close> is the tick before which \<^verbatim>\<open>ListenAndServe\<close> returns, and its
  result, if it does; the goroutine runs beside the loop, an exit takes effect between two ticks here.
\<close>

datatype sidecar_end = Panicked gerror | Exited int | Ticking "scrapeState option"

definition sidecar_main ::
  "('w, 'q) platform \<Rightarrow> 'w network \<Rightarrow> nat \<Rightarrow> 's scheme_lib \<Rightarrow> gerror + 'c \<Rightarrow> ('c \<Rightarrow> 's \<Rightarrow> gerror + 'k) \<Rightarrow>
    gerror \<Rightarrow> (nat \<times> gerror option) option \<Rightarrow> (string \<Rightarrow> string) \<Rightarrow> nat \<Rightarrow> ('w, 'q, sidecar_end) M" where
  "sidecar_main p net fuel lib inClusterConfig newClient errServerClosed listener getenv n =
    (let cfg = loadConfig getenv in
     case MustRegister newMetrics of
       Some panic \<Rightarrow> State_Monad.return (Panicked panic)
     | None \<Rightarrow>
         (let k8sClient = haveClient (buildK8sClient lib inClusterConfig newClient) in
          case NewTicker (scrapeInterval cfg) of
            Some panic \<Rightarrow> State_Monad.return (Panicked panic)
          | None \<Rightarrow>
              (case listener of
                 Some (m, err) \<Rightarrow>
                   (case serverExit errServerClosed err of
                      Some code \<Rightarrow>
                        if m \<le> n then do { scrapeTicks p net fuel cfg k8sClient m startState; State_Monad.return (Exited code) }
                        else do { r \<leftarrow> scrapeTicks p net fuel cfg k8sClient n startState; State_Monad.return (Ticking r) }
                    | None \<Rightarrow> do { r \<leftarrow> scrapeTicks p net fuel cfg k8sClient n startState; State_Monad.return (Ticking r) })
               | None \<Rightarrow> do { r \<leftarrow> scrapeTicks p net fuel cfg k8sClient n startState; State_Monad.return (Ticking r) })))"

text \<open>The exit of the listener, if it comes before the \<open>n\<close>th tick.\<close>

definition listenerExit :: "gerror \<Rightarrow> (nat \<times> gerror option) option \<Rightarrow> nat \<Rightarrow> (nat \<times> int) option" where
  "listenerExit closed listener n =
    (case listener of
       None \<Rightarrow> None
     | Some (m, err) \<Rightarrow> if m \<le> n then map_option (\<lambda>code. (m, code)) (serverExit closed err) else None)"

lemma scrapeInterval_min: "5 * 1000000000 \<le> scrapeInterval (loadConfig getenv)"
  by (simp add: loadConfig_def Let_def split: option.split)

lemma sidecar_main_eq:
  "sidecar_main p net fuel lib inCluster newClient closed listener getenv n = do {
     r \<leftarrow> scrapeTicks p net fuel (loadConfig getenv) (haveClient (buildK8sClient lib inCluster newClient))
       (case listenerExit closed listener n of None \<Rightarrow> n | Some (m, code) \<Rightarrow> m) startState;
     State_Monad.return (case listenerExit closed listener n of None \<Rightarrow> Ticking r | Some (m, code) \<Rightarrow> Exited code)
   }"
proof -
  have "MustRegister newMetrics = None" by (simp add: MustRegister_def newMetrics_def fqName_def)
  moreover have "NewTicker (scrapeInterval (loadConfig getenv)) = None"
    using scrapeInterval_min [of getenv] by (simp add: NewTicker_def)
  ultimately show ?thesis
    by (simp add: sidecar_main_def listenerExit_def Let_def split: option.split)
qed

section \<open>The calls of the sidecar\<close>

text \<open>The kind of object an API call is about; other events are no API calls.\<close>

fun event_kind :: "'q event \<Rightarrow> kind option" where
  "event_kind (EvGet k ns n r) = Some k"
| "event_kind (EvList k ns r) = Some k"
| "event_kind (EvCreate x r) = Some (kind_of x)"
| "event_kind (EvUpdate x r) = Some (kind_of x)"
| "event_kind (EvDelete x r) = Some (kind_of x)"
| "event_kind (EvStatusUpdate x r) = Some (kind_of x)"
| "event_kind (EvStatusPatch x r) = Some (kind_of x)"
| "event_kind ev = None"

definition call_allowed :: "bool \<Rightarrow> 'q event \<Rightarrow> bool" where
  "call_allowed k8s ev \<longleftrightarrow> (\<forall>k. event_kind ev = Some k \<longrightarrow> k8s \<and> k = KServer)"

lemma scrape_calls: "emits (call_allowed k8s) (scrape p net fuel cfg k8s st)"
proof -
  have "emits (call_allowed True) (patchServerStatus p ns n players v)" for ns n players v
    unfolding patchServerStatus_def by (intro emits_intros) (simp_all add: call_allowed_def)
  moreover have "emits (call_allowed k8s) (queryA2SInfo p net fuel addr timeout)" for addr timeout
    by (rule emits_mono [OF emits_queryA2SInfo]) (auto simp: call_allowed_def)
  ultimately show ?thesis
    unfolding scrape_def scrapeFailed_def scrapeSucceeded_def publishInfo_def patchWanted_def
    by (intro emits_intros) (auto simp: call_allowed_def)
qed

lemma ticks_calls: "emits (call_allowed k8s) (scrapeTicks p net fuel cfg k8s n st)"
  by (induction n arbitrary: st) (auto intro!: emits_intros scrape_calls)

section \<open>Properties\<close>

text \<open>
  C22. The schemes fit the code: when the operator gets past its initialization, its client handles every kind of
  object that the code reads or writes, and the lists of every kind, with the list kinds named after their objects; a client of the sidecar is built on a scheme that handles the
  server and no other built-in kind. Without cluster credentials the sidecar has no client and no error.
\<close>

theorem schemes_fit_code:
  assumes "runtime_scheme lib"
  shows "(\<forall>s k. main_init lib = Inr s \<longrightarrow> handles lib s k \<and> handlesList lib s k) \<and>
    (\<forall>k. representedList k = (case represented k of Typed g \<Rightarrow> Typed (listOf g) | Unstructured g \<Rightarrow> Unstructured (listOf g))) \<and>
    (\<forall>e. buildK8sClient lib (Inl e) newClient = Inr None) \<and>
    (buildK8sClient lib inCluster newClient = Inr (Some c) \<longrightarrow>
      (\<exists>cfg s. inCluster = Inr cfg \<and> newClient cfg s = Inr c \<and>
         (\<forall>k. handles lib s k \<longleftrightarrow> k = KServer \<or> (\<exists>u. represented k = Unstructured u))))"
proof -
  have only: "handles lib s k \<longleftrightarrow> k = KServer \<or> (\<exists>u. represented k = Unstructured u)"
    if "AddToScheme lib (sl_NewScheme lib) = Inr s" for s k
    using runtime_scheme.AddToScheme_server(1) [OF assms that] runtime_scheme.AddToScheme_server(3) [OF assms that, of k] runtime_scheme.new_empty [OF assms]
    by (cases k) (simp_all add: handles_def)
  have "representedList k = (case represented k of Typed g \<Rightarrow> Typed (listOf g) | Unstructured g \<Rightarrow> Unstructured (listOf g))" for k
    by (cases k) (simp_all add: listOf_def volumeSnapshotListGVK_def volumeSnapshotGVK_def)
  then show ?thesis
    using runtime_scheme.main_init_handles [OF assms] only
    by (auto simp: buildK8sClient_def split: sum.splits)
qed

theorem schemes_fit_code_witness:
  "(\<exists>s. main_init list_scheme = Inr s \<and> handles list_scheme s KPodDisruptionBudget \<and> handlesList list_scheme s KServer) \<and>
   (\<exists>s. buildK8sClient list_scheme (Inr ()) (\<lambda>_ s. Inr s) = Inr (Some s) \<and> handles list_scheme s KServer \<and> \<not> handles list_scheme s KSecret)"
proof -
  obtain s where 1: "main_init list_scheme = Inr s" by (simp add: main_init_def Must_def AddToScheme_def list_scheme_def)
  obtain t where 2: "buildK8sClient list_scheme (Inr ()) (\<lambda>_ s. Inr s) = Inr (Some t)"
    by (simp add: buildK8sClient_def AddToScheme_def list_scheme_def)
  from schemes_fit_code [OF listed.runtime_scheme_axioms, of "\<lambda>_ s. Inr s" "Inr ()" t] 1 2
  have "handles list_scheme s KPodDisruptionBudget" "handlesList list_scheme s KServer" "handles list_scheme t KServer" "\<not> handles list_scheme t KSecret" by auto
  with 1 2 show ?thesis by blast
qed

text \<open>
  C19. The sidecar runs: whatever its environment variables hold and whatever becomes of its API client, it
  does not panic, its ticker has an interval of at least five seconds, and it completes every tick, provided that
  finitely many packets arrive before a deadline; it ends only if its HTTP server fails, with code 1.
  It calls the API server only if it got credentials and a client, and then only about kinds that the client's
  scheme handles.
\<close>

theorem sidecar_runs:
  assumes "udp_deadline net pending bound" "bound < fuel" "runtime_scheme lib"
    "run_state (sidecar_main p net fuel lib inCluster newClient closed listener getenv n) s = (r, s')"
  shows "hs_Addr (metricsServer (loadConfig getenv)) \<noteq> '''' \<and> 5 * 1000000000 \<le> scrapeInterval (loadConfig getenv) \<and>
    (case listener of
       Some (m, Some err) \<Rightarrow> if err \<noteq> closed \<and> m \<le> n then r = Exited 1 else (\<exists>st. r = Ticking (Some st))
     | _ \<Rightarrow> \<exists>st. r = Ticking (Some st)) \<and>
    (\<exists>es. trace s' = trace s @ es \<and>
      (\<forall>ev k. ev \<in> set es \<and> event_kind ev = Some k \<longrightarrow>
        (\<exists>cfg sch c. inCluster = Inr cfg \<and> AddToScheme lib (sl_NewScheme lib) = Inr sch \<and> newClient cfg sch = Inr c \<and>
          handles lib sch k)))"
proof -
  let ?cfg = "loadConfig getenv" and ?k8s = "haveClient (buildK8sClient lib inCluster newClient)"
  let ?x = "listenerExit closed listener n"
  let ?n = "case ?x of None \<Rightarrow> n | Some (m, code) \<Rightarrow> m"
  obtain t where t: "run_state (scrapeTicks p net fuel ?cfg ?k8s ?n startState) s = (t, s')"
    and r: "r = (case ?x of None \<Rightarrow> Ticking t | Some (m, code) \<Rightarrow> Exited code)"
    using assms(4) unfolding sidecar_main_eq by (auto split: prod.splits)
  obtain st where st: "t = Some st" using udp_deadline.ticks_return [OF assms(1) t assms(2)] by blast
  have ends: "case listener of
      Some (m, Some err) \<Rightarrow> if err \<noteq> closed \<and> m \<le> n then r = Exited 1 else (\<exists>st. r = Ticking (Some st))
    | _ \<Rightarrow> \<exists>st. r = Ticking (Some st)"
    using r st by (auto simp: listenerExit_def serverExit_def split: option.splits)
  obtain es where es: "trace s' = trace s @ es" "list_all (call_allowed ?k8s) es"
    using emitsD [OF ticks_calls t] by blast
  have calls: "\<exists>cfg sch c. inCluster = Inr cfg \<and> AddToScheme lib (sl_NewScheme lib) = Inr sch \<and> newClient cfg sch = Inr c \<and>
      handles lib sch k" if "ev \<in> set es" "event_kind ev = Some k" for ev k
  proof -
    have "?k8s" "k = KServer" using es(2) that by (auto simp: list_all_iff call_allowed_def)
    with runtime_scheme.AddToScheme_server(1) [OF assms(3)] show ?thesis
      by (auto simp: haveClient_def buildK8sClient_def split: sum.splits)
  qed
  have "hs_Addr (metricsServer ?cfg) \<noteq> ''''"
    by (simp add: metricsServer_def loadConfig_def Let_def envOrDefault_def)
  then show ?thesis using ends es(1) scrapeInterval_min [of getenv] calls by (intro conjI exI [of _ es]) blast+
qed

theorem sidecar_runs_witness:
  "\<exists>st s'. run_state (sidecar_main mem_platform demo_net 4 list_scheme (Inl (Errorf ''no token'')) (\<lambda>_ :: unit. \<lambda>s. Inr s)
       (Errorf ''closed'') None (\<lambda>_. '''') 2) (world_init []) = (Ticking (Some st), s') \<and>
     list_all (\<lambda>ev. event_kind ev = None) (trace s')"
proof -
  obtain r s' where run: "run_state (sidecar_main mem_platform demo_net 4 list_scheme (Inl (Errorf ''no token'')) (\<lambda>_ :: unit. \<lambda>s. Inr s)
      (Errorf ''closed'') None (\<lambda>_. '''') 2) (world_init []) = (r, s')" by (metis prod.exhaust)
  from sidecar_runs [OF demo_deadline.udp_deadline_axioms _ listed.runtime_scheme_axioms run] run show ?thesis
    by (fastforce simp: world_init_def list_all_iff)
qed

end
