(* ===== verification/Go_Memory.thy ===== *)
theory Go_Memory
  imports Go_Prelude "HOL-Library.Sublist" "HOL-Library.AList"
begin

text \<open>
  Memory, for the code whose point is that two objects share none of it: the deep copies.

  The heap is a list of cells, an address is a position in it and allocation appends, so that the
  addresses in use before an allocation are those below the length of the heap. A fresh cell is
  zeroed, \<open>None\<close>. A struct is a value whose pointer, slice and map fields are addresses
  (\<open>None\<close> is \<^verbatim>\<open>nil\<close>); a slice points to the array of its elements, a map to its entries in the order
  in which \<^verbatim>\<open>range\<close> visits them.

  A type of the program is described by what a struct of it denotes (\<open>view\<close>: \<open>None\<close> if a pointer in it is
  dangling or of another type, which Go's type system excludes), by the addresses it reaches
  (\<open>refs\<close>) and by its copy function. The contract of a deep copy is the locale \<open>deep_copyable\<close>; it is
  closed under pointers, slices, maps, pairs and structs, which is how the generated code composes it.
\<close>

section \<open>The heap\<close>

type_synonym addr = nat
type_synonym 'c heap = "'c option list"

definition cell :: "'c heap \<Rightarrow> addr \<Rightarrow> 'c option" where
  "cell h a = (if a < length h then h ! a else None)"

definition new_cell :: "('c heap, addr) state" where
  "new_cell = State (\<lambda>h. (length h, h @ [None]))"

definition load_cell :: "addr \<Rightarrow> ('c heap, 'c option) state" where
  "load_cell a = State (\<lambda>h. (cell h a, h))"

definition store_cell :: "addr \<Rightarrow> 'c \<Rightarrow> ('c heap, unit) state" where
  "store_cell a c = State (\<lambda>h. ((), h[a := Some c]))"

lemma run_heap [simp]:
  "run_state new_cell h = (length h, h @ [None])" "run_state (load_cell a) h = (cell h a, h)"
  "run_state (store_cell a c) h = ((), h[a := Some c])"
  by (simp_all add: new_cell_def load_cell_def store_cell_def)

lemma cell_simps [simp]:
  "a < length h \<Longrightarrow> cell (h[a := Some c]) a = Some c" "b \<noteq> a \<Longrightarrow> cell (h[a := x]) b = cell h b"
  by (auto simp: cell_def)

lemma cell_prefix: "prefix h h' \<Longrightarrow> a < length h \<Longrightarrow> cell h' a = cell h a"
  by (auto simp: cell_def prefix_def nth_append)

lemma prefix_store: "prefix h h' \<Longrightarrow> length h \<le> a \<Longrightarrow> prefix h (h'[a := x])"
  by (auto simp: prefix_def list_update_append)

lemma prefix_new: "prefix (h @ [x]) h' \<Longrightarrow> prefix h h'"
  by (auto simp: prefix_def)

text \<open>Any number of writes, later ones last.\<close>

definition writes :: "(addr \<times> 'c) list \<Rightarrow> 'c heap \<Rightarrow> 'c heap" where
  "writes ws h = fold (\<lambda>(a, c) h. h[a := Some c]) ws h"

lemma cell_writes: "b \<notin> fst ` set ws \<Longrightarrow> cell (writes ws h) b = cell h b"
  unfolding writes_def by (induction ws arbitrary: h) auto

text \<open>Memory below a limit and memory from the limit on.\<close>

lemma apart:
  fixes n :: nat
  shows "A \<subseteq> {..<n} \<Longrightarrow> B \<subseteq> {n..} \<Longrightarrow> A \<inter> B = {}" "B \<subseteq> {n..<m} \<Longrightarrow> B \<subseteq> {n..}" "A \<subseteq> {k..<n} \<Longrightarrow> A \<subseteq> {..<n}"
    "A \<subseteq> {k..<n} \<Longrightarrow> B \<subseteq> {n..<m} \<Longrightarrow> k \<le> n \<Longrightarrow> n \<le> m \<Longrightarrow> A \<union> B \<subseteq> {k..<m}"
  by force+

section \<open>Copying through pointers\<close>

text \<open>
  \<open>copy_to\<close> is \<^verbatim>\<open>out := new(T); in.DeepCopyInto(out)\<close> for a non-nil \<^verbatim>\<open>in\<close>; \<open>prj\<close> and \<open>emb\<close> read and make a cell of
  the type. In memory that Go's types allow the cell read is one of that type.
\<close>

definition copy_to ::
  "('c \<Rightarrow> 'a option) \<Rightarrow> ('a \<Rightarrow> 'c) \<Rightarrow> ('a \<Rightarrow> ('c heap, 'a) state) \<Rightarrow> addr \<Rightarrow> ('c heap, addr) state" where
  "copy_to prj emb C a = do {
     out \<leftarrow> new_cell;
     c \<leftarrow> load_cell a;
     (case Option.bind c prj of
        None \<Rightarrow> State_Monad.return out
      | Some x \<Rightarrow> do { y \<leftarrow> C x; store_cell out (emb y); State_Monad.return out })
   }"

text \<open>The copy of a pointer: \<^verbatim>\<open>nil\<close> stays \<^verbatim>\<open>nil\<close>.\<close>

fun copy_ptr ::
  "('c \<Rightarrow> 'a option) \<Rightarrow> ('a \<Rightarrow> 'c) \<Rightarrow> ('a \<Rightarrow> ('c heap, 'a) state) \<Rightarrow> addr option \<Rightarrow> ('c heap, addr option) state" where
  "copy_ptr prj emb C None = State_Monad.return None"
| "copy_ptr prj emb C (Some a) = do { out \<leftarrow> copy_to prj emb C a; State_Monad.return (Some out) }"

text \<open>
  The loop over the elements of a slice, and the one over the entries of a map. The results are collected
  and written to the new array or map, allocated before the loop, when it ends: nothing reads it earlier.
\<close>

fun copy_list :: "('a \<Rightarrow> ('c heap, 'a) state) \<Rightarrow> 'a list \<Rightarrow> ('c heap, 'a list) state" where
  "copy_list C [] = State_Monad.return []"
| "copy_list C (x # xs) = do { y \<leftarrow> C x; ys \<leftarrow> copy_list C xs; State_Monad.return (y # ys) }"

fun copy_entries ::
  "('a \<Rightarrow> ('c heap, 'a) state) \<Rightarrow> ('k \<times> 'a) list \<Rightarrow> ('k \<times> 'a) list \<Rightarrow> ('c heap, ('k \<times> 'a) list) state" where
  "copy_entries C out [] = State_Monad.return out"
| "copy_entries C out ((key, val) # rest) = do { v \<leftarrow> C val; copy_entries C (AList.update key v out) rest }"

definition copy_pair ::
  "('a \<Rightarrow> ('c heap, 'a) state) \<Rightarrow> ('b \<Rightarrow> ('c heap, 'b) state) \<Rightarrow> 'a \<times> 'b \<Rightarrow> ('c heap, 'a \<times> 'b) state" where
  "copy_pair C D z = do { x \<leftarrow> C (fst z); y \<leftarrow> D (snd z); State_Monad.return (x, y) }"

section \<open>What a struct denotes and what it reaches\<close>

type_synonym ('c, 'a, 'v) view = "'c heap \<Rightarrow> 'a \<Rightarrow> 'v option"
type_synonym ('c, 'a) refs = "'c heap \<Rightarrow> 'a \<Rightarrow> addr list"

definition view_plain :: "('c, 'a, 'a) view" where
  "view_plain h x = Some x"

definition refs_plain :: "('c, 'a) refs" where
  "refs_plain h x = []"

definition view_to :: "('c \<Rightarrow> 'a option) \<Rightarrow> ('c, 'a, 'v) view \<Rightarrow> ('c, addr, 'v) view" where
  "view_to prj V h a = Option.bind (Option.bind (cell h a) prj) (V h)"

definition refs_to :: "('c \<Rightarrow> 'a option) \<Rightarrow> ('c, 'a) refs \<Rightarrow> ('c, addr) refs" where
  "refs_to prj R h a = a # (case Option.bind (cell h a) prj of None \<Rightarrow> [] | Some x \<Rightarrow> R h x)"

fun view_ptr :: "('c \<Rightarrow> 'a option) \<Rightarrow> ('c, 'a, 'v) view \<Rightarrow> ('c, addr option, 'v option) view" where
  "view_ptr prj V h None = Some None"
| "view_ptr prj V h (Some a) = map_option Some (view_to prj V h a)"

fun refs_ptr :: "('c \<Rightarrow> 'a option) \<Rightarrow> ('c, 'a) refs \<Rightarrow> ('c, addr option) refs" where
  "refs_ptr prj R h None = []"
| "refs_ptr prj R h (Some a) = refs_to prj R h a"

fun view_list :: "('c, 'a, 'v) view \<Rightarrow> ('c, 'a list, 'v list) view" where
  "view_list V h [] = Some []"
| "view_list V h (x # xs) =
    (case (V h x, view_list V h xs) of (Some v, Some vs) \<Rightarrow> Some (v # vs) | _ \<Rightarrow> None)"

definition refs_list :: "('c, 'a) refs \<Rightarrow> ('c, 'a list) refs" where
  "refs_list R h xs = concat (map (R h) xs)"

definition view_entries :: "('c, 'a, 'v) view \<Rightarrow> ('c, ('k \<times> 'a) list, 'k \<rightharpoonup> 'v) view" where
  "view_entries V h kvs =
    (if distinct (map fst kvs)
     then map_option (\<lambda>vs. map_of (zip (map fst kvs) vs)) (view_list V h (map snd kvs)) else None)"

definition refs_entries :: "('c, 'a) refs \<Rightarrow> ('c, ('k \<times> 'a) list) refs" where
  "refs_entries R h kvs = refs_list R h (map snd kvs)"

definition view_pair :: "('c, 'a, 'v) view \<Rightarrow> ('c, 'b, 'w) view \<Rightarrow> ('c, 'a \<times> 'b, 'v \<times> 'w) view" where
  "view_pair V W h z =
    (case (V h (fst z), W h (snd z)) of (Some v, Some w) \<Rightarrow> Some (v, w) | _ \<Rightarrow> None)"

definition refs_pair :: "('c, 'a) refs \<Rightarrow> ('c, 'b) refs \<Rightarrow> ('c, 'a \<times> 'b) refs" where
  "refs_pair R S h z = R h (fst z) @ S h (snd z)"

text \<open>A tagged union: the value of one alternative.\<close>

definition view_variant :: "('b \<Rightarrow> 'a option) \<Rightarrow> ('c, 'a, 'v) view \<Rightarrow> ('c, 'b, 'v) view" where
  "view_variant prj V h x = Option.bind (prj x) (V h)"

definition refs_variant :: "('b \<Rightarrow> 'a option) \<Rightarrow> ('c, 'a) refs \<Rightarrow> ('c, 'b) refs" where
  "refs_variant prj R h x = (case prj x of None \<Rightarrow> [] | Some y \<Rightarrow> R h y)"

definition copy_variant :: "('b \<Rightarrow> 'a option) \<Rightarrow> ('a \<Rightarrow> 'b) \<Rightarrow> ('a \<Rightarrow> ('c heap, 'a) state) \<Rightarrow> 'b \<Rightarrow> ('c heap, 'b) state" where
  "copy_variant prj emb C x =
    (case prj x of None \<Rightarrow> State_Monad.return x | Some y \<Rightarrow> do { z \<leftarrow> C y; State_Monad.return (emb z) })"

section \<open>The contract of a deep copy\<close>

text \<open>
  \<open>bounded\<close> and \<open>footprint\<close> tie \<open>refs\<close> to \<open>view\<close>: a struct reaches allocated memory only, and means the same in
  every heap that agrees on what it reaches. \<open>copies\<close> is the promise: the copy means the same, the
  memory that was there is untouched, everything the copy reaches is newly allocated, and no two
  of its pointers lead to the same place.
\<close>

text \<open>
  What a caller gains: \<open>y\<close> is a copy of \<open>x\<close>, made between \<open>h\<close> and \<open>h'\<close>, and from then on no write to memory that was
  there before shows in the copy, and no write to the memory of the copy in the original.
\<close>

definition independent_copy :: "('c, 'a, 'v) view \<Rightarrow> ('c, 'a) refs \<Rightarrow> 'c heap \<Rightarrow> 'c heap \<Rightarrow> 'a \<Rightarrow> 'a \<Rightarrow> 'v \<Rightarrow> bool" where
  "independent_copy V R h h' x y v \<longleftrightarrow>
     V h' y = Some v \<and> V h' x = Some v \<and> prefix h h' \<and> distinct (R h' y) \<and>
     set (R h' y) \<subseteq> {length h..<length h'} \<and> set (R h' x) \<subseteq> {..<length h} \<and>
     (\<forall>ws. fst ` set ws \<subseteq> {..<length h} \<longrightarrow> V (writes ws h') y = Some v) \<and>
     (\<forall>ws. fst ` set ws \<subseteq> set (R h' y) \<longrightarrow> V (writes ws h') x = Some v)"

locale deep_copyable =
  fixes V :: "('c, 'a, 'v) view" and R :: "('c, 'a) refs" and C :: "'a \<Rightarrow> ('c heap, 'a) state"
  assumes bounded: "V h x = Some v \<Longrightarrow> set (R h x) \<subseteq> {..<length h}"
    and footprint: "V h x = Some v \<Longrightarrow> (\<And>a. a \<in> set (R h x) \<Longrightarrow> cell h' a = cell h a) \<Longrightarrow>
      V h' x = Some v \<and> R h' x = R h x"
    and copies: "V h x = Some v \<Longrightarrow> run_state (C x) h = (y, h') \<Longrightarrow>
      prefix h h' \<and> V h' y = Some v \<and> set (R h' y) \<subseteq> {length h..<length h'} \<and> distinct (R h' y)"
begin

lemma copyD:
  assumes "V h x = Some v" "run_state (C x) h = (y, h')"
  shows "prefix h h'" "V h' y = Some v" "set (R h' y) \<subseteq> {length h..<length h'}" "distinct (R h' y)"
    "length h \<le> length h'"
  using copies [OF assms] by (simp_all add: prefix_length_le)

lemma stable:
  assumes "V h x = Some v" "prefix h h'"
  shows "V h' x = Some v" "R h' x = R h x"
  using footprint [OF assms(1), of h'] bounded [OF assms(1)] cell_prefix [OF assms(2)] by auto

lemma copy_independent:
  assumes "V h x = Some v" "run_state (C x) h = (y, h')"
  shows "independent_copy V R h h' x y v"
proof -
  note c = copyD [OF assms]
  have old: "V h' x = Some v" "R h' x = R h x" using stable [OF assms(1) c(1)] by simp_all
  have 1: "V (writes ws h') y = Some v" if "fst ` set ws \<subseteq> {..<length h}" for ws
  proof -
    have "fst ` set ws \<inter> set (R h' y) = {}" by (rule apart(1) [OF that apart(2) [OF c(3)]])
    then have "a \<notin> fst ` set ws" if "a \<in> set (R h' y)" for a using that by blast
    with c(2) footprint [of h' y v "writes ws h'"] show ?thesis by (simp add: cell_writes)
  qed
  have 2: "V (writes ws h') x = Some v" if "fst ` set ws \<subseteq> {length h..}" for ws
  proof -
    have "set (R h' x) \<inter> fst ` set ws = {}" using apart(1) [OF bounded [OF assms(1)] that] old(2) by simp
    then have "a \<notin> fst ` set ws" if "a \<in> set (R h' x)" for a using that by blast
    with old footprint [of h' x v "writes ws h'"] show ?thesis by (simp add: cell_writes)
  qed
  show ?thesis
    using c bounded [OF assms(1)] old 1 2 [OF order_trans, OF _ apart(2) [OF c(3)]] by (simp add: independent_copy_def)
qed

lemma list_stable: "view_list V h xs = Some vs \<Longrightarrow> prefix h h' \<Longrightarrow> view_list V h' xs = Some vs"
proof (induction xs arbitrary: vs)
  case (Cons x xs)
  from Cons.prems(1) obtain v us where v: "V h x = Some v" "view_list V h xs = Some us" "vs = v # us"
    by (auto split: option.splits)
  with Cons.IH [OF v(2) Cons.prems(2)] stable(1) [OF v(1) Cons.prems(2)] show ?case by simp
qed simp

lemma list_copies:
  assumes "view_list V h xs = Some vs" "run_state (copy_list C xs) h = (ys, h')"
  shows "prefix h h' \<and> view_list V h' ys = Some vs \<and> set (refs_list R h' ys) \<subseteq> {length h..<length h'} \<and>
    distinct (refs_list R h' ys) \<and> length ys = length xs"
  using assms
proof (induction xs arbitrary: h vs ys)
  case Nil
  then show ?case by (auto simp: refs_list_def)
next
  case (Cons x xs)
  from Cons.prems(1) obtain v us where v: "V h x = Some v" "view_list V h xs = Some us" "vs = v # us"
    by (auto split: option.splits)
  obtain y h1 where y: "run_state (C x) h = (y, h1)" by (metis prod.exhaust)
  obtain zs h2 where zs: "run_state (copy_list C xs) h1 = (zs, h2)" by (metis prod.exhaust)
  from Cons.prems(2) y zs have out: "ys = y # zs" "h2 = h'" by auto
  note c = copyD [OF v(1) y]
  from Cons.IH [OF list_stable [OF v(2) c(1)] zs [unfolded out]]
  have r: "prefix h1 h'" "view_list V h' zs = Some us" "set (refs_list R h' zs) \<subseteq> {length h1..<length h'}"
    "distinct (refs_list R h' zs)" "length zs = length xs" by blast+
  have k: "V h' y = Some v" "R h' y = R h1 y" using stable [OF c(2) r(1)] by simp_all
  have "set (R h1 y) \<inter> set (refs_list R h' zs) = {}" "set (R h1 y) \<union> set (refs_list R h' zs) \<subseteq> {length h..<length h'}"
    using apart(1) [OF apart(3) [OF c(3)] apart(2) [OF r(3)]] apart(4) [OF c(3) r(3) c(5) prefix_length_le [OF r(1)]] by simp_all
  moreover have "refs_list R h' ys = R h1 y @ refs_list R h' zs" using out k(2) by (simp add: refs_list_def)
  moreover have "prefix h h'" by (rule prefix_order.trans [OF c(1) r(1)])
  ultimately show ?case
    using c r k v(3) out by simp
qed

lemma list_copy: "deep_copyable (view_list V) (refs_list R) (copy_list C)"
proof
  show "set (refs_list R h xs) \<subseteq> {..<length h}" if "view_list V h xs = Some vs" for h xs vs
    using that
  proof (induction xs arbitrary: vs)
    case (Cons x xs)
    then show ?case using bounded [of h x] by (auto simp: refs_list_def split: option.splits)
  qed (simp add: refs_list_def)
  show "view_list V h' xs = Some vs \<and> refs_list R h' xs = refs_list R h xs"
    if "view_list V h xs = Some vs" "\<And>a. a \<in> set (refs_list R h xs) \<Longrightarrow> cell h' a = cell h a" for h xs vs h'
    using that
  proof (induction xs arbitrary: vs)
    case (Cons x xs)
    from Cons.prems(1) obtain v us where v: "V h x = Some v" "view_list V h xs = Some us" "vs = v # us"
      by (auto split: option.splits)
    have "V h' x = Some v \<and> R h' x = R h x"
      by (rule footprint [OF v(1)]) (simp add: Cons.prems(2) refs_list_def)
    moreover have "view_list V h' xs = Some us \<and> refs_list R h' xs = refs_list R h xs"
      by (rule Cons.IH [OF v(2)]) (use Cons.prems(2) in \<open>auto simp: refs_list_def\<close>)
    ultimately show ?case using v(3) by (auto simp: refs_list_def)
  qed (simp add: refs_list_def)
qed (use list_copies in blast)

lemma to_copies:
  assumes "\<And>x. prj (emb x) = Some x" "view_to prj V h a = Some v" "run_state (copy_to prj emb C a) h = (b, h')"
  shows "prefix h h' \<and> view_to prj V h' b = Some v \<and> set (refs_to prj R h' b) \<subseteq> {length h..<length h'} \<and>
    distinct (refs_to prj R h' b)"
proof -
  obtain c x where x: "cell h a = Some c" "prj c = Some x" "V h x = Some v"
    using assms(2) by (auto simp: view_to_def bind_eq_Some_conv)
  let ?h = "h @ [None]"
  have "a < length h" using x(1) by (simp add: cell_def split: if_splits)
  then have load: "cell ?h a = Some c" using x(1) cell_prefix [of h ?h a] by simp
  obtain y h1 where y: "run_state (C x) ?h = (y, h1)" by (metis prod.exhaust)
  have b: "b = length h" "h' = h1[b := Some (emb y)]" using assms(3) load x(2) y by (auto simp: copy_to_def)
  note d = copyD [OF stable(1) [OF x(3)] y, simplified]
  have out: "cell h' b = Some (emb y)" using d(5) b by simp
  have "b \<notin> set (R h1 y)" using d(3) b(1) by auto
  then have "cell h' a = cell h1 a" if "a \<in> set (R h1 y)" for a using that b(2) by (metis cell_simps(2))
  from footprint [OF d(2) this] have k: "V h' y = Some v" "R h' y = R h1 y" by simp_all
  have "prefix h h'" unfolding b(2) by (rule prefix_store [OF prefix_new [OF d(1)]]) (simp add: b(1))
  with out k d b \<open>b \<notin> set (R h1 y)\<close> assms(1) show ?thesis
    by (auto simp: view_to_def refs_to_def)
qed

lemma to_copy:
  assumes "\<And>x. prj (emb x) = Some x"
  shows "deep_copyable (view_to prj V) (refs_to prj R) (copy_to prj emb C)"
proof
  fix h a v h'
  assume "view_to prj V h a = Some v"
  then obtain c x where x: "cell h a = Some c" "prj c = Some x" "V h x = Some v"
    by (auto simp: view_to_def bind_eq_Some_conv)
  then show "set (refs_to prj R h a) \<subseteq> {..<length h}"
    using bounded [OF x(3)] by (auto simp: refs_to_def cell_def split: if_splits)
  assume same: "\<And>b. b \<in> set (refs_to prj R h a) \<Longrightarrow> cell h' b = cell h b"
  have "V h' x = Some v \<and> R h' x = R h x"
    by (rule footprint [OF x(3)]) (use same x in \<open>simp add: refs_to_def\<close>)
  moreover have "cell h' a = Some c" using same [of a] x by (simp add: refs_to_def)
  ultimately show "view_to prj V h' a = Some v \<and> refs_to prj R h' a = refs_to prj R h a"
    using x by (simp add: view_to_def refs_to_def)
qed (use to_copies assms in blast)

lemma nil_copy: "deep_copyable (\<lambda>h. case_option (Some None) (\<lambda>x. map_option Some (V h x)))
    (\<lambda>h. case_option [] (R h)) (case_option (State_Monad.return None) (\<lambda>x. do { y \<leftarrow> C x; State_Monad.return (Some y) }))"
proof
  fix h x v h'
  assume v: "case_option (Some None) (\<lambda>x. map_option Some (V h x)) x = Some v"
  then show "set (case_option [] (R h) x) \<subseteq> {..<length h}"
    using bounded by (auto split: option.splits)
  assume "\<And>a. a \<in> set (case_option [] (R h) x) \<Longrightarrow> cell h' a = cell h a"
  with v show "case_option (Some None) (\<lambda>x. map_option Some (V h' x)) x = Some v \<and> case_option [] (R h') x = case_option [] (R h) x"
    using footprint [of h _ _ h'] by (auto split: option.splits)
next
  fix h x v y h'
  assume v: "case_option (Some None) (\<lambda>x. map_option Some (V h x)) x = Some v"
    and run: "run_state (case x of None \<Rightarrow> State_Monad.return None | Some x \<Rightarrow> do { y \<leftarrow> C x; State_Monad.return (Some y) }) h = (y, h')"
  show "prefix h h' \<and> case_option (Some None) (\<lambda>x. map_option Some (V h' x)) y = Some v \<and>
      set (case_option [] (R h') y) \<subseteq> {length h..<length h'} \<and> distinct (case_option [] (R h') y)"
  proof (cases x)
    case (Some z)
    obtain w h1 where w: "run_state (C z) h = (w, h1)" by (metis prod.exhaust)
    with v run Some obtain u where "V h z = Some u" "v = Some u" "y = Some w" "h1 = h'" by auto
    with copies [OF this(1) w] show ?thesis by simp
  qed (use v run in auto)
qed

lemma variant_copy:
  assumes "\<And>x. prj (emb x) = Some x"
  shows "deep_copyable (view_variant prj V) (refs_variant prj R) (copy_variant prj emb C)"
proof
  fix h x v h'
  assume "view_variant prj V h x = Some v"
  then obtain z where z: "prj x = Some z" "V h z = Some v" by (auto simp: view_variant_def bind_eq_Some_conv)
  then show "set (refs_variant prj R h x) \<subseteq> {..<length h}"
    using bounded by (auto simp: refs_variant_def)
  assume "\<And>a. a \<in> set (refs_variant prj R h x) \<Longrightarrow> cell h' a = cell h a"
  with z footprint [OF z(2), of h'] show "view_variant prj V h' x = Some v \<and> refs_variant prj R h' x = refs_variant prj R h x"
    by (auto simp: view_variant_def refs_variant_def)
next
  fix h x v y h'
  assume v: "view_variant prj V h x = Some v" and run: "run_state (copy_variant prj emb C x) h = (y, h')"
  from v obtain z where z: "prj x = Some z" "V h z = Some v" by (auto simp: view_variant_def bind_eq_Some_conv)
  obtain w h1 where w: "run_state (C z) h = (w, h1)" by (metis prod.exhaust)
  with run z have "y = emb w" "h1 = h'" by (auto simp: copy_variant_def)
  with copies [OF z(2) w] assms show "prefix h h' \<and> view_variant prj V h' y = Some v \<and>
      set (refs_variant prj R h' y) \<subseteq> {length h..<length h'} \<and> distinct (refs_variant prj R h' y)"
    by (simp add: view_variant_def refs_variant_def)
qed

lemma struct_copy:
  assumes "\<And>f x. get (put f x) = f" "\<And>f x. make (put f x) = make x"
    "\<And>x. D x = do { f \<leftarrow> C (get x); State_Monad.return (put f x) }"
  shows "deep_copyable (\<lambda>h x. map_option (make x) (V h (get x))) (\<lambda>h x. R h (get x)) D"
proof
  fix h x v h'
  assume v: "map_option (make x) (V h (get x)) = Some v"
  then show "set (R h (get x)) \<subseteq> {..<length h}" using bounded by auto
  assume "\<And>a. a \<in> set (R h (get x)) \<Longrightarrow> cell h' a = cell h a"
  with v show "map_option (make x) (V h' (get x)) = Some v \<and> R h' (get x) = R h (get x)"
    using footprint [of h "get x" _ h'] by auto
next
  fix h x v y h'
  assume v: "map_option (make x) (V h (get x)) = Some v" and run: "run_state (D x) h = (y, h')"
  obtain f h1 where f: "run_state (C (get x)) h = (f, h1)" by (metis prod.exhaust)
  with run have "y = put f x" "h' = h1" by (auto simp: assms(3))
  with v copies [OF _ f] show "prefix h h' \<and> map_option (make y) (V h' (get y)) = Some v \<and>
      set (R h' (get y)) \<subseteq> {length h..<length h'} \<and> distinct (R h' (get y))"
    by (auto simp: assms(1,2))
qed

end

named_theorems copy_intros \<open>the type constructors preserve deep copying\<close>

lemma copy_of_plain [copy_intros]: "deep_copyable view_plain refs_plain State_Monad.return"
  by unfold_locales (auto simp: view_plain_def refs_plain_def)


section \<open>Closure of the contract\<close>

lemmas copy_of_list [copy_intros] = deep_copyable.list_copy
lemmas copy_of_variant = deep_copyable.variant_copy
lemmas copy_of_struct = deep_copyable.struct_copy

locale two_copyable = fst: deep_copyable V R C + snd: deep_copyable W S D
  for V :: "('c, 'a, 'v) view" and R :: "('c, 'a) refs" and C :: "'a \<Rightarrow> ('c heap, 'a) state"
    and W :: "('c, 'b, 'w) view" and S :: "('c, 'b) refs" and D :: "'b \<Rightarrow> ('c heap, 'b) state"
begin

lemma pair_copies:
  assumes "view_pair V W h z = Some v" "run_state (copy_pair C D z) h = (z', h')"
  shows "prefix h h' \<and> view_pair V W h' z' = Some v \<and> set (refs_pair R S h' z') \<subseteq> {length h..<length h'} \<and>
    distinct (refs_pair R S h' z')"
proof -
  obtain v1 v2 where v: "V h (fst z) = Some v1" "W h (snd z) = Some v2" "v = (v1, v2)"
    using assms(1) by (auto simp: view_pair_def split: option.splits)
  obtain x h1 where x: "run_state (C (fst z)) h = (x, h1)" by (metis prod.exhaust)
  obtain y h2 where y: "run_state (D (snd z)) h1 = (y, h2)" by (metis prod.exhaust)
  from assms(2) x y have out: "z' = (x, y)" "h2 = h'" by (auto simp: copy_pair_def)
  note c = fst.copyD [OF v(1) x]
  note d = snd.copyD [OF snd.stable(1) [OF v(2) c(1)] y [unfolded out]]
  have k: "V h' x = Some v1" "R h' x = R h1 x" using fst.stable [OF c(2) d(1)] by simp_all
  have "set (R h1 x) \<inter> set (S h' y) = {}" "set (R h1 x) \<union> set (S h' y) \<subseteq> {length h..<length h'}"
    using apart(1) [OF apart(3) [OF c(3)] apart(2) [OF d(3)]] apart(4) [OF c(3) d(3) c(5) d(5)] by simp_all
  moreover have "prefix h h'" by (rule prefix_order.trans [OF c(1) d(1)])
  ultimately show ?thesis
    using c d k v(3) out by (simp add: view_pair_def refs_pair_def)
qed

end

sublocale two_copyable \<subseteq> pair: deep_copyable "view_pair V W" "refs_pair R S" "copy_pair C D"
proof
  fix h z v h'
  assume v: "view_pair V W h z = Some v"
  then show "set (refs_pair R S h z) \<subseteq> {..<length h}"
    using fst.bounded [of h "fst z"] snd.bounded [of h "snd z"] by (auto simp: view_pair_def refs_pair_def split: option.splits)
  assume "\<And>a. a \<in> set (refs_pair R S h z) \<Longrightarrow> cell h' a = cell h a"
  with v show "view_pair V W h' z = Some v \<and> refs_pair R S h' z = refs_pair R S h z"
    using fst.footprint [of h "fst z" _ h'] snd.footprint [of h "snd z" _ h']
    by (auto simp: view_pair_def refs_pair_def split: option.splits)
qed (use pair_copies in blast)

context two_copyable
begin

lemmas pair_copyable = pair.deep_copyable_axioms

end

lemma copy_of_pair [copy_intros]:
  "deep_copyable V R C \<Longrightarrow> deep_copyable W S D \<Longrightarrow> deep_copyable (view_pair V W) (refs_pair R S) (copy_pair C D)"
  by (intro two_copyable.pair_copyable two_copyable.intro)


lemma copy_of_ptr [copy_intros]:
  assumes "deep_copyable V R C" "\<And>x. prj (emb x) = Some x"
  shows "deep_copyable (view_ptr prj V) (refs_ptr prj R) (copy_ptr prj emb C)"
proof -
  have "view_ptr prj V = (\<lambda>h. case_option (Some None) (\<lambda>a. map_option Some (view_to prj V h a)))"
    "refs_ptr prj R = (\<lambda>h. case_option [] (refs_to prj R h))"
    "copy_ptr prj emb C = case_option (State_Monad.return None) (\<lambda>a. do { b \<leftarrow> copy_to prj emb C a; State_Monad.return (Some b) })"
    by (auto simp: fun_eq_iff split: option.split)
  then show ?thesis
    using deep_copyable.nil_copy [OF deep_copyable.to_copy [OF assms]] by simp
qed

text \<open>The entries of a map are written one by one; with distinct keys that is the copy of the list of values.\<close>

lemma copy_entries_list:
  "distinct (map fst (out @ kvs)) \<Longrightarrow>
    copy_entries C out kvs = do { vs \<leftarrow> copy_list C (map snd kvs); State_Monad.return (out @ zip (map fst kvs) vs) }"
proof (induction kvs arbitrary: out)
  case (Cons kv kvs)
  obtain k x where kv: "kv = (k, x)" by (cases kv)
  with Cons.prems have "AList.update k v out = out @ [(k, v)]" for v
    by (induction out) auto
  with Cons kv show ?case by simp
qed simp

lemma copy_of_entries [copy_intros]:
  assumes "deep_copyable V R C"
  shows "deep_copyable (view_entries V) (refs_entries R) (copy_entries C [])"
proof
  fix h kvs v h'
  note L = deep_copyable.list_copy [OF assms]
  assume v: "view_entries V h kvs = Some v"
  then show "set (refs_entries R h kvs) \<subseteq> {..<length h}"
    using deep_copyable.bounded [OF L] by (auto simp: view_entries_def refs_entries_def split: if_splits)
  assume "\<And>a. a \<in> set (refs_entries R h kvs) \<Longrightarrow> cell h' a = cell h a"
  with v show "view_entries V h' kvs = Some v \<and> refs_entries R h' kvs = refs_entries R h kvs"
    using deep_copyable.footprint [OF L, of h "map snd kvs" _ h']
    by (auto simp: view_entries_def refs_entries_def split: if_splits)
next
  fix h kvs v ys h'
  assume v: "view_entries V h kvs = Some v" and run: "run_state (copy_entries C [] kvs) h = (ys, h')"
  from v obtain vs where vs: "distinct (map fst kvs)" "view_list V h (map snd kvs) = Some vs" "v = map_of (zip (map fst kvs) vs)"
    by (auto simp: view_entries_def split: if_splits)
  obtain zs h1 where zs: "run_state (copy_list C (map snd kvs)) h = (zs, h1)" by (metis prod.exhaust)
  with run vs(1) have out: "ys = zip (map fst kvs) zs" "h1 = h'" by (auto simp: copy_entries_list)
  note c = deep_copyable.list_copies [OF assms vs(2) zs]
  from c have "length zs = length kvs" by simp
  then have "map fst ys = map fst kvs" "map snd ys = zs" by (simp_all add: out(1))
  with c vs out(2) show "prefix h h' \<and> view_entries V h' ys = Some v \<and>
      set (refs_entries R h' ys) \<subseteq> {length h..<length h'} \<and> distinct (refs_entries R h' ys)"
    by (simp add: view_entries_def refs_entries_def)
qed


text \<open>The method \<^verbatim>\<open>DeepCopy\<close> of a type: a pointer to a struct gives a pointer to an independent copy, and \<^verbatim>\<open>nil\<close> gives \<^verbatim>\<open>nil\<close>.\<close>

definition copies_pointers ::
  "('c \<Rightarrow> 'a option) \<Rightarrow> ('c, 'a, 'v) view \<Rightarrow> ('c, 'a) refs \<Rightarrow> (addr option \<Rightarrow> ('c heap, addr option) state) \<Rightarrow> bool" where
  "copies_pointers prj V R DC \<longleftrightarrow>
     (\<forall>h. run_state (DC None) h = (None, h)) \<and>
     (\<forall>h a v r h'. view_to prj V h a = Some v \<longrightarrow> run_state (DC (Some a)) h = (r, h') \<longrightarrow>
        (\<exists>b. r = Some b \<and> independent_copy (view_to prj V) (refs_to prj R) h h' a b v))"

lemma copies_pointersI:
  assumes "deep_copyable V R C" "\<And>x. prj (emb x) = Some x"
  shows "copies_pointers prj V R (copy_ptr prj emb C)"
  using deep_copyable.copy_independent [OF deep_copyable.to_copy [OF assms]]
  by (auto simp: copies_pointers_def split: prod.splits)

end
