(* ===== verification/Deep_Copy.thy ===== *)
theory Deep_Copy
  imports Api_Types Go_Memory
begin

text \<open>
  The generated deep copies of \<^verbatim>\<open>api/v1alpha1/zz_generated.deepcopy.go\<close>, on the memory of \<open>Go_Memory\<close>.

  Every struct that holds a pointer, a slice or a map has a record of its layout (\<open>..._m\<close>), whose fields are those
  of the struct in \<^verbatim>\<open>enshroudedserver_types.go\<close>; the others are the records of \<open>Api_Types\<close>. The structs of the
  Kubernetes libraries are opaque memory \<open>'l\<close>: their copy functions, what they denote and what they
  reach are the parameter \<open>kube_structs\<close>, with the contract \<open>deep_copyable\<close> for each (locale
  \<open>kube_copies\<close>). What a layout denotes is a value of \<open>Api_Types\<close>, the values on which the rest of the
  development computes.

  \<^verbatim>\<open>in.DeepCopyInto(out)\<close> is a function from the struct \<^verbatim>\<open>*in\<close> to the struct it leaves in \<^verbatim>\<open>*out\<close>: the record
  update starts from \<^verbatim>\<open>*out = *in\<close>.

  Shown: a copy denotes what the original denotes, shares no memory with it, and no write to one is
  seen in the other; hence the base of the status patch of the sidecar keeps the old status.
\<close>

section \<open>Layouts\<close>

record 'l StorageSpec_m =
  Size_m :: 'l
  StorageClassName_m :: "addr option"
  RetainOnDelete_m :: "addr option"

record UserGroup_m =
  ug_Name_m :: string
  ug_PasswordSecretRef_m :: "addr option"
  ug_CanKickBan_m :: bool
  ug_CanAccessInventories_m :: bool
  ug_CanEditWorld_m :: bool
  ug_CanEditBase_m :: bool
  ug_CanExtendBase_m :: bool
  ug_ReservedSlots_m :: int32

record VerticalScalingSpec_m =
  vsc_Enabled_m :: bool
  vsc_UpdateMode_m :: string
  vsc_MinAllowed_m :: "addr option"
  vsc_MaxAllowed_m :: "addr option"

record VolumeSnapshotBackupSpec_m =
  vsb_Enabled_m :: bool
  vsb_Schedule_m :: string
  vsb_RetainCount_m :: int32
  vsb_VolumeSnapshotClassName_m :: "addr option"

record BackupSpec_m =
  bk_VolumeSnapshot_m :: VolumeSnapshotBackupSpec_m
  bk_S3_m :: "addr option"

record UpdatePolicySpec_m =
  DeferWhilePlaying_m :: bool
  MaintenanceWindows_m :: "addr option"
  UpgradeStrategy_m :: string

record 'l EnshroudedServerSpec_m =
  ServerName_m :: string
  ServerPasswordSecretRef_m :: "addr option"
  Port_m :: int32
  SteamPort_m :: int32
  ServerSlots_m :: int32
  ServerIP_m :: string
  Image_m :: ImageSpec
  Resources_m :: 'l
  Storage_m :: "'l StorageSpec_m"
  UserGroups_m :: "addr option"
  UpdatePolicy_m :: UpdatePolicySpec_m
  Backup_m :: BackupSpec_m
  MetricsSidecar_m :: MetricsSidecarSpec
  VerticalScaling_m :: VerticalScalingSpec_m

record EnshroudedServerStatus_m =
  Phase_m :: string
  ReadyReplicas_m :: int32
  ActivePlayers_m :: int32
  GameVersion_m :: string
  UpdateDeferred_m :: bool
  Conditions_m :: "addr option"

record TypeMeta =
  tm_Kind :: string
  tm_APIVersion :: string

record 'l EnshroudedServer_m =
  es_TypeMeta_m :: TypeMeta
  es_Meta_m :: 'l
  Spec_m :: "'l EnshroudedServerSpec_m"
  Status_m :: EnshroudedServerStatus_m

record 'l EnshroudedServerList_m =
  esl_TypeMeta_m :: TypeMeta
  esl_Meta_m :: 'l
  Items_m :: "addr option"

text \<open>What a cell of memory can hold: what \<^verbatim>\<open>new\<close> and \<^verbatim>\<open>make\<close> are applied to in the generated code.\<close>

datatype 'l mcell =
    CString (ofString: string)
  | CBool (ofBool: bool)
  | CStrings (ofStrings: "string list")
  | CSelector (ofSelector: 'l)
  | CConditions (ofConditions: "'l list")
  | CQuantities (ofQuantities: "(string \<times> 'l) list")
  | CUserGroups (ofUserGroups: "UserGroup_m list")
  | CServers (ofServers: "'l EnshroudedServer_m list")
  | CBackupSpec (ofBackupSpec: BackupSpec_m)
  | CServer (ofServer: "'l EnshroudedServer_m")
  | CServerList (ofServerList: "'l EnshroudedServerList_m")
  | CServerSpec (ofServerSpec: "'l EnshroudedServerSpec_m")
  | CServerStatus (ofServerStatus: EnshroudedServerStatus_m)
  | CImageSpec (ofImageSpec: ImageSpec)
  | CMetricsSidecarSpec (ofMetricsSidecarSpec: MetricsSidecarSpec)
  | CS3BackupSpec (ofS3BackupSpec: S3BackupSpec)
  | CStorageSpec (ofStorageSpec: "'l StorageSpec_m")
  | CUpdatePolicySpec (ofUpdatePolicySpec: UpdatePolicySpec_m)
  | CUserGroup (ofUserGroup: UserGroup_m)
  | CVerticalScalingSpec (ofVerticalScalingSpec: VerticalScalingSpec_m)
  | CVolumeSnapshotBackupSpec (ofVolumeSnapshotBackupSpec: VolumeSnapshotBackupSpec_m)
  | CLibrary (ofLibrary: 'l)

text \<open>The reading of a cell as one type of cell.\<close>

definition as_cell :: "('c \<Rightarrow> bool) \<Rightarrow> ('c \<Rightarrow> 'a) \<Rightarrow> 'c \<Rightarrow> 'a option" where
  "as_cell is of_cell c = (if is c then Some (of_cell c) else None)"

type_synonym 'l mheap = "'l mcell heap"


section \<open>The structs of the Kubernetes libraries\<close>

record ('l, 'v) lib_struct =
  ls_view :: "('l mcell, 'l, 'v) view"
  ls_refs :: "('l mcell, 'l) refs"
  ls_DeepCopyInto :: "'l \<Rightarrow> ('l mheap, 'l) state"

record ('l, 'q) kube_structs =
  k_SecretKeySelector :: "('l, SecretKeySelector) lib_struct"
  k_ResourceRequirements :: "('l, 'q ResourceRequirements) lib_struct"
  k_Quantity :: "('l, 'q) lib_struct"
  k_Condition :: "('l, Condition) lib_struct"
  k_ObjectMeta :: "('l, ObjectMeta) lib_struct"
  k_ListMeta :: "('l, raw) lib_struct"

section \<open>\<^verbatim>\<open>DeepCopyInto\<close>\<close>

definition copy_SecretRef :: "('l, 'q) kube_structs \<Rightarrow> addr option \<Rightarrow> ('l mheap, addr option) state" where
  "copy_SecretRef k = copy_ptr (as_cell is_CSelector ofSelector) CSelector (ls_DeepCopyInto (k_SecretKeySelector k))"

definition copy_ResourceList :: "('l, 'q) kube_structs \<Rightarrow> addr option \<Rightarrow> ('l mheap, addr option) state" where
  "copy_ResourceList k =
    copy_ptr (as_cell is_CQuantities ofQuantities) CQuantities (copy_entries (ls_DeepCopyInto (k_Quantity k)) [])"

definition copy_StringPtr :: "addr option \<Rightarrow> ('l mheap, addr option) state" where
  "copy_StringPtr = copy_ptr (as_cell is_CString ofString) CString State_Monad.return"

definition ImageSpec_DeepCopyInto :: "ImageSpec \<Rightarrow> ('l mheap, ImageSpec) state" where
  "ImageSpec_DeepCopyInto x = State_Monad.return x"

definition MetricsSidecarSpec_DeepCopyInto :: "MetricsSidecarSpec \<Rightarrow> ('l mheap, MetricsSidecarSpec) state" where
  "MetricsSidecarSpec_DeepCopyInto x = State_Monad.return x"

definition S3BackupSpec_DeepCopyInto :: "S3BackupSpec \<Rightarrow> ('l mheap, S3BackupSpec) state" where
  "S3BackupSpec_DeepCopyInto x = State_Monad.return (x\<lparr>s3_CredentialsSecretRef := s3_CredentialsSecretRef x\<rparr>)"

definition VolumeSnapshotBackupSpec_DeepCopyInto ::
  "VolumeSnapshotBackupSpec_m \<Rightarrow> ('l mheap, VolumeSnapshotBackupSpec_m) state" where
  "VolumeSnapshotBackupSpec_DeepCopyInto x = do {
     class \<leftarrow> copy_StringPtr (vsb_VolumeSnapshotClassName_m x);
     State_Monad.return (x\<lparr>vsb_VolumeSnapshotClassName_m := class\<rparr>)
   }"

text \<open>The S3 settings are copied by assignment, not by their own method.\<close>

definition BackupSpec_DeepCopyInto :: "BackupSpec_m \<Rightarrow> ('l mheap, BackupSpec_m) state" where
  "BackupSpec_DeepCopyInto x = do {
     vs \<leftarrow> VolumeSnapshotBackupSpec_DeepCopyInto (bk_VolumeSnapshot_m x);
     s3 \<leftarrow> copy_ptr (as_cell is_CS3BackupSpec ofS3BackupSpec) CS3BackupSpec State_Monad.return (bk_S3_m x);
     State_Monad.return (x\<lparr>bk_VolumeSnapshot_m := vs, bk_S3_m := s3\<rparr>)
   }"

definition StorageSpec_DeepCopyInto ::
  "('l, 'q) kube_structs \<Rightarrow> 'l StorageSpec_m \<Rightarrow> ('l mheap, 'l StorageSpec_m) state" where
  "StorageSpec_DeepCopyInto k x = do {
     size \<leftarrow> ls_DeepCopyInto (k_Quantity k) (Size_m x);
     class \<leftarrow> copy_StringPtr (StorageClassName_m x);
     retain \<leftarrow> copy_ptr (as_cell is_CBool ofBool) CBool State_Monad.return (RetainOnDelete_m x);
     State_Monad.return (x\<lparr>Size_m := size, StorageClassName_m := class, RetainOnDelete_m := retain\<rparr>)
   }"

definition UpdatePolicySpec_DeepCopyInto :: "UpdatePolicySpec_m \<Rightarrow> ('l mheap, UpdatePolicySpec_m) state" where
  "UpdatePolicySpec_DeepCopyInto x = do {
     ws \<leftarrow> copy_ptr (as_cell is_CStrings ofStrings) CStrings State_Monad.return (MaintenanceWindows_m x);
     State_Monad.return (x\<lparr>MaintenanceWindows_m := ws\<rparr>)
   }"

definition UserGroup_DeepCopyInto :: "('l, 'q) kube_structs \<Rightarrow> UserGroup_m \<Rightarrow> ('l mheap, UserGroup_m) state" where
  "UserGroup_DeepCopyInto k x = do {
     ref \<leftarrow> copy_SecretRef k (ug_PasswordSecretRef_m x);
     State_Monad.return (x\<lparr>ug_PasswordSecretRef_m := ref\<rparr>)
   }"

definition VerticalScalingSpec_DeepCopyInto ::
  "('l, 'q) kube_structs \<Rightarrow> VerticalScalingSpec_m \<Rightarrow> ('l mheap, VerticalScalingSpec_m) state" where
  "VerticalScalingSpec_DeepCopyInto k x = do {
     mn \<leftarrow> copy_ResourceList k (vsc_MinAllowed_m x);
     mx \<leftarrow> copy_ResourceList k (vsc_MaxAllowed_m x);
     State_Monad.return (x\<lparr>vsc_MinAllowed_m := mn, vsc_MaxAllowed_m := mx\<rparr>)
   }"

definition EnshroudedServerSpec_DeepCopyInto ::
  "('l, 'q) kube_structs \<Rightarrow> 'l EnshroudedServerSpec_m \<Rightarrow> ('l mheap, 'l EnshroudedServerSpec_m) state" where
  "EnshroudedServerSpec_DeepCopyInto k x = do {
     ref \<leftarrow> copy_SecretRef k (ServerPasswordSecretRef_m x);
     res \<leftarrow> ls_DeepCopyInto (k_ResourceRequirements k) (Resources_m x);
     sto \<leftarrow> StorageSpec_DeepCopyInto k (Storage_m x);
     ugs \<leftarrow> copy_ptr (as_cell is_CUserGroups ofUserGroups) CUserGroups (copy_list (UserGroup_DeepCopyInto k)) (UserGroups_m x);
     pol \<leftarrow> UpdatePolicySpec_DeepCopyInto (UpdatePolicy_m x);
     bk \<leftarrow> BackupSpec_DeepCopyInto (Backup_m x);
     vsc \<leftarrow> VerticalScalingSpec_DeepCopyInto k (VerticalScaling_m x);
     State_Monad.return (x\<lparr>ServerPasswordSecretRef_m := ref, Image_m := Image_m x, Resources_m := res, Storage_m := sto,
       UserGroups_m := ugs, UpdatePolicy_m := pol, Backup_m := bk, MetricsSidecar_m := MetricsSidecar_m x,
       VerticalScaling_m := vsc\<rparr>)
   }"

definition EnshroudedServerStatus_DeepCopyInto ::
  "('l, 'q) kube_structs \<Rightarrow> EnshroudedServerStatus_m \<Rightarrow> ('l mheap, EnshroudedServerStatus_m) state" where
  "EnshroudedServerStatus_DeepCopyInto k x = do {
     cs \<leftarrow> copy_ptr (as_cell is_CConditions ofConditions) CConditions (copy_list (ls_DeepCopyInto (k_Condition k))) (Conditions_m x);
     State_Monad.return (x\<lparr>Conditions_m := cs\<rparr>)
   }"

definition EnshroudedServer_DeepCopyInto ::
  "('l, 'q) kube_structs \<Rightarrow> 'l EnshroudedServer_m \<Rightarrow> ('l mheap, 'l EnshroudedServer_m) state" where
  "EnshroudedServer_DeepCopyInto k x = do {
     meta \<leftarrow> ls_DeepCopyInto (k_ObjectMeta k) (es_Meta_m x);
     spec \<leftarrow> EnshroudedServerSpec_DeepCopyInto k (Spec_m x);
     status \<leftarrow> EnshroudedServerStatus_DeepCopyInto k (Status_m x);
     State_Monad.return (x\<lparr>es_TypeMeta_m := es_TypeMeta_m x, es_Meta_m := meta, Spec_m := spec, Status_m := status\<rparr>)
   }"

definition EnshroudedServerList_DeepCopyInto ::
  "('l, 'q) kube_structs \<Rightarrow> 'l EnshroudedServerList_m \<Rightarrow> ('l mheap, 'l EnshroudedServerList_m) state" where
  "EnshroudedServerList_DeepCopyInto k x = do {
     meta \<leftarrow> ls_DeepCopyInto (k_ListMeta k) (esl_Meta_m x);
     items \<leftarrow> copy_ptr (as_cell is_CServers ofServers) CServers (copy_list (EnshroudedServer_DeepCopyInto k)) (Items_m x);
     State_Monad.return (x\<lparr>esl_TypeMeta_m := esl_TypeMeta_m x, esl_Meta_m := meta, Items_m := items\<rparr>)
   }"

section \<open>\<^verbatim>\<open>DeepCopy\<close> and \<^verbatim>\<open>DeepCopyObject\<close>\<close>

definition BackupSpec_DeepCopy :: "addr option \<Rightarrow> ('l mheap, addr option) state" where
  "BackupSpec_DeepCopy = copy_ptr (as_cell is_CBackupSpec ofBackupSpec) CBackupSpec BackupSpec_DeepCopyInto"

definition EnshroudedServer_DeepCopy :: "('l, 'q) kube_structs \<Rightarrow> addr option \<Rightarrow> ('l mheap, addr option) state" where
  "EnshroudedServer_DeepCopy k = copy_ptr (as_cell is_CServer ofServer) CServer (EnshroudedServer_DeepCopyInto k)"

definition EnshroudedServerList_DeepCopy :: "('l, 'q) kube_structs \<Rightarrow> addr option \<Rightarrow> ('l mheap, addr option) state" where
  "EnshroudedServerList_DeepCopy k = copy_ptr (as_cell is_CServerList ofServerList) CServerList (EnshroudedServerList_DeepCopyInto k)"

definition EnshroudedServerSpec_DeepCopy :: "('l, 'q) kube_structs \<Rightarrow> addr option \<Rightarrow> ('l mheap, addr option) state" where
  "EnshroudedServerSpec_DeepCopy k = copy_ptr (as_cell is_CServerSpec ofServerSpec) CServerSpec (EnshroudedServerSpec_DeepCopyInto k)"

definition EnshroudedServerStatus_DeepCopy :: "('l, 'q) kube_structs \<Rightarrow> addr option \<Rightarrow> ('l mheap, addr option) state" where
  "EnshroudedServerStatus_DeepCopy k = copy_ptr (as_cell is_CServerStatus ofServerStatus) CServerStatus (EnshroudedServerStatus_DeepCopyInto k)"

definition ImageSpec_DeepCopy :: "addr option \<Rightarrow> ('l mheap, addr option) state" where
  "ImageSpec_DeepCopy = copy_ptr (as_cell is_CImageSpec ofImageSpec) CImageSpec ImageSpec_DeepCopyInto"

definition MetricsSidecarSpec_DeepCopy :: "addr option \<Rightarrow> ('l mheap, addr option) state" where
  "MetricsSidecarSpec_DeepCopy = copy_ptr (as_cell is_CMetricsSidecarSpec ofMetricsSidecarSpec) CMetricsSidecarSpec MetricsSidecarSpec_DeepCopyInto"

definition S3BackupSpec_DeepCopy :: "addr option \<Rightarrow> ('l mheap, addr option) state" where
  "S3BackupSpec_DeepCopy = copy_ptr (as_cell is_CS3BackupSpec ofS3BackupSpec) CS3BackupSpec S3BackupSpec_DeepCopyInto"

definition StorageSpec_DeepCopy :: "('l, 'q) kube_structs \<Rightarrow> addr option \<Rightarrow> ('l mheap, addr option) state" where
  "StorageSpec_DeepCopy k = copy_ptr (as_cell is_CStorageSpec ofStorageSpec) CStorageSpec (StorageSpec_DeepCopyInto k)"

definition UpdatePolicySpec_DeepCopy :: "addr option \<Rightarrow> ('l mheap, addr option) state" where
  "UpdatePolicySpec_DeepCopy = copy_ptr (as_cell is_CUpdatePolicySpec ofUpdatePolicySpec) CUpdatePolicySpec UpdatePolicySpec_DeepCopyInto"

definition UserGroup_DeepCopy :: "('l, 'q) kube_structs \<Rightarrow> addr option \<Rightarrow> ('l mheap, addr option) state" where
  "UserGroup_DeepCopy k = copy_ptr (as_cell is_CUserGroup ofUserGroup) CUserGroup (UserGroup_DeepCopyInto k)"

definition VerticalScalingSpec_DeepCopy :: "('l, 'q) kube_structs \<Rightarrow> addr option \<Rightarrow> ('l mheap, addr option) state" where
  "VerticalScalingSpec_DeepCopy k = copy_ptr (as_cell is_CVerticalScalingSpec ofVerticalScalingSpec) CVerticalScalingSpec (VerticalScalingSpec_DeepCopyInto k)"

definition VolumeSnapshotBackupSpec_DeepCopy :: "addr option \<Rightarrow> ('l mheap, addr option) state" where
  "VolumeSnapshotBackupSpec_DeepCopy = copy_ptr (as_cell is_CVolumeSnapshotBackupSpec ofVolumeSnapshotBackupSpec) CVolumeSnapshotBackupSpec VolumeSnapshotBackupSpec_DeepCopyInto"

text \<open>
  A \<^verbatim>\<open>runtime.Object\<close> is an interface: \<^verbatim>\<open>nil\<close>, or a pointer with its type, which may itself be \<^verbatim>\<open>nil\<close>.
\<close>

datatype Object = NilObject | ServerObject "addr option" | ServerListObject "addr option"

definition EnshroudedServer_DeepCopyObject :: "('l, 'q) kube_structs \<Rightarrow> addr option \<Rightarrow> ('l mheap, Object) state" where
  "EnshroudedServer_DeepCopyObject k x = do {
     c \<leftarrow> EnshroudedServer_DeepCopy k x;
     State_Monad.return (if c \<noteq> None then ServerObject c else NilObject)
   }"

definition EnshroudedServerList_DeepCopyObject :: "('l, 'q) kube_structs \<Rightarrow> addr option \<Rightarrow> ('l mheap, Object) state" where
  "EnshroudedServerList_DeepCopyObject k x = do {
     c \<leftarrow> EnshroudedServerList_DeepCopy k x;
     State_Monad.return (if c \<noteq> None then ServerListObject c else NilObject)
   }"

section \<open>What the layouts denote and reach\<close>

definition nil_slice :: "'a list option \<Rightarrow> 'a list" where
  "nil_slice xs = (case xs of None \<Rightarrow> [] | Some ys \<Rightarrow> ys)"

definition nil_map :: "('k \<rightharpoonup> 'v) option \<Rightarrow> 'k \<rightharpoonup> 'v" where
  "nil_map m = (case m of None \<Rightarrow> Map.empty | Some f \<Rightarrow> f)"

definition SecretRef_view :: "('l, 'q) kube_structs \<Rightarrow> ('l mcell, addr option, SecretKeySelector option) view" where
  "SecretRef_view k = view_ptr (as_cell is_CSelector ofSelector) (ls_view (k_SecretKeySelector k))"

definition SecretRef_refs :: "('l, 'q) kube_structs \<Rightarrow> ('l mcell, addr option) refs" where
  "SecretRef_refs k = refs_ptr (as_cell is_CSelector ofSelector) (ls_refs (k_SecretKeySelector k))"

definition ResourceList_view :: "('l, 'q) kube_structs \<Rightarrow> ('l mcell, addr option, 'q ResourceList option) view" where
  "ResourceList_view k = view_ptr (as_cell is_CQuantities ofQuantities) (view_entries (ls_view (k_Quantity k)))"

definition ResourceList_refs :: "('l, 'q) kube_structs \<Rightarrow> ('l mcell, addr option) refs" where
  "ResourceList_refs k = refs_ptr (as_cell is_CQuantities ofQuantities) (refs_entries (ls_refs (k_Quantity k)))"

definition StringPtr_view :: "('l mcell, addr option, string option) view" where
  "StringPtr_view = view_ptr (as_cell is_CString ofString) view_plain"

definition StringPtr_refs :: "('l mcell, addr option) refs" where
  "StringPtr_refs = refs_ptr (as_cell is_CString ofString) refs_plain"

definition VolumeSnapshotBackupSpec_view :: "('l mcell, VolumeSnapshotBackupSpec_m, VolumeSnapshotBackupSpec) view" where
  "VolumeSnapshotBackupSpec_view h x =
     map_option (\<lambda>class. \<lparr>vsb_Enabled = vsb_Enabled_m x, vsb_Schedule = vsb_Schedule_m x,
         vsb_RetainCount = vsb_RetainCount_m x, vsb_VolumeSnapshotClassName = class\<rparr>)
       (StringPtr_view h (vsb_VolumeSnapshotClassName_m x))"

definition VolumeSnapshotBackupSpec_refs :: "('l mcell, VolumeSnapshotBackupSpec_m) refs" where
  "VolumeSnapshotBackupSpec_refs h x = StringPtr_refs h (vsb_VolumeSnapshotClassName_m x)"

definition BackupSpec_view :: "('l mcell, BackupSpec_m, BackupSpec) view" where
  "BackupSpec_view h x =
     map_option (\<lambda>(vs, s3). \<lparr>bk_VolumeSnapshot = vs, bk_S3 = s3\<rparr>)
       (view_pair VolumeSnapshotBackupSpec_view (view_ptr (as_cell is_CS3BackupSpec ofS3BackupSpec) view_plain)
         h (bk_VolumeSnapshot_m x, bk_S3_m x))"

definition BackupSpec_refs :: "('l mcell, BackupSpec_m) refs" where
  "BackupSpec_refs h x =
     refs_pair VolumeSnapshotBackupSpec_refs (refs_ptr (as_cell is_CS3BackupSpec ofS3BackupSpec) refs_plain)
       h (bk_VolumeSnapshot_m x, bk_S3_m x)"

definition StorageSpec_view :: "('l, 'q) kube_structs \<Rightarrow> ('l mcell, 'l StorageSpec_m, 'q StorageSpec) view" where
  "StorageSpec_view k h x =
     map_option (\<lambda>(size, class, retain). \<lparr>Size = size, StorageClassName = class, RetainOnDelete = retain\<rparr>)
       (view_pair (ls_view (k_Quantity k)) (view_pair StringPtr_view (view_ptr (as_cell is_CBool ofBool) view_plain))
         h (Size_m x, StorageClassName_m x, RetainOnDelete_m x))"

definition StorageSpec_refs :: "('l, 'q) kube_structs \<Rightarrow> ('l mcell, 'l StorageSpec_m) refs" where
  "StorageSpec_refs k h x =
     refs_pair (ls_refs (k_Quantity k)) (refs_pair StringPtr_refs (refs_ptr (as_cell is_CBool ofBool) refs_plain))
       h (Size_m x, StorageClassName_m x, RetainOnDelete_m x)"

definition UpdatePolicySpec_view :: "('l mcell, UpdatePolicySpec_m, UpdatePolicySpec) view" where
  "UpdatePolicySpec_view h x =
     map_option (\<lambda>ws. \<lparr>DeferWhilePlaying = DeferWhilePlaying_m x, MaintenanceWindows = nil_slice ws,
         UpgradeStrategy = UpgradeStrategy_m x\<rparr>)
       (view_ptr (as_cell is_CStrings ofStrings) view_plain h (MaintenanceWindows_m x))"

definition UpdatePolicySpec_refs :: "('l mcell, UpdatePolicySpec_m) refs" where
  "UpdatePolicySpec_refs h x = refs_ptr (as_cell is_CStrings ofStrings) refs_plain h (MaintenanceWindows_m x)"

definition UserGroup_view :: "('l, 'q) kube_structs \<Rightarrow> ('l mcell, UserGroup_m, UserGroup) view" where
  "UserGroup_view k h x =
     map_option (\<lambda>ref. \<lparr>ug_Name = ug_Name_m x, ug_PasswordSecretRef = ref, ug_CanKickBan = ug_CanKickBan_m x,
         ug_CanAccessInventories = ug_CanAccessInventories_m x, ug_CanEditWorld = ug_CanEditWorld_m x,
         ug_CanEditBase = ug_CanEditBase_m x, ug_CanExtendBase = ug_CanExtendBase_m x,
         ug_ReservedSlots = ug_ReservedSlots_m x\<rparr>)
       (SecretRef_view k h (ug_PasswordSecretRef_m x))"

definition UserGroup_refs :: "('l, 'q) kube_structs \<Rightarrow> ('l mcell, UserGroup_m) refs" where
  "UserGroup_refs k h x = SecretRef_refs k h (ug_PasswordSecretRef_m x)"

definition VerticalScalingSpec_view ::
  "('l, 'q) kube_structs \<Rightarrow> ('l mcell, VerticalScalingSpec_m, 'q VerticalScalingSpec) view" where
  "VerticalScalingSpec_view k h x =
     map_option (\<lambda>(mn, mx). \<lparr>vsc_Enabled = vsc_Enabled_m x, vsc_UpdateMode = vsc_UpdateMode_m x,
         vsc_MinAllowed = nil_map mn, vsc_MaxAllowed = nil_map mx\<rparr>)
       (view_pair (ResourceList_view k) (ResourceList_view k) h (vsc_MinAllowed_m x, vsc_MaxAllowed_m x))"

definition VerticalScalingSpec_refs :: "('l, 'q) kube_structs \<Rightarrow> ('l mcell, VerticalScalingSpec_m) refs" where
  "VerticalScalingSpec_refs k h x =
     refs_pair (ResourceList_refs k) (ResourceList_refs k) h (vsc_MinAllowed_m x, vsc_MaxAllowed_m x)"

text \<open>The fields of the larger structs that own memory, in the order in which they are copied.\<close>

definition spec_fields where
  "spec_fields x = (ServerPasswordSecretRef_m x, Resources_m x, Storage_m x, UserGroups_m x, UpdatePolicy_m x,
     Backup_m x, VerticalScaling_m x)"

definition EnshroudedServerSpec_view ::
  "('l, 'q) kube_structs \<Rightarrow> ('l mcell, 'l EnshroudedServerSpec_m, 'q EnshroudedServerSpec) view" where
  "EnshroudedServerSpec_view k h x =
     map_option (\<lambda>(ref, res, sto, ugs, pol, bk, vsc). \<lparr>ServerName = ServerName_m x, ServerPasswordSecretRef = ref,
         Port = Port_m x, SteamPort = SteamPort_m x, ServerSlots = ServerSlots_m x, ServerIP = ServerIP_m x,
         Image = Image_m x, Resources = res, Storage = sto, UserGroups = nil_slice ugs, UpdatePolicy = pol,
         Backup = bk, MetricsSidecar = MetricsSidecar_m x, VerticalScaling = vsc\<rparr>)
       (view_pair (SecretRef_view k) (view_pair (ls_view (k_ResourceRequirements k))
         (view_pair (StorageSpec_view k)
           (view_pair (view_ptr (as_cell is_CUserGroups ofUserGroups) (view_list (UserGroup_view k)))
             (view_pair UpdatePolicySpec_view (view_pair BackupSpec_view (VerticalScalingSpec_view k))))))
         h (spec_fields x))"

definition EnshroudedServerSpec_refs :: "('l, 'q) kube_structs \<Rightarrow> ('l mcell, 'l EnshroudedServerSpec_m) refs" where
  "EnshroudedServerSpec_refs k h x =
     refs_pair (SecretRef_refs k) (refs_pair (ls_refs (k_ResourceRequirements k))
       (refs_pair (StorageSpec_refs k)
         (refs_pair (refs_ptr (as_cell is_CUserGroups ofUserGroups) (refs_list (UserGroup_refs k)))
           (refs_pair UpdatePolicySpec_refs (refs_pair BackupSpec_refs (VerticalScalingSpec_refs k))))))
       h (spec_fields x)"

definition EnshroudedServerStatus_view ::
  "('l, 'q) kube_structs \<Rightarrow> ('l mcell, EnshroudedServerStatus_m, EnshroudedServerStatus) view" where
  "EnshroudedServerStatus_view k h x =
     map_option (\<lambda>cs. \<lparr>Phase = Phase_m x, ReadyReplicas = ReadyReplicas_m x, ActivePlayers = ActivePlayers_m x,
         GameVersion = GameVersion_m x, UpdateDeferred = UpdateDeferred_m x, Conditions = nil_slice cs\<rparr>)
       (view_ptr (as_cell is_CConditions ofConditions) (view_list (ls_view (k_Condition k))) h (Conditions_m x))"

definition EnshroudedServerStatus_refs :: "('l, 'q) kube_structs \<Rightarrow> ('l mcell, EnshroudedServerStatus_m) refs" where
  "EnshroudedServerStatus_refs k h x =
     refs_ptr (as_cell is_CConditions ofConditions) (refs_list (ls_refs (k_Condition k))) h (Conditions_m x)"

definition EnshroudedServer_view ::
  "('l, 'q) kube_structs \<Rightarrow> ('l mcell, 'l EnshroudedServer_m, TypeMeta \<times> 'q EnshroudedServer) view" where
  "EnshroudedServer_view k h x =
     map_option (\<lambda>(meta, spec, status). (es_TypeMeta_m x, \<lparr>es_Meta = meta, Spec = spec, Status = status\<rparr>))
       (view_pair (ls_view (k_ObjectMeta k)) (view_pair (EnshroudedServerSpec_view k) (EnshroudedServerStatus_view k))
         h (es_Meta_m x, Spec_m x, Status_m x))"

definition EnshroudedServer_refs :: "('l, 'q) kube_structs \<Rightarrow> ('l mcell, 'l EnshroudedServer_m) refs" where
  "EnshroudedServer_refs k h x =
     refs_pair (ls_refs (k_ObjectMeta k)) (refs_pair (EnshroudedServerSpec_refs k) (EnshroudedServerStatus_refs k))
       h (es_Meta_m x, Spec_m x, Status_m x)"

definition EnshroudedServerList_view ::
  "('l, 'q) kube_structs \<Rightarrow> ('l mcell, 'l EnshroudedServerList_m, TypeMeta \<times> raw \<times> (TypeMeta \<times> 'q EnshroudedServer) list option) view" where
  "EnshroudedServerList_view k h x =
     map_option (\<lambda>(meta, items). (esl_TypeMeta_m x, meta, items))
       (view_pair (ls_view (k_ListMeta k)) (view_ptr (as_cell is_CServers ofServers) (view_list (EnshroudedServer_view k)))
         h (esl_Meta_m x, Items_m x))"

definition EnshroudedServerList_refs :: "('l, 'q) kube_structs \<Rightarrow> ('l mcell, 'l EnshroudedServerList_m) refs" where
  "EnshroudedServerList_refs k h x =
     refs_pair (ls_refs (k_ListMeta k)) (refs_ptr (as_cell is_CServers ofServers) (refs_list (EnshroudedServer_refs k)))
       h (esl_Meta_m x, Items_m x)"

section \<open>The generated functions copy deeply\<close>

lemma as_cell_simps [simp]:
  "as_cell is_CString ofString (CString a) = Some a" "as_cell is_CBool ofBool (CBool b) = Some b"
  "as_cell is_CStrings ofStrings (CStrings c) = Some c" "as_cell is_CSelector ofSelector (CSelector d) = Some d"
  "as_cell is_CConditions ofConditions (CConditions e) = Some e"
  "as_cell is_CQuantities ofQuantities (CQuantities f) = Some f"
  "as_cell is_CUserGroups ofUserGroups (CUserGroups g) = Some g" "as_cell is_CServers ofServers (CServers i) = Some i"
  "as_cell is_CServer ofServer (CServer j) = Some j" "as_cell is_CServerList ofServerList (CServerList l) = Some l"
  "as_cell is_CS3BackupSpec ofS3BackupSpec (CS3BackupSpec m) = Some m"
  by (simp_all add: as_cell_def)

lemma StringPtr_copy [copy_intros]: "deep_copyable StringPtr_view StringPtr_refs copy_StringPtr"
  unfolding StringPtr_view_def StringPtr_refs_def copy_StringPtr_def by (intro copy_intros) simp

lemma VolumeSnapshotBackupSpec_copy [copy_intros]:
  "deep_copyable VolumeSnapshotBackupSpec_view VolumeSnapshotBackupSpec_refs VolumeSnapshotBackupSpec_DeepCopyInto"
  unfolding VolumeSnapshotBackupSpec_view_def [abs_def] VolumeSnapshotBackupSpec_refs_def [abs_def]
  by (rule copy_of_struct [OF StringPtr_copy, where put = "\<lambda>f. vsb_VolumeSnapshotClassName_m_update (\<lambda>_. f)"])
    (simp_all add: VolumeSnapshotBackupSpec_DeepCopyInto_def)

lemma S3Ptr_copy: "deep_copyable (view_ptr (as_cell is_CS3BackupSpec ofS3BackupSpec) view_plain)
    (refs_ptr (as_cell is_CS3BackupSpec ofS3BackupSpec) refs_plain)
    (copy_ptr (as_cell is_CS3BackupSpec ofS3BackupSpec) CS3BackupSpec State_Monad.return)"
  by (intro copy_intros) simp

interpretation backup_fields: two_copyable VolumeSnapshotBackupSpec_view VolumeSnapshotBackupSpec_refs
  VolumeSnapshotBackupSpec_DeepCopyInto "view_ptr (as_cell is_CS3BackupSpec ofS3BackupSpec) view_plain"
  "refs_ptr (as_cell is_CS3BackupSpec ofS3BackupSpec) refs_plain"
  "copy_ptr (as_cell is_CS3BackupSpec ofS3BackupSpec) CS3BackupSpec State_Monad.return"
  by (intro two_copyable.intro VolumeSnapshotBackupSpec_copy S3Ptr_copy)

lemma BackupSpec_copy [copy_intros]: "deep_copyable BackupSpec_view BackupSpec_refs BackupSpec_DeepCopyInto"
  unfolding BackupSpec_view_def [abs_def] BackupSpec_refs_def [abs_def]
  by (rule copy_of_struct [OF backup_fields.pair_copyable, where put = "\<lambda>(vs, s3) x. x\<lparr>bk_VolumeSnapshot_m := vs, bk_S3_m := s3\<rparr>"])
    (auto simp: BackupSpec_DeepCopyInto_def copy_pair_def)

lemma UpdatePolicySpec_copy [copy_intros]:
  "deep_copyable UpdatePolicySpec_view UpdatePolicySpec_refs UpdatePolicySpec_DeepCopyInto"
proof -
  have "deep_copyable (view_ptr (as_cell is_CStrings ofStrings) view_plain) (refs_ptr (as_cell is_CStrings ofStrings) refs_plain)
      (copy_ptr (as_cell is_CStrings ofStrings) CStrings State_Monad.return)"
    by (intro copy_intros) simp
  then show ?thesis
    unfolding UpdatePolicySpec_view_def [abs_def] UpdatePolicySpec_refs_def [abs_def]
    by (rule copy_of_struct [where put = "\<lambda>f. MaintenanceWindows_m_update (\<lambda>_. f)"])
      (simp_all add: UpdatePolicySpec_DeepCopyInto_def)
qed

text \<open>
  What is assumed of the libraries: the copy functions of their structs are deep copies. The
  immutable location that two copies of a \<^verbatim>\<open>time.Time\<close> share is part of its value.
\<close>

definition copies_deeply :: "('l, 'v) lib_struct \<Rightarrow> bool" where
  "copies_deeply s \<longleftrightarrow> deep_copyable (ls_view s) (ls_refs s) (ls_DeepCopyInto s)"

locale kube_copies =
  fixes k :: "('l, 'q) kube_structs"
  assumes SecretKeySelector_ok: "copies_deeply (k_SecretKeySelector k)"
    and ResourceRequirements_ok: "copies_deeply (k_ResourceRequirements k)"
    and Quantity_ok: "copies_deeply (k_Quantity k)"
    and Condition_ok: "copies_deeply (k_Condition k)"
    and ObjectMeta_ok: "copies_deeply (k_ObjectMeta k)"
    and ListMeta_ok: "copies_deeply (k_ListMeta k)"
begin

lemmas lib_copies [copy_intros] = SecretKeySelector_ok [unfolded copies_deeply_def]
  ResourceRequirements_ok [unfolded copies_deeply_def] Quantity_ok [unfolded copies_deeply_def]
  Condition_ok [unfolded copies_deeply_def] ObjectMeta_ok [unfolded copies_deeply_def]
  ListMeta_ok [unfolded copies_deeply_def]

lemma SecretRef_copy [copy_intros]: "deep_copyable (SecretRef_view k) (SecretRef_refs k) (copy_SecretRef k)"
  unfolding SecretRef_view_def SecretRef_refs_def copy_SecretRef_def by (intro copy_intros) simp

lemma ResourceList_copy [copy_intros]:
  "deep_copyable (ResourceList_view k) (ResourceList_refs k) (copy_ResourceList k)"
  unfolding ResourceList_view_def ResourceList_refs_def copy_ResourceList_def by (intro copy_intros) simp

lemma UserGroup_copy [copy_intros]: "deep_copyable (UserGroup_view k) (UserGroup_refs k) (UserGroup_DeepCopyInto k)"
  unfolding UserGroup_view_def [abs_def] UserGroup_refs_def [abs_def]
  by (rule copy_of_struct [OF SecretRef_copy, where put = "\<lambda>f. ug_PasswordSecretRef_m_update (\<lambda>_. f)"])
    (simp_all add: UserGroup_DeepCopyInto_def)

lemma VerticalScalingSpec_copy [copy_intros]:
  "deep_copyable (VerticalScalingSpec_view k) (VerticalScalingSpec_refs k) (VerticalScalingSpec_DeepCopyInto k)"
  unfolding VerticalScalingSpec_view_def [abs_def] VerticalScalingSpec_refs_def [abs_def]
  by (rule copy_of_struct [OF copy_of_pair [OF ResourceList_copy ResourceList_copy],
        where put = "\<lambda>(mn, mx) x. x\<lparr>vsc_MinAllowed_m := mn, vsc_MaxAllowed_m := mx\<rparr>"])
    (auto simp: VerticalScalingSpec_DeepCopyInto_def copy_pair_def)

lemma StorageSpec_copy [copy_intros]:
  "deep_copyable (StorageSpec_view k) (StorageSpec_refs k) (StorageSpec_DeepCopyInto k)"
proof -
  have "deep_copyable (view_ptr (as_cell is_CBool ofBool) view_plain) (refs_ptr (as_cell is_CBool ofBool) refs_plain)
      (copy_ptr (as_cell is_CBool ofBool) CBool State_Monad.return)"
    by (intro copy_intros) simp
  from copy_of_pair [OF lib_copies(3) copy_of_pair [OF StringPtr_copy this]] show ?thesis
    unfolding StorageSpec_view_def [abs_def] StorageSpec_refs_def [abs_def]
    by (rule copy_of_struct [where put = "\<lambda>(s, c, r) x. x\<lparr>Size_m := s, StorageClassName_m := c, RetainOnDelete_m := r\<rparr>"])
      (auto simp: StorageSpec_DeepCopyInto_def copy_pair_def)
qed

lemma UserGroups_copy [copy_intros]:
  "deep_copyable (view_ptr (as_cell is_CUserGroups ofUserGroups) (view_list (UserGroup_view k)))
    (refs_ptr (as_cell is_CUserGroups ofUserGroups) (refs_list (UserGroup_refs k)))
    (copy_ptr (as_cell is_CUserGroups ofUserGroups) CUserGroups (copy_list (UserGroup_DeepCopyInto k)))"
  by (intro copy_intros) simp

lemma EnshroudedServerSpec_copy [copy_intros]:
  "deep_copyable (EnshroudedServerSpec_view k) (EnshroudedServerSpec_refs k) (EnshroudedServerSpec_DeepCopyInto k)"
  unfolding EnshroudedServerSpec_view_def [abs_def] EnshroudedServerSpec_refs_def [abs_def]
  by (rule copy_of_struct [OF copy_of_pair [OF SecretRef_copy copy_of_pair [OF lib_copies(2) copy_of_pair [OF StorageSpec_copy
          copy_of_pair [OF UserGroups_copy copy_of_pair [OF UpdatePolicySpec_copy copy_of_pair [OF BackupSpec_copy VerticalScalingSpec_copy]]]]]],
        where put = "\<lambda>(ref, res, sto, ugs, pol, bk, vsc) x. x\<lparr>ServerPasswordSecretRef_m := ref, Resources_m := res, Storage_m := sto,
          UserGroups_m := ugs, UpdatePolicy_m := pol, Backup_m := bk, VerticalScaling_m := vsc\<rparr>"])
    (auto simp: EnshroudedServerSpec_DeepCopyInto_def spec_fields_def copy_pair_def)

lemma EnshroudedServerStatus_copy [copy_intros]:
  "deep_copyable (EnshroudedServerStatus_view k) (EnshroudedServerStatus_refs k) (EnshroudedServerStatus_DeepCopyInto k)"
proof -
  have "deep_copyable (view_ptr (as_cell is_CConditions ofConditions) (view_list (ls_view (k_Condition k))))
      (refs_ptr (as_cell is_CConditions ofConditions) (refs_list (ls_refs (k_Condition k))))
      (copy_ptr (as_cell is_CConditions ofConditions) CConditions (copy_list (ls_DeepCopyInto (k_Condition k))))"
    by (intro copy_intros) simp
  then show ?thesis
    unfolding EnshroudedServerStatus_view_def [abs_def] EnshroudedServerStatus_refs_def [abs_def]
    by (rule copy_of_struct [where put = "\<lambda>f. Conditions_m_update (\<lambda>_. f)"])
      (simp_all add: EnshroudedServerStatus_DeepCopyInto_def)
qed

lemma EnshroudedServer_copy [copy_intros]:
  "deep_copyable (EnshroudedServer_view k) (EnshroudedServer_refs k) (EnshroudedServer_DeepCopyInto k)"
  unfolding EnshroudedServer_view_def [abs_def] EnshroudedServer_refs_def [abs_def]
  by (rule copy_of_struct [OF copy_of_pair [OF lib_copies(5) copy_of_pair [OF EnshroudedServerSpec_copy EnshroudedServerStatus_copy]],
        where put = "\<lambda>(meta, spec, status) x. x\<lparr>es_Meta_m := meta, Spec_m := spec, Status_m := status\<rparr>"])
    (auto simp: EnshroudedServer_DeepCopyInto_def copy_pair_def)

lemma EnshroudedServerList_copy:
  "deep_copyable (EnshroudedServerList_view k) (EnshroudedServerList_refs k) (EnshroudedServerList_DeepCopyInto k)"
proof -
  have "deep_copyable (view_ptr (as_cell is_CServers ofServers) (view_list (EnshroudedServer_view k)))
      (refs_ptr (as_cell is_CServers ofServers) (refs_list (EnshroudedServer_refs k)))
      (copy_ptr (as_cell is_CServers ofServers) CServers (copy_list (EnshroudedServer_DeepCopyInto k)))"
    by (intro copy_intros) simp
  from copy_of_pair [OF lib_copies(6) this] show ?thesis
    unfolding EnshroudedServerList_view_def [abs_def] EnshroudedServerList_refs_def [abs_def]
    by (rule copy_of_struct [where put = "\<lambda>(meta, items) x. x\<lparr>esl_Meta_m := meta, Items_m := items\<rparr>"])
      (auto simp: EnshroudedServerList_DeepCopyInto_def copy_pair_def)
qed

end

section \<open>Pointers to servers and lists\<close>

definition server_at :: "('l, 'q) kube_structs \<Rightarrow> ('l mcell, addr, TypeMeta \<times> 'q EnshroudedServer) view" where
  "server_at k = view_to (as_cell is_CServer ofServer) (EnshroudedServer_view k)"

definition server_reach :: "('l, 'q) kube_structs \<Rightarrow> ('l mcell, addr) refs" where
  "server_reach k = refs_to (as_cell is_CServer ofServer) (EnshroudedServer_refs k)"

lemmas DeepCopy_defs = BackupSpec_DeepCopy_def EnshroudedServer_DeepCopy_def EnshroudedServerList_DeepCopy_def
  EnshroudedServerSpec_DeepCopy_def EnshroudedServerStatus_DeepCopy_def ImageSpec_DeepCopy_def MetricsSidecarSpec_DeepCopy_def
  S3BackupSpec_DeepCopy_def StorageSpec_DeepCopy_def UpdatePolicySpec_DeepCopy_def UserGroup_DeepCopy_def
  VerticalScalingSpec_DeepCopy_def VolumeSnapshotBackupSpec_DeepCopy_def

lemma plain_copies:
  "deep_copyable view_plain refs_plain ImageSpec_DeepCopyInto"
  "deep_copyable view_plain refs_plain MetricsSidecarSpec_DeepCopyInto"
  "deep_copyable view_plain refs_plain S3BackupSpec_DeepCopyInto"
  unfolding ImageSpec_DeepCopyInto_def [abs_def] MetricsSidecarSpec_DeepCopyInto_def [abs_def] S3BackupSpec_DeepCopyInto_def [abs_def]
  by (simp_all add: copy_of_plain)

sublocale kube_copies \<subseteq> servers: deep_copyable "server_at k" "server_reach k"
  "copy_to (as_cell is_CServer ofServer) CServer (EnshroudedServer_DeepCopyInto k)"
  unfolding server_at_def server_reach_def by (rule deep_copyable.to_copy [OF EnshroudedServer_copy]) simp

definition list_at ::
  "('l, 'q) kube_structs \<Rightarrow> ('l mcell, addr, TypeMeta \<times> raw \<times> (TypeMeta \<times> 'q EnshroudedServer) list option) view" where
  "list_at k = view_to (as_cell is_CServerList ofServerList) (EnshroudedServerList_view k)"

definition list_reach :: "('l, 'q) kube_structs \<Rightarrow> ('l mcell, addr) refs" where
  "list_reach k = refs_to (as_cell is_CServerList ofServerList) (EnshroudedServerList_refs k)"

sublocale kube_copies \<subseteq> lists: deep_copyable "list_at k" "list_reach k"
  "copy_to (as_cell is_CServerList ofServerList) CServerList (EnshroudedServerList_DeepCopyInto k)"
  unfolding list_at_def list_reach_def by (rule deep_copyable.to_copy [OF EnshroudedServerList_copy]) simp

context kube_copies
begin

lemmas servers_copy = servers.deep_copyable_axioms
lemmas lists_copy = lists.deep_copyable_axioms
lemmas struct_copies = EnshroudedServer_copy EnshroudedServerList_copy EnshroudedServerSpec_copy EnshroudedServerStatus_copy
  StorageSpec_copy UserGroup_copy VerticalScalingSpec_copy

end

text \<open>
  The memory side of the status patch of the sidecar: \<^verbatim>\<open>patch := client.MergeFrom(server.DeepCopy())\<close> and the
  two assignments after it. The result is the base against which the patch is computed.
\<close>

definition setPlayers ::
  "('l, 'q) kube_structs \<Rightarrow> addr \<Rightarrow> int32 \<Rightarrow> string \<Rightarrow> ('l mheap, addr option) state" where
  "setPlayers k server players gameVersion = do {
     base \<leftarrow> EnshroudedServer_DeepCopy k (Some server);
     c \<leftarrow> load_cell server;
     (case Option.bind c (as_cell is_CServer ofServer) of
        None \<Rightarrow> State_Monad.return ()
      | Some x \<Rightarrow> store_cell server (CServer (x\<lparr>Status_m := (Status_m x)\<lparr>ActivePlayers_m := players, GameVersion_m := gameVersion\<rparr>\<rparr>)));
     State_Monad.return base
   }"

lemma view_set_players:
  assumes "EnshroudedServer_view k h x = Some (tm, server)"
  shows "EnshroudedServer_view k h (x\<lparr>Status_m := (Status_m x)\<lparr>ActivePlayers_m := players, GameVersion_m := gv\<rparr>\<rparr>) =
      Some (tm, server\<lparr>Status := (Status server)\<lparr>ActivePlayers := players, GameVersion := gv\<rparr>\<rparr>)"
    "EnshroudedServer_refs k h (x\<lparr>Status_m := (Status_m x)\<lparr>ActivePlayers_m := players, GameVersion_m := gv\<rparr>\<rparr>) =
      EnshroudedServer_refs k h x"
  using assms
  by (auto simp: EnshroudedServer_view_def EnshroudedServer_refs_def EnshroudedServerStatus_view_def
      EnshroudedServerStatus_refs_def view_pair_def refs_pair_def split: option.splits)

section \<open>An instance of the libraries\<close>

text \<open>
  The structs of the Kubernetes libraries with pointers where those have them: the optional flag of a
  selector, the two lists of the resource requirements.
\<close>

datatype lib =
    LSelector (ofLSelector: "string \<times> string \<times> addr option")
  | LResources (ofLResources: "addr option \<times> addr option")
  | LQuantity (ofLQuantity: int)
  | LCondition (ofLCondition: Condition)
  | LObjectMeta (ofLObjectMeta: ObjectMeta)
  | LListMeta (ofLListMeta: raw)

definition selector_view :: "(lib mcell, string \<times> string \<times> addr option, SecretKeySelector) view" where
  "selector_view h x = map_option (\<lambda>_. \<lparr>skr_Name = fst x, skr_Key = fst (snd x)\<rparr>)
     (view_ptr (as_cell is_CBool ofBool) view_plain h (snd (snd x)))"

definition selector_refs :: "(lib mcell, string \<times> string \<times> addr option) refs" where
  "selector_refs h x = refs_ptr (as_cell is_CBool ofBool) refs_plain h (snd (snd x))"

definition selector_copy :: "string \<times> string \<times> addr option \<Rightarrow> (lib mheap, string \<times> string \<times> addr option) state" where
  "selector_copy x = do {
     opt \<leftarrow> copy_ptr (as_cell is_CBool ofBool) CBool State_Monad.return (snd (snd x));
     State_Monad.return (fst x, fst (snd x), opt)
   }"

definition lib_plain :: "(lib \<Rightarrow> 'v option) \<Rightarrow> ('v \<Rightarrow> lib) \<Rightarrow> (lib, 'v) lib_struct" where
  "lib_plain prj emb = \<lparr>ls_view = view_variant prj view_plain, ls_refs = refs_variant prj refs_plain, ls_DeepCopyInto = copy_variant prj emb State_Monad.return\<rparr>"

definition amounts_view :: "(lib mcell, addr option, int ResourceList option) view" where
  "amounts_view = view_ptr (as_cell is_CQuantities ofQuantities)
     (view_entries (ls_view (lib_plain (as_cell is_LQuantity ofLQuantity) LQuantity)))"

definition amounts_refs :: "(lib mcell, addr option) refs" where
  "amounts_refs = refs_ptr (as_cell is_CQuantities ofQuantities)
     (refs_entries (ls_refs (lib_plain (as_cell is_LQuantity ofLQuantity) LQuantity)))"

definition amounts_copy :: "addr option \<Rightarrow> (lib mheap, addr option) state" where
  "amounts_copy = copy_ptr (as_cell is_CQuantities ofQuantities) CQuantities
     (copy_entries (ls_DeepCopyInto (lib_plain (as_cell is_LQuantity ofLQuantity) LQuantity)) [])"

definition resources_view :: "(lib mcell, addr option \<times> addr option, int ResourceRequirements) view" where
  "resources_view h x = map_option (\<lambda>(req, lim). \<lparr>Requests = nil_map req, Limits = nil_map lim\<rparr>)
     (view_pair amounts_view amounts_view h x)"

definition demo_structs :: "(lib, int) kube_structs" where
  "demo_structs = \<lparr>
     k_SecretKeySelector = \<lparr>ls_view = view_variant (as_cell is_LSelector ofLSelector) selector_view,
       ls_refs = refs_variant (as_cell is_LSelector ofLSelector) selector_refs,
       ls_DeepCopyInto = copy_variant (as_cell is_LSelector ofLSelector) LSelector selector_copy\<rparr>,
     k_ResourceRequirements = \<lparr>ls_view = view_variant (as_cell is_LResources ofLResources) resources_view,
       ls_refs = refs_variant (as_cell is_LResources ofLResources) (refs_pair amounts_refs amounts_refs),
       ls_DeepCopyInto = copy_variant (as_cell is_LResources ofLResources) LResources (copy_pair amounts_copy amounts_copy)\<rparr>,
     k_Quantity = lib_plain (as_cell is_LQuantity ofLQuantity) LQuantity,
     k_Condition = lib_plain (as_cell is_LCondition ofLCondition) LCondition,
     k_ObjectMeta = lib_plain (as_cell is_LObjectMeta ofLObjectMeta) LObjectMeta,
     k_ListMeta = lib_plain (as_cell is_LListMeta ofLListMeta) LListMeta\<rparr>"

lemma lib_plain_ok:
  "(\<And>x. prj (emb x) = Some x) \<Longrightarrow> copies_deeply (lib_plain prj emb)"
  unfolding copies_deeply_def lib_plain_def by (simp add: copy_of_variant copy_of_plain)

lemma selector_ok: "deep_copyable selector_view selector_refs selector_copy"
proof -
  have "deep_copyable (view_ptr (as_cell is_CBool ofBool) view_plain) (refs_ptr (as_cell is_CBool ofBool) refs_plain)
      (copy_ptr (as_cell is_CBool ofBool) CBool State_Monad.return)"
    by (intro copy_intros) simp
  then show ?thesis
    unfolding selector_view_def [abs_def] selector_refs_def [abs_def]
    by (rule copy_of_struct [where put = "\<lambda>f x. (fst x, fst (snd x), f)"]) (simp_all add: selector_copy_def)
qed

lemma resources_ok: "deep_copyable resources_view (refs_pair amounts_refs amounts_refs) (copy_pair amounts_copy amounts_copy)"
proof -
  have "deep_copyable (ls_view s) (ls_refs s) (ls_DeepCopyInto s)"
    if "s = lib_plain (as_cell is_LQuantity ofLQuantity) LQuantity" for s
    using lib_plain_ok [of "as_cell is_LQuantity ofLQuantity" LQuantity] that by (simp add: copies_deeply_def as_cell_def)
  then have "deep_copyable amounts_view amounts_refs amounts_copy"
    unfolding amounts_view_def amounts_refs_def amounts_copy_def by (intro copy_intros) simp_all
  from copy_of_pair [OF this this] show ?thesis
    unfolding resources_view_def [abs_def]
    by (rule copy_of_struct [where get = id and put = "\<lambda>f _. f", simplified]) (simp_all add: split_def)
qed

interpretation demo_copies: kube_copies demo_structs
proof
  show "copies_deeply (k_SecretKeySelector demo_structs)"
    unfolding copies_deeply_def demo_structs_def by (simp add: copy_of_variant [OF selector_ok] as_cell_def)
  show "copies_deeply (k_ResourceRequirements demo_structs)"
    unfolding copies_deeply_def demo_structs_def by (simp add: copy_of_variant [OF resources_ok] as_cell_def)
qed (simp_all add: demo_structs_def lib_plain_ok as_cell_def)

definition demo_server_m :: "lib EnshroudedServer_m" where
  "demo_server_m = \<lparr>
     es_TypeMeta_m = \<lparr>tm_Kind = ''EnshroudedServer'', tm_APIVersion = ''enshrouded.enshrouded.io/v1alpha1''\<rparr>,
     es_Meta_m = LObjectMeta (new_meta ''srv'' ''games'' Map.empty),
     Spec_m = \<lparr>ServerName_m = ''Keep'', ServerPasswordSecretRef_m = Some 1, Port_m = 15637, SteamPort_m = 27015,
       ServerSlots_m = 16, ServerIP_m = ''0.0.0.0'', Image_m = \<lparr>Repository = ''r'', Tag = ''t'', PullPolicy = ''Always''\<rparr>,
       Resources_m = LResources (Some 6, None),
       Storage_m = \<lparr>Size_m = LQuantity 10, StorageClassName_m = None, RetainOnDelete_m = Some 5\<rparr>,
       UserGroups_m = Some 3,
       UpdatePolicy_m = \<lparr>DeferWhilePlaying_m = True, MaintenanceWindows_m = Some 8, UpgradeStrategy_m = ''''\<rparr>,
       Backup_m = \<lparr>bk_VolumeSnapshot_m = \<lparr>vsb_Enabled_m = False, vsb_Schedule_m = '''', vsb_RetainCount_m = 7,
         vsb_VolumeSnapshotClassName_m = None\<rparr>, bk_S3_m = None\<rparr>,
       MetricsSidecar_m = \<lparr>ms_Enabled = True, ms_Image = '''', ms_MetricsPort = 9090, ms_ScrapeIntervalSeconds = 15\<rparr>,
       VerticalScaling_m = \<lparr>vsc_Enabled_m = False, vsc_UpdateMode_m = '''', vsc_MinAllowed_m = None, vsc_MaxAllowed_m = None\<rparr>\<rparr>,
     Status_m = \<lparr>Phase_m = ''Running'', ReadyReplicas_m = 1, ActivePlayers_m = 0, GameVersion_m = '''',
       UpdateDeferred_m = False, Conditions_m = Some 7\<rparr>\<rparr>"

definition demo_heap :: "lib mheap" where
  "demo_heap = map Some [
     CServer demo_server_m,
     CSelector (LSelector (''pw'', ''password'', Some 2)),
     CBool True,
     CUserGroups [\<lparr>ug_Name_m = ''Admin'', ug_PasswordSecretRef_m = Some 4, ug_CanKickBan_m = True,
       ug_CanAccessInventories_m = True, ug_CanEditWorld_m = True, ug_CanEditBase_m = True, ug_CanExtendBase_m = True,
       ug_ReservedSlots_m = 0\<rparr>],
     CSelector (LSelector (''admin'', ''password'', None)),
     CBool False,
     CQuantities [(''cpu'', LQuantity 2), (''memory'', LQuantity 16)],
     CConditions [LCondition \<lparr>cd_Type = ''Ready'', cd_Status = ''True'', cd_Reason = ''r'', cd_Message = ''m'', cd_ObservedGeneration = 1\<rparr>],
     CStrings [''0 4 * * *''],
     CServerList \<lparr>esl_TypeMeta_m = \<lparr>tm_Kind = ''EnshroudedServerList'', tm_APIVersion = ''enshrouded.enshrouded.io/v1alpha1''\<rparr>,
       esl_Meta_m = LListMeta [], Items_m = Some 10\<rparr>,
     CServers [demo_server_m]]"

lemmas demo_view_defs = view_to_def refs_to_def view_plain_def refs_plain_def view_variant_def refs_variant_def view_pair_def refs_pair_def
  view_entries_def refs_entries_def refs_list_def selector_view_def selector_refs_def resources_view_def amounts_view_def amounts_refs_def
  lib_plain_def StringPtr_view_def StringPtr_refs_def SecretRef_view_def SecretRef_refs_def ResourceList_view_def ResourceList_refs_def
  VolumeSnapshotBackupSpec_view_def VolumeSnapshotBackupSpec_refs_def BackupSpec_view_def BackupSpec_refs_def StorageSpec_view_def
  StorageSpec_refs_def UpdatePolicySpec_view_def UpdatePolicySpec_refs_def UserGroup_view_def UserGroup_refs_def
  VerticalScalingSpec_view_def VerticalScalingSpec_refs_def spec_fields_def EnshroudedServerSpec_view_def EnshroudedServerSpec_refs_def
  EnshroudedServerStatus_view_def EnshroudedServerStatus_refs_def EnshroudedServer_view_def EnshroudedServer_refs_def
  as_cell_def cell_def demo_structs_def demo_server_m_def demo_heap_def

lemma demo_server_value: "\<exists>server. EnshroudedServer_view demo_structs demo_heap demo_server_m =
    Some (\<lparr>tm_Kind = ''EnshroudedServer'', tm_APIVersion = ''enshrouded.enshrouded.io/v1alpha1''\<rparr>, server) \<and>
    RetainOnDelete (Storage (Spec server)) = Some False \<and> ActivePlayers (Status server) = 0"
  by (simp add: demo_view_defs)

lemma demo_server_reach: "EnshroudedServer_refs demo_structs demo_heap demo_server_m = [1, 2, 6, 5, 3, 4, 8, 7]"
  by (simp add: demo_view_defs)

lemma demo_cells: "cell demo_heap 0 = Some (CServer demo_server_m)" "length demo_heap = 11"
  by (simp_all add: demo_heap_def cell_def)

section \<open>Properties\<close>

text \<open>
  C11. The generated code copies deeply: for each of the thirteen types, \<^verbatim>\<open>DeepCopy\<close> of a pointer gives a
  pointer to a new struct of the same value, with the memory that was there unchanged. The copy shares nothing with it
  and no two of its pointers coincide. No later write to memory that existed before changes the
  copy, and no write to the memory of the copy changes the original. \<^verbatim>\<open>nil\<close> gives \<^verbatim>\<open>nil\<close>.
\<close>

theorem deep_copies_are_independent:
  assumes "kube_copies k"
  shows "copies_pointers (as_cell is_CServer ofServer) (EnshroudedServer_view k) (EnshroudedServer_refs k) (EnshroudedServer_DeepCopy k) \<and>
    copies_pointers (as_cell is_CServerList ofServerList) (EnshroudedServerList_view k) (EnshroudedServerList_refs k) (EnshroudedServerList_DeepCopy k) \<and>
    copies_pointers (as_cell is_CServerSpec ofServerSpec) (EnshroudedServerSpec_view k) (EnshroudedServerSpec_refs k) (EnshroudedServerSpec_DeepCopy k) \<and>
    copies_pointers (as_cell is_CServerStatus ofServerStatus) (EnshroudedServerStatus_view k) (EnshroudedServerStatus_refs k) (EnshroudedServerStatus_DeepCopy k) \<and>
    copies_pointers (as_cell is_CStorageSpec ofStorageSpec) (StorageSpec_view k) (StorageSpec_refs k) (StorageSpec_DeepCopy k) \<and>
    copies_pointers (as_cell is_CUserGroup ofUserGroup) (UserGroup_view k) (UserGroup_refs k) (UserGroup_DeepCopy k) \<and>
    copies_pointers (as_cell is_CVerticalScalingSpec ofVerticalScalingSpec) (VerticalScalingSpec_view k) (VerticalScalingSpec_refs k) (VerticalScalingSpec_DeepCopy k) \<and>
    copies_pointers (as_cell is_CBackupSpec ofBackupSpec) BackupSpec_view BackupSpec_refs (BackupSpec_DeepCopy :: _ \<Rightarrow> ('a mheap, _) state) \<and>
    copies_pointers (as_cell is_CUpdatePolicySpec ofUpdatePolicySpec) UpdatePolicySpec_view UpdatePolicySpec_refs (UpdatePolicySpec_DeepCopy :: _ \<Rightarrow> ('a mheap, _) state) \<and>
    copies_pointers (as_cell is_CVolumeSnapshotBackupSpec ofVolumeSnapshotBackupSpec) VolumeSnapshotBackupSpec_view VolumeSnapshotBackupSpec_refs
      (VolumeSnapshotBackupSpec_DeepCopy :: _ \<Rightarrow> ('a mheap, _) state) \<and>
    copies_pointers (as_cell is_CImageSpec ofImageSpec) view_plain refs_plain (ImageSpec_DeepCopy :: _ \<Rightarrow> ('a mheap, _) state) \<and>
    copies_pointers (as_cell is_CMetricsSidecarSpec ofMetricsSidecarSpec) view_plain refs_plain (MetricsSidecarSpec_DeepCopy :: _ \<Rightarrow> ('a mheap, _) state) \<and>
    copies_pointers (as_cell is_CS3BackupSpec ofS3BackupSpec) view_plain refs_plain (S3BackupSpec_DeepCopy :: _ \<Rightarrow> ('a mheap, _) state)"
  unfolding DeepCopy_defs
  by (intro conjI copies_pointersI copy_intros kube_copies.struct_copies [OF assms] plain_copies; simp add: as_cell_def)

theorem deep_copies_are_independent_witness:
  "\<exists>tm server b h'. server_at demo_structs demo_heap 0 = Some (tm, server) \<and>
     run_state (EnshroudedServer_DeepCopy demo_structs (Some 0)) demo_heap = (Some b, h') \<and>
     server_at demo_structs (writes [(5, CBool True), (3, CUserGroups [])] h') b = Some (tm, server) \<and>
     RetainOnDelete (Storage (Spec server)) = Some False"
proof -
  obtain tm server where v: "server_at demo_structs demo_heap 0 = Some (tm, server)" "RetainOnDelete (Storage (Spec server)) = Some False"
    using demo_server_value by (auto simp: server_at_def view_to_def demo_cells)
  obtain r h' where run: "run_state (EnshroudedServer_DeepCopy demo_structs (Some 0)) demo_heap = (r, h')" by (metis prod.exhaust)
  with deep_copies_are_independent [OF demo_copies.kube_copies_axioms, THEN conjunct1] v(1)
  obtain b where b: "r = Some b" "independent_copy (server_at demo_structs) (server_reach demo_structs) demo_heap h' 0 b (tm, server)"
    unfolding copies_pointers_def server_at_def server_reach_def by blast
  have "fst ` set [(5, CBool True), (3, CUserGroups [])] \<subseteq> {..<length demo_heap}" by (simp add: demo_cells)
  with b(2) have "server_at demo_structs (writes [(5, CBool True), (3, CUserGroups [])] h') b = Some (tm, server)"
    unfolding independent_copy_def by blast
  with run b(1) v show ?thesis by blast
qed

text \<open>
  \<^verbatim>\<open>DeepCopyObject\<close> of \<^verbatim>\<open>nil\<close> is the \<^verbatim>\<open>nil\<close> interface, never an interface around a \<^verbatim>\<open>nil\<close> pointer, which would
  compare unequal to \<^verbatim>\<open>nil\<close>; of a server or a list it is an independent copy with the same type.
\<close>

theorem deep_copy_objects:
  assumes "kube_copies k" "run_state (EnshroudedServer_DeepCopyObject k x) h = (r, h')"
    "run_state (EnshroudedServerList_DeepCopyObject k y) g = (q, g')"
  shows "r \<noteq> ServerObject None \<and> (r = NilObject \<longleftrightarrow> x = None) \<and>
    (\<forall>a v. x = Some a \<and> server_at k h a = Some v \<longrightarrow>
      (\<exists>b. r = ServerObject (Some b) \<and> independent_copy (server_at k) (server_reach k) h h' a b v)) \<and>
    q \<noteq> ServerListObject None \<and> (q = NilObject \<longleftrightarrow> y = None) \<and>
    (\<forall>a v. y = Some a \<and> list_at k g a = Some v \<longrightarrow>
      (\<exists>b. q = ServerListObject (Some b) \<and> independent_copy (list_at k) (list_reach k) g g' a b v))"
  using assms(2,3) deep_copyable.copy_independent [OF kube_copies.servers_copy [OF assms(1)], of h]
    deep_copyable.copy_independent [OF kube_copies.lists_copy [OF assms(1)], of g]
  by (cases x; cases y) (auto simp: EnshroudedServer_DeepCopyObject_def EnshroudedServerList_DeepCopyObject_def
      EnshroudedServer_DeepCopy_def EnshroudedServerList_DeepCopy_def split: prod.splits)

theorem deep_copy_objects_witness:
  "\<exists>b h'. run_state (EnshroudedServer_DeepCopyObject demo_structs (Some 0)) demo_heap = (ServerObject (Some b), h') \<and>
     server_at demo_structs h' b = server_at demo_structs demo_heap 0 \<and>
     fst (run_state (EnshroudedServerList_DeepCopyObject demo_structs None) demo_heap) = NilObject"
proof -
  obtain tm server where v: "server_at demo_structs demo_heap 0 = Some (tm, server)"
    using demo_server_value by (auto simp: server_at_def view_to_def demo_cells)
  obtain r h' where run: "run_state (EnshroudedServer_DeepCopyObject demo_structs (Some 0)) demo_heap = (r, h')" by (metis prod.exhaust)
  obtain q g' where nil: "run_state (EnshroudedServerList_DeepCopyObject demo_structs None) demo_heap = (q, g')" by (metis prod.exhaust)
  from deep_copy_objects [OF demo_copies.kube_copies_axioms run nil] v run nil show ?thesis
    by (auto simp: independent_copy_def)
qed

text \<open>
  C14. The base of the status patch is the server as it was read: after the sidecar has set the player count and
  the version, the copy that it made before still has the old ones, and the server has the new ones
  and nothing else changed. These are the two objects which \<open>patchServerStatus\<close> hands to the API client, so
  that the merge patch consists of exactly the fields that changed.
\<close>

theorem patch_base_keeps_old_status:
  assumes "kube_copies k" "server_at k h a = Some (tm, server)" "distinct (server_reach k h a)"
    "run_state (setPlayers k a players gameVersion) h = (r, h')"
  shows "\<exists>b. r = Some b \<and> server_at k h' b = Some (tm, server) \<and>
    server_at k h' a = Some (tm, server\<lparr>Status := (Status server)\<lparr>ActivePlayers := players, GameVersion := gameVersion\<rparr>\<rparr>)"
proof -
  obtain x where x: "cell h a = Some (CServer x)" "EnshroudedServer_view k h x = Some (tm, server)"
    using assms(2) by (auto simp: server_at_def view_to_def bind_eq_Some_conv as_cell_def is_CServer_def split: if_splits)
  let ?x = "x\<lparr>Status_m := (Status_m x)\<lparr>ActivePlayers_m := players, GameVersion_m := gameVersion\<rparr>\<rparr>"
  obtain b h1 where b: "run_state (copy_to (as_cell is_CServer ofServer) CServer (EnshroudedServer_DeepCopyInto k) a) h = (b, h1)"
    by (metis prod.exhaust)
  note c = deep_copyable.copy_independent [OF kube_copies.servers_copy [OF assms(1)] assms(2) b, unfolded independent_copy_def]
  have a: "a < length h" using x(1) by (simp add: cell_def split: if_splits)
  have p: "prefix h h1" using c by blast
  have "cell h1 a = Some (CServer x)" using cell_prefix [OF p a] x(1) by simp
  with assms(4) b have out: "r = Some b" "h' = writes [(a, CServer ?x)] h1"
    by (auto simp: setPlayers_def EnshroudedServer_DeepCopy_def writes_def)
  note D = kube_copies.EnshroudedServer_copy [OF assms(1)]
  have x1: "EnshroudedServer_view k h1 x = Some (tm, server)" "EnshroudedServer_refs k h1 x = EnshroudedServer_refs k h x"
    by (rule deep_copyable.stable [OF D x(2) p])+
  have "a \<notin> set (EnshroudedServer_refs k h x)" using assms(3) x(1) by (simp add: server_reach_def refs_to_def)
  then have "cell h' i = cell h1 i" if "i \<in> set (EnshroudedServer_refs k h1 ?x)" for i
    using that view_set_players(2) [OF x1(1)] x1(2) out(2) by (metis cell_writes empty_set fst_conv image_insert image_empty insertE empty_iff list.set(2))
  from deep_copyable.footprint [OF D view_set_players(1) [OF x1(1)] this]
  have new: "EnshroudedServer_view k h' ?x = Some (tm, server\<lparr>Status := (Status server)\<lparr>ActivePlayers := players, GameVersion := gameVersion\<rparr>\<rparr>)"
    by blast
  have "server_at k h' b = Some (tm, server)" using c a out(2) by simp
  moreover have "cell h' a = Some (CServer ?x)" using a p out(2) by (simp add: writes_def prefix_length_le less_le_trans)
  ultimately show ?thesis using out(1) new by (simp add: server_at_def view_to_def)
qed

theorem patch_base_keeps_old_status_witness:
  "\<exists>b h' tm old new. run_state (setPlayers demo_structs 0 3 ''v7'') demo_heap = (Some b, h') \<and>
     server_at demo_structs h' b = Some (tm, old) \<and> ActivePlayers (Status old) = 0 \<and>
     server_at demo_structs h' 0 = Some (tm, new) \<and> ActivePlayers (Status new) = 3"
proof -
  obtain tm server where v: "server_at demo_structs demo_heap 0 = Some (tm, server)" "ActivePlayers (Status server) = 0"
    using demo_server_value by (auto simp: server_at_def view_to_def demo_cells)
  have "distinct (server_reach demo_structs demo_heap 0)"
    by (simp add: server_reach_def refs_to_def demo_cells demo_server_reach)
  moreover obtain r h' where "run_state (setPlayers demo_structs 0 3 ''v7'') demo_heap = (r, h')" by (metis prod.exhaust)
  ultimately show ?thesis
    using patch_base_keeps_old_status [OF demo_copies.kube_copies_axioms v(1)] v(2) by fastforce
qed

end
