(* ===== verification/Spec2Isabelle.thy ===== *)
theory Spec2Isabelle
  imports Progress Secret_Watch Savegame_Survival Program_Start Deep_Copy
begin

text \<open>
  The Enshrouded operator runs dedicated game servers on Kubernetes. A custom resource
  \<^verbatim>\<open>EnshroudedServer\<close> describes a server; the operator's admission webhook completes and checks it, its
  controller builds the objects around it (a savegame volume, a StatefulSet with the game, a
  Service, network and disruption policies, backups, autoscaling) and reports a status; a sidecar
  in the pod asks the game over UDP how many players it has, exports gauges, and writes the player
  count into the status, where the controller reads it before it disturbs a running game.
  This development models the Go code of these parts and proves what they promise.

  \<^bold>\<open>The model.\<close> Structs are records, enumerations are the string constants of the source, \<^verbatim>\<open>int32\<close> and
  \<^verbatim>\<open>int\<close> are words of 32 and 64 bits, strings are lists of bytes, errors are values. Code with
  effects runs in the state monad over a \<open>world\<close>: an environment of any type, which holds whatever the
  outside world remembers, and a trace of the calls made so far with their answers. What the
  program calls and does not contain is a parameter: the record \<open>platform\<close> (API server, clock, time
  zones, gauges, resource quantities, controller-runtime helpers) and the record \<open>network\<close> (the UDP
  socket). Its documented behaviour is stated in locales, and each property names those it needs:
  \<^item> \<open>owner_refs\<close>, \<open>kube_reads\<close>: owner references and finalizers are set as asked; an object read has
    the key that was asked for.
  \<^item> \<open>kube_api\<close>: reads answer from a store and writes change it, one object at a time; a write that
    reports an error may or may not have happened; what admission makes of a written object is the
    unknown function \<open>accept\<close>. Reads see the writes before them: a lagging cache is outside the
    theorems that use it, not outside those on \<open>kube_reads\<close> or \<open>concurrent_api\<close>.
  \<^item> \<open>kube_up\<close>: moreover calls succeed, and an object of the server's namespace that has no owner can be given the
    server as its owner. \<open>status_patches\<close>: a status patch merges the changed fields. \<open>metered_api\<close>: API calls leave
    the gauges of the process alone.
  \<^item> \<open>slice_sort\<close>, \<open>clock\<close>, \<open>operator_clock\<close>, \<open>kube_snapshots\<close>, \<open>quantities\<close>, \<open>conditions\<close>, \<open>field_index\<close>,
    \<open>gauge_registry\<close>, \<open>udp_deadline\<close>, \<open>sidecar_env\<close>, \<open>owner_names\<close>, \<open>event_source\<close>: sorting, time, quantities,
    condition lists, indexed listing, gauges, sockets, owner references and watches.
  \<^item> \<open>runtime_scheme\<close>, \<open>kube_copies\<close>: registration of Go types with a scheme; the copy functions of the library's own
    structs copy deeply (\<open>deep_copyable\<close>, the contract that the generated copies are shown to meet).
  \<^item> \<open>concurrent_api\<close>, \<open>savegame_rely\<close>: the store as a history that others write too, reads from any moment
    of it, and what the others may not do.

  \<open>Mem_Cluster\<close> is one concrete platform that satisfies them all; it shows that the laws can hold
  together and makes the examples computable.

  \<^bold>\<open>The theories\<close>, with the files under \<^verbatim>\<open>src/\<close> they model:
  \<^item> \<open>Go_Prelude\<close>, \<open>Go_Net\<close>, \<open>Go_Json\<close>, \<open>Go_Crypto\<close>, \<open>Go_Time\<close>: what is used of the Go library
    (\<^verbatim>\<open>net.ParseIP\<close>, \<^verbatim>\<open>json.Marshal\<close>, \<^verbatim>\<open>sha256\<close>, \<^verbatim>\<open>strconv.Atoi\<close>, \<^verbatim>\<open>time.ParseDuration\<close>).
  \<^item> \<open>Api_Types\<close>: the custom resource (\<^verbatim>\<open>api/v1alpha1/enshroudedserver_types.go\<close>) and the Kubernetes
    objects the controller handles. \<open>Kube_Client\<close>: the platform, the trace, the logics \<open>emits\<close> (which calls
    a computation can make) and \<open>runs\<close> (what it leaves in the store).
  \<^item> \<open>Webhook\<close> (\<^verbatim>\<open>internal/webhook/v1alpha1/enshroudedserver_webhook.go\<close>): defaulter and validator; the
    defaulter is idempotent and touches only unset fields, the validator reports every broken rule, and in
    any history of admitted writes all states obey the rules and storage does not shrink.
  \<^item> \<open>Cron_Window\<close> (\<^verbatim>\<open>inWindow\<close> and its helpers in \<^verbatim>\<open>internal/controller/enshroudedserver_controller.go\<close>):
    a maintenance window written in the documented form is open exactly when it says.
  \<^item> \<open>Workload\<close> (\<^verbatim>\<open>buildStatefulSet\<close>, the sidecar containers), \<open>Config_Secret\<close> (\<^verbatim>\<open>reconcileConfigSecret\<close>,
    \<^verbatim>\<open>buildServerConfigJSON\<close>), \<open>Child_Resources\<close> (claim, Service, NetworkPolicy, disruption budget, RBAC;
    also \<^verbatim>\<open>enshroudedserver_pdb.go\<close> and \<^verbatim>\<open>enshroudedserver_sidecar.go\<close>): the content of every object, that
    the configuration Secret holds the JSON text of the settings and the text determines them, which packets the
    network policy admits.
  \<^item> \<open>Backup\<close> (\<^verbatim>\<open>enshroudedserver_backup.go\<close>), \<open>Stateful_Set\<close> (\<^verbatim>\<open>reconcileStatefulSet\<close>),
    \<open>Vertical_Scaling\<close> (\<^verbatim>\<open>enshroudedserver_vpa.go\<close>), \<open>Server_Status\<close> (\<^verbatim>\<open>updateStatus\<close>,
    \<^verbatim>\<open>setPhaseError\<close>), \<open>Metrics\<close> (\<^verbatim>\<open>internal/metrics/collector.go\<close>): pruning keeps the newest snapshots,
    the wait for a snapshot ends, an image change waits for its snapshot when the strategy is strict,
    recommendations change CPU and memory requests only and never take memory from a running game, the status
    follows from the StatefulSet.
  \<^item> \<open>Reconciler\<close> (\<^verbatim>\<open>Reconcile\<close>, \<^verbatim>\<open>handleDeletion\<close>, \<^verbatim>\<open>findServersForSecret\<close>), \<open>Convergence\<close>, \<open>Progress\<close>,
    \<open>Secret_Watch\<close>: what a run may write, that it never deletes a savegame it was not asked to delete,
    that it defers while players are connected, what it has established when it reports success, when it
    succeeds, that the gauges show the stored status, and that the hash on the pods is fixed by the Secrets whose
    changes wake up the server.
  \<^item> \<open>Operator_Setup\<close> (\<^verbatim>\<open>cmd/main.go\<close>, \<^verbatim>\<open>SetupWithManager\<close>): the options of the servers, the order and the exits
    of the start, and which changes of objects wake up a server.
  \<^item> \<open>Go_Memory\<close>, \<open>Deep_Copy\<close> (\<^verbatim>\<open>api/v1alpha1/zz_generated.deepcopy.go\<close>): an explicit heap, the layouts of the API types
    in it and the generated copy functions. A copy denotes the same value as the original, and neither sees later
    writes to the other; this is why the rest of the development may compute on values instead of
    pointers, and why the base of the sidecar's status patch is the old server.
  \<^item> \<open>Program_Start\<close> (\<^verbatim>\<open>api/v1alpha1/groupversion_info.go\<close>, the \<^verbatim>\<open>init\<close> functions, \<^verbatim>\<open>buildK8sClient\<close> and \<^verbatim>\<open>main\<close> of
    \<^verbatim>\<open>cmd/metrics-sidecar/main.go\<close>): the registered schemes handle the kinds the code uses, and the sidecar
    reaches and keeps running its loop in every environment.
  \<^item> \<open>Savegame_Survival\<close>: operator runs, sidecars and other actors interleaved call by call, with stale reads
    and lost answers; no interleaving loses a savegame that nobody asked to delete.
  \<^item> \<open>A2S_Query\<close>, \<open>Metrics_Sidecar\<close> (\<^verbatim>\<open>cmd/metrics-sidecar/main.go\<close>): the packets, the handshake, the
    scrape loop, its gauges and its status patch.
  \<^item> this theory: the properties that join operator and sidecar. The sidecar reads the configuration the
    operator wrote, makes only calls the operator's RBAC objects allow, and a player count it reports
    keeps the operator from restarting the game.

  \<^bold>\<open>Loops and fuel.\<close> Two loops wait for the outside world and run on fuel, with \<open>NoResult\<close> for a
  loop that has not ended. The poll for a snapshot (\<open>pollSnapshot\<close>) sleeps ten seconds per round under a
  deadline of three minutes; on a clock that does not run backwards nineteen rounds are enough, and
  the callers use that many. The wait for a UDP packet of the right sender (\<open>awaitReply\<close>)
  ends because a socket with a deadline delivers finitely many packets; any fuel above that number is
  enough (\<open>query_returns\<close>). All other loops are structural or have a termination proof.

  \<^bold>\<open>Not modelled.\<close> The parsing of the command line and the logger belong to the flag, zap and slog libraries:
  \<open>main\<close> starts from the values of the flags, of which the defaults are given. Log lines have no effect the
  program reads. The Prometheus client panics on label values that are not UTF-8; gauges here take any
  bytes. Requests are reconciled one at a time per server, as controller-runtime guarantees. An exit of
  the sidecar because its HTTP server fails takes effect between two ticks. The heap of
  \<open>Go_Memory\<close> knows no interior pointers and no two slices of one array; the generated code makes neither.
\<close>

section \<open>The configuration the operator gives to the sidecar\<close>

text \<open>
  What the kubelet promises of the environment of a container: every entry has its value, a field
  reference that of the field; \<^verbatim>\<open>STATUS_PATCH_ENABLED\<close> is set neither by the pod nor by the image.
\<close>

definition pod_environment :: "(string \<Rightarrow> string) \<Rightarrow> string \<Rightarrow> 'q Container \<Rightarrow> bool" where
  "pod_environment getenv ns c \<longleftrightarrow>
     list_all (\<lambda>e. getenv (ev_Name e) =
       (case ev_ValueFrom e of
          None \<Rightarrow> ev_Value e
        | Some src \<Rightarrow> if src = FieldRef ''metadata.namespace'' then ns else getenv (ev_Name e))) (ct_Env c) \<and>
     (''STATUS_PATCH_ENABLED'' \<notin> ev_Name ` set (ct_Env c) \<longrightarrow> getenv ''STATUS_PATCH_ENABLED'' = '''')"

lemma interval_read:
  fixes secs :: int32
  shows "(case ParseDuration (show_int (sint secs) @ ''s'') of
      None \<Rightarrow> 15 * 1000000000
    | Some d \<Rightarrow> if d < 5 * 1000000000 then 15 * 1000000000 else d) =
    (if sint secs < 5 then 15 else sint secs) * 1000000000"
proof (cases "sint secs < 0")
  case True
  then have "show_int (sint secs) @ ''s'' = CHR ''-'' # show_nat (nat (- sint secs)) @ ''s''"
    by (simp add: show_int_def)
  with True show ?thesis
    by (auto split: option.split dest: ParseDuration_negative)
next
  case False
  have "sint secs < 2 ^ 31" using sint_lt [of secs] by simp
  with False have "nat (sint secs) < 2 ^ 31" by (simp add: nat_less_iff)
  then have "nat (sint secs) * 1000000000 < 2 ^ 63" by simp
  from ParseDuration_seconds [OF this] False show ?thesis by (simp add: show_int_def)
qed

text \<open>
  C16. The operator and the sidecar agree: in the pod the operator builds, the sidecar loads the server's
  namespace and name, the port on which the game answers queries, the address whose port the
  container declares, and the scrape interval that was asked for, at least five seconds
  (fifteen instead of anything less), and it patches the status. The probes of both containers go to
  that address and to paths it serves: the sidecar is alive whenever it answers, and the game counts
  as ready exactly when the last query succeeded.
\<close>

theorem sidecar_reads_operator_config:
  assumes "pt_Containers (sts_Template (buildStatefulSet server h)) = [game, sidecar]"
    "pod_environment getenv (snamespace server) sidecar"
  shows "let cfg = loadConfig getenv;
      port = (if Port (Spec server) = 0 then 15637 else sint (Port (Spec server)));
      secs = (if ms_ScrapeIntervalSeconds (MetricsSidecar (Spec server)) = 0 then 15
              else sint (ms_ScrapeIntervalSeconds (MetricsSidecar (Spec server))))
    in queryHost cfg = ''127.0.0.1'' \<and>
       queryPort cfg = (if port \<le> 0 then 15637 else port) \<and>
       (\<exists>cp. ct_Ports sidecar = [cp] \<and> metricsAddr cfg = '':'' @ show_int (sint (cp_ContainerPort cp)) \<and>
          (\<exists>live ready. ct_LivenessProbe sidecar = Some live \<and> pr_Port live = cp_ContainerPort cp \<and>
             serveMux up (pr_Path live) = StatusCode 200 \<and>
             ct_ReadinessProbe game = Some ready \<and> pr_Port ready = cp_ContainerPort cp \<and>
             serveMux up (pr_Path ready) = StatusCode (if up then 200 else 503))) \<and>
       scrapeInterval cfg = (if secs < 5 then 15 else secs) * 1000000000 \<and>
       serverNamespace cfg = snamespace server \<and> serverName cfg = sname server \<and> patchStatusEnabled cfg"
proof -
  let ?port = "if Port (Spec server) = 0 then 15637 else Port (Spec server)"
  have c: "metricsSidecarContainer server ?port = Some sidecar"
    using assms(1) by (auto simp: buildStatefulSet_containers split: option.splits)
  define secs where "secs = (if ms_ScrapeIntervalSeconds (MetricsSidecar (Spec server)) = 0 then 15
      else ms_ScrapeIntervalSeconds (MetricsSidecar (Spec server)))"
  define mport where "mport = (if ms_MetricsPort (MetricsSidecar (Spec server)) = 0 then 9090
      else ms_MetricsPort (MetricsSidecar (Spec server)))"
  have envs: "ct_Env sidecar = [envValue ''QUERY_HOST'' ''127.0.0.1'', envValue ''QUERY_PORT'' (show_int (sint ?port)),
      envValue ''METRICS_ADDR'' ('':'' @ show_int (sint mport)), envValue ''SCRAPE_INTERVAL'' (show_int (sint secs) @ ''s''),
      \<lparr>ev_Name = ''SERVER_NAMESPACE'', ev_Value = '''', ev_ValueFrom = Some (FieldRef ''metadata.namespace'')\<rparr>,
      envValue ''SERVER_NAME'' (sname server)]"
    and ports: "ct_Ports sidecar = [\<lparr>cp_Name = ''metrics'', cp_ContainerPort = mport, cp_Protocol = TCP\<rparr>]"
      "\<exists>live. ct_LivenessProbe sidecar = Some live \<and> pr_Port live = mport \<and> pr_Path live = ''/healthz''"
    using c unfolding metricsSidecarContainer_def Let_def secs_def [symmetric] mport_def [symmetric]
    by (auto split: if_split_asm)
  have env: "getenv ''QUERY_HOST'' = ''127.0.0.1''" "getenv ''QUERY_PORT'' = show_int (sint ?port)"
    "getenv ''METRICS_ADDR'' = '':'' @ show_int (sint mport)" "getenv ''SCRAPE_INTERVAL'' = show_int (sint secs) @ ''s''"
    "getenv ''SERVER_NAMESPACE'' = snamespace server" "getenv ''SERVER_NAME'' = sname server"
    "getenv ''STATUS_PATCH_ENABLED'' = ''''"
    using assms(2) by (simp_all add: pod_environment_def envs envValue_def)
  have enabled: "ms_Enabled (MetricsSidecar (Spec server))"
    using c by (simp add: metricsSidecarContainer_def Let_def split: if_split_asm)
  have "\<exists>ready. ct_ReadinessProbe game = Some ready \<and> pr_Port ready = mport \<and> pr_Path ready = ''/readyz''"
    using assms(1) enabled by (auto simp: buildStatefulSet_containers game_container_probe mport_def)
  with ports(2) obtain live ready where "ct_LivenessProbe sidecar = Some live" "pr_Port live = mport" "pr_Path live = ''/healthz''"
    "ct_ReadinessProbe game = Some ready" "pr_Port ready = mport" "pr_Path ready = ''/readyz''" by blast
  then have probes: "\<exists>live ready. ct_LivenessProbe sidecar = Some live \<and> pr_Port live = mport \<and>
      serveMux up (pr_Path live) = StatusCode 200 \<and> ct_ReadinessProbe game = Some ready \<and> pr_Port ready = mport \<and>
      serveMux up (pr_Path ready) = StatusCode (if up then 200 else 503)"
    by (intro exI [of _ live] exI [of _ ready]) (simp add: serveMux_def makeReadyzHandler_def)
  show ?thesis
    using ports(1) probes interval_read [of secs]
    by (simp add: loadConfig_def envOrDefault_def env Let_def show_int_not_Nil Atoi_word secs_def cong: if_cong)
qed

definition demo_scraped :: "int EnshroudedServer" where
  "demo_scraped = demo\<lparr>Spec := demo_spec\<lparr>MetricsSidecar :=
     \<lparr>ms_Enabled = True, ms_Image = '''', ms_MetricsPort = 9100, ms_ScrapeIntervalSeconds = 30\<rparr>\<rparr>\<rparr>"

definition demo_getenv :: "string \<Rightarrow> string" where
  "demo_getenv key = (case map_of [(''QUERY_HOST'', ''127.0.0.1''), (''QUERY_PORT'', ''15637''), (''METRICS_ADDR'', '':9100''),
     (''SCRAPE_INTERVAL'', ''30s''), (''SERVER_NAMESPACE'', ''games''), (''SERVER_NAME'', ''srv''), (''HOME'', ''/'')] key of
     None \<Rightarrow> '''' | Some v \<Rightarrow> v)"

lemma demo_scraped_simps [simp]:
  "sname demo_scraped = ''srv''" "snamespace demo_scraped = ''games''" "Port (Spec demo_scraped) = 15637"
  "MetricsSidecar (Spec demo_scraped) =
     \<lparr>ms_Enabled = True, ms_Image = '''', ms_MetricsPort = 9100, ms_ScrapeIntervalSeconds = 30\<rparr>"
  by (simp_all add: demo_scraped_def demo_def demo_spec_def sname_def snamespace_def new_meta_def)

theorem sidecar_reads_operator_config_witness:
  "scrapeInterval (loadConfig demo_getenv) = 30000000000 \<and> queryPort (loadConfig demo_getenv) = 15637 \<and>
   serverNamespace (loadConfig demo_getenv) = ''games'' \<and> serverName (loadConfig demo_getenv) = ''srv''"
proof -
  obtain c where c: "metricsSidecarContainer demo_scraped 15637 = Some c"
    by (simp add: metricsSidecarContainer_def Let_def)
  have numbers: "show_int 15637 = ''15637''" "show_int 9100 = ''9100''" "show_int 30 = ''30''"
    by (simp_all add: show_int_def show_nat.simps char_of_def bit_0)
  have "pod_environment demo_getenv (snamespace demo_scraped) c"
    using c by (auto simp: metricsSidecarContainer_def Let_def pod_environment_def envValue_def demo_getenv_def
        numbers split: if_splits)
  moreover have "pt_Containers (sts_Template (buildStatefulSet demo_scraped [])) =
      [game_container (buildStatefulSet demo_scraped []), c]"
    using c by (simp add: buildStatefulSet_containers)
  ultimately show ?thesis
    using sidecar_reads_operator_config [of demo_scraped "[]" _ c demo_getenv]
    by (simp add: Let_def)
qed

section \<open>Authorization\<close>

text \<open>
  What the API server's authorizer grants: a request is allowed if one rule names its verb, group
  and resource; the rules of a Role reach a service account through a RoleBinding in its namespace.
  \<open>authorized\<close> is the request behind a call of the sidecar's client; calls it has no rule for are refused,
  and what is no API call needs no rule.
\<close>

definition allows :: "PolicyRule list \<Rightarrow> string \<Rightarrow> string \<Rightarrow> string \<Rightarrow> bool" where
  "allows rules verb grp resource \<longleftrightarrow>
     list_ex (\<lambda>r. verb \<in> set (rule_Verbs r) \<and> grp \<in> set (rule_APIGroups r) \<and> resource \<in> set (rule_Resources r)) rules"

fun authorized :: "PolicyRule list \<Rightarrow> string \<Rightarrow> string \<Rightarrow> 'q event \<Rightarrow> bool" where
  "authorized rules ns n (EvGet k ns' n' _) \<longleftrightarrow>
     k = KServer \<and> ns' = ns \<and> n' = n \<and> allows rules ''get'' apiGroup ''enshroudedservers''"
| "authorized rules ns n (EvStatusPatch x _) \<longleftrightarrow>
     key_of x = (KServer, ns, n) \<and> allows rules ''patch'' apiGroup ''enshroudedservers/status''"
| "authorized rules ns n (EvList _ _ _) \<longleftrightarrow> False"
| "authorized rules ns n (EvCreate _ _) \<longleftrightarrow> False"
| "authorized rules ns n (EvUpdate _ _) \<longleftrightarrow> False"
| "authorized rules ns n (EvDelete _ _) \<longleftrightarrow> False"
| "authorized rules ns n (EvStatusUpdate _ _) \<longleftrightarrow> False"
| "authorized rules ns n _ \<longleftrightarrow> True"

lemma sidecar_allowed:
  "allows sidecarRules ''get'' apiGroup ''enshroudedservers''"
  "allows sidecarRules ''patch'' apiGroup ''enshroudedservers/status''"
  by (simp_all add: allows_def sidecarRules_def)

context kube_reads
begin

lemma emits_patchServerStatus:
  "emits (authorized sidecarRules ns n) (patchServerStatus p ns n players version)"
  unfolding patchServerStatus_def
  by (rule emits_Get_bind, simp add: sidecar_allowed, rule emits_case_sum,
      (auto intro!: emits_intros simp: sidecar_allowed as_Inr key_of_def)+)

lemma emits_scrape:
  "emits (authorized sidecarRules (serverNamespace cfg) (serverName cfg)) (scrape p net fuel cfg k8s st)"
  unfolding scrape_def scrapeFailed_def scrapeSucceeded_def publishInfo_def
  by (intro emits_intros emits_patchServerStatus) simp_all

lemma emits_scrapeTicks:
  "emits (authorized sidecarRules (serverNamespace cfg) (serverName cfg)) (scrapeTicks p net fuel cfg k8s n st)"
  by (induction n arbitrary: st) (auto intro!: emits_intros emits_scrape)

end


definition bound_rules :: "RoleBinding \<Rightarrow> Role \<Rightarrow> string \<Rightarrow> string \<Rightarrow> PolicyRule list" where
  "bound_rules rb role ns account =
    (if rb_SubjectKind rb = ''ServiceAccount'' \<and> rb_SubjectName rb = account \<and> rb_SubjectNamespace rb = ns \<and>
        om_Namespace (rb_Meta rb) = ns \<and> rb_RoleRefKind rb = ''Role'' \<and>
        rb_RoleRefName rb = om_Name (role_Meta role) \<and> om_Namespace (role_Meta role) = ns
     then role_Rules role else [])"

text \<open>
  C15. The operator grants the sidecar what it needs and the sidecar uses nothing else: every call it
  makes to the API server, over any number of ticks and whatever the answers are, reads the one
  server it was deployed for or patches its status, and is allowed by the rules that the Role and
  the RoleBinding of the operator give to the service account of the pod.
\<close>

theorem sidecar_calls_authorized:
  assumes "kube_reads p" "run_state (scrapeTicks p net fuel cfg k8s n st) s = (r, s')"
    "serverNamespace cfg = snamespace server" "serverName cfg = sname server"
    "ms_Enabled (MetricsSidecar (Spec server))"
    "om_Namespace m = snamespace server" "om_Namespace m' = snamespace server"
    "om_Name m' = sidecarServiceAccountName (sname server)"
  shows "\<exists>es. trace s' = trace s @ es \<and>
    list_all (authorized (bound_rules (desiredRoleBinding server m) \<lparr>role_Meta = m', role_Rules = sidecarRules\<rparr>
       (snamespace server) (pt_ServiceAccountName (sts_Template (buildStatefulSet server h))))
      (snamespace server) (sname server)) es"
proof -
  have "bound_rules (desiredRoleBinding server m) \<lparr>role_Meta = m', role_Rules = sidecarRules\<rparr> (snamespace server)
      (pt_ServiceAccountName (sts_Template (buildStatefulSet server h))) = sidecarRules"
    using assms(5-8) by (simp add: bound_rules_def desiredRoleBinding_def template_simps sidecarServiceAccountName_def Let_def)
  with emitsD [OF kube_reads.emits_scrapeTicks [OF assms(1)] assms(2)] assms(3,4) show ?thesis by simp
qed

theorem sidecar_calls_authorized_witness:
  "\<exists>r s'. run_state (scrapeTicks mem_platform demo_net 5 demo_config True 1 startState) (world_init [OServer demo_scraped]) = (r, s') \<and>
     list_all (authorized sidecarRules ''games'' ''srv'') (trace s')"
proof -
  let ?meta = "new_meta ''srv-metrics'' ''games'' Map.empty"
  obtain r s' where run: "run_state (scrapeTicks mem_platform demo_net 5 demo_config True 1 startState) (world_init [OServer demo_scraped]) = (r, s')"
    by (metis prod.exhaust)
  have "bound_rules (desiredRoleBinding demo_scraped ?meta) \<lparr>role_Meta = ?meta, role_Rules = sidecarRules\<rparr> ''games''
      (pt_ServiceAccountName (sts_Template (buildStatefulSet demo_scraped []))) = sidecarRules"
    by (simp add: bound_rules_def desiredRoleBinding_def template_simps sidecarServiceAccountName_def new_meta_def Let_def)
  with sidecar_calls_authorized [OF mem_api.kube_reads_axioms run, of demo_scraped ?meta ?meta "[]"] run show ?thesis
    by (simp add: demo_config_def new_meta_def sidecarServiceAccountName_def world_init_def)
qed

section \<open>Players protect the server\<close>

text \<open>
  C5. Player counts protect a server that asks for it, from end to end. For a server with
  \<^verbatim>\<open>deferWhilePlaying\<close> set that carries the finalizer, is not being deleted, and is not in the vertical
  scaling mode \<^verbatim>\<open>WhenIdle\<close>: once the sidecar's patch with a player number other than zero is accepted,
  the next run of the operator that succeeds and finds no maintenance window open whenever it reads
  the clock writes no StatefulSet and asks to come back after one minute.
\<close>

theorem players_protect_server:
  assumes "kube_snapshots p" "status_patches p store accept"
    "run_state (patchServerStatus p ns n (ucast (ai_Players info)) (ai_Version info)) s = (u, s1)"
    "EvStatusPatch x None \<in> set (drop (length (trace s)) (trace s1))" "ai_Players info \<noteq> 0"
    "store (env s) (KServer, ns, n) = Some (OServer server)"
    "om_DeletionTimestamp (es_Meta server) = None" "finalizerName \<in> set (om_Finalizers (es_Meta server))"
    "DeferWhilePlaying (UpdatePolicy (Spec server))"
    "\<not> (vsc_Enabled (VerticalScaling (Spec server)) \<and> vsc_UpdateMode (VerticalScaling (Spec server)) = ''WhenIdle'')"
    "run_state (Reconcile p ns n) s1 = (r, s')" "snd r = None"
  shows "\<exists>es. trace s' = trace s1 @ es \<and>
    (no_window_open p server es \<longrightarrow>
      fst r = oneMinute \<and> (\<forall>ev \<in> set es. \<forall>y. written ev \<noteq> Some (OStatefulSet y)))"
proof -
  let ?new = "server\<lparr>Status := (Status server)\<lparr>ActivePlayers := ucast (ai_Players info), GameVersion := ai_Version info\<rparr>\<rparr>"
  obtain es0 where "trace s1 = trace s @ es0" "\<exists>x. EvStatusPatch x None \<in> set es0 \<Longrightarrow>
      store (env s1) = (store (env s))((KServer, ns, n) \<mapsto> OServer ?new)"
    using status_patches.patched [OF assms(2,3,6)] by (elim exE conjE) (simp split: if_splits)
  with assms(4) have new: "store (env s1) (KServer, ns, n) = Some (OServer ?new)"
    by (metis append_eq_conv_conj fun_upd_same)
  obtain g w where g: "cl_Get p KServer ns n (env s1) = (g, w)" by (metis prod.exhaust)
  have "as_Server g = Inr ?new"
    using found_server [OF status_patches.axioms(1) [OF assms(2)] assms(11,12) new g] .
  then have get: "cl_Get p KServer ns n (env s1) = (Inr (OServer ?new), w)" using g by (simp add: as_Inr)
  have "0 <s ActivePlayers (Status ?new)"
    using assms(5) by (simp add: byte_positive)
  with assms(7-9) have live: "om_DeletionTimestamp (es_Meta ?new) = None" "finalizerName \<in> set (om_Finalizers (es_Meta ?new))"
    "DeferWhilePlaying (UpdatePolicy (Spec ?new))" "0 <s ActivePlayers (Status ?new)" by simp_all
  from kube_snapshots.deferred_run [OF assms(1,11) get live] obtain es where es: "trace s' = trace s1 @ es"
    "no_window_open p ?new es \<longrightarrow> (\<forall>ev \<in> set es. \<forall>y. written ev = Some (OStatefulSet y) \<longrightarrow>
      vsc_Enabled (VerticalScaling (Spec ?new)) \<and> vsc_UpdateMode (VerticalScaling (Spec ?new)) = ''WhenIdle'') \<and> (snd r = None \<longrightarrow> fst r = oneMinute)" by meson
  note es
  moreover have "no_window_open p ?new es \<longleftrightarrow> no_window_open p server es" by (simp add: no_window_open_def)
  moreover have "\<not> (vsc_Enabled (VerticalScaling (Spec ?new)) \<and> vsc_UpdateMode (VerticalScaling (Spec ?new)) = ''WhenIdle'')"
    using assms(10) by simp
  ultimately show ?thesis using assms(12) by blast
qed

lemma demo_live_patched:
  "\<exists>s1 x. run_state (patchServerStatus mem_platform ''games'' ''srv'' (ucast (ai_Players demo_info)) (ai_Version demo_info))
       (world_init [OServer demo_live]) = ((), s1) \<and>
     EvStatusPatch x None \<in> set (trace s1) \<and>
     mem_store (env s1) (KServer, ''games'', ''srv'') = Some (OServer (demo_live\<lparr>Status := (Status demo_live)\<lparr>
       ActivePlayers := 3, GameVersion := ''0.8''\<rparr>\<rparr>))"
proof -
  have server: "mem_store (mem_init [OServer demo_live]) (KServer, ''games'', ''srv'') = Some (OServer demo_live)"
    using demo_live_stored by (simp add: world_init_def)
  have key: "key_of (OServer (demo_live\<lparr>Status := st\<rparr>)) = (KServer, ''games'', ''srv'')" for st
    by (simp add: key_of_def demo_live_def demo_def new_meta_def)
  have alive: "\<not> gone (OServer (demo_live\<lparr>Status := st\<rparr>))" for st
    by (simp add: gone_def demo_live_def)
  have status: "ActivePlayers (Status demo_live) = 0" "ai_Players demo_info = 3" "ai_Version demo_info = ''0.8''"
    by (simp_all add: demo_live_def demo_def demo_info_def)
  show ?thesis
    by (simp add: patchServerStatus_def r_Get_def r_StatusPatch_def mem_Get_def world_init_def server key alive
        status mem_StatusPatch_OServer mem_store_put merged_def del: mem_StatusPatch.simps)
qed

theorem players_protect_server_witness:
  "\<exists>s1 s'. run_state (patchServerStatus mem_platform ''games'' ''srv'' 3 ''0.8'') (world_init [OServer demo_live]) = ((), s1) \<and>
     run_state (Reconcile mem_platform ''games'' ''srv'') s1 = ((oneMinute, None), s')"
proof -
  have info: "ai_Players demo_info = 3" "ai_Version demo_info = ''0.8''" by (simp_all add: demo_info_def)
  let ?new = "demo_live\<lparr>Status := (Status demo_live)\<lparr>ActivePlayers := 3, GameVersion := ''0.8''\<rparr>\<rparr>"
  obtain s1 x where p: "run_state (patchServerStatus mem_platform ''games'' ''srv'' (ucast (ai_Players demo_info)) (ai_Version demo_info))
      (world_init [OServer demo_live]) = ((), s1)" "EvStatusPatch x None \<in> set (trace s1)"
    "mem_store (env s1) (KServer, ''games'', ''srv'') = Some (OServer ?new)"
    using demo_live_patched by blast
  obtain r s' where run: "run_state (Reconcile mem_platform ''games'' ''srv'') s1 = (r, s')" by (metis prod.exhaust)
  have ready: "inputs_ready S ?new" for S by (simp add: inputs_ready_def demo_live_def demo_def demo_spec_def)
  have "snd r = None"
    using mem_up.run_succeeds [OF run p(3) _ _ ready] demo_live_fields by auto
  moreover have "no_window_open mem_platform demo_live es" for es
    by (simp add: no_window_open_def demo_live_def demo_spec_def)
  moreover have "EvStatusPatch x None \<in> set (drop (length (trace (world_init [OServer demo_live]))) (trace s1))"
    using p(2) by (simp add: world_init_def)
  moreover have "DeferWhilePlaying (UpdatePolicy (Spec demo_live))" "\<not> vsc_Enabled (VerticalScaling (Spec demo_live))"
    by (simp_all add: demo_live_def demo_spec_def)
  ultimately have "fst r = oneMinute"
    using players_protect_server [OF mem_snapshots.kube_snapshots_axioms mem_patches.status_patches_axioms p(1) _ _
        demo_live_stored demo_live_fields(1,2) _ _ run] info by auto
  with \<open>snd r = None\<close> p(1) run info show ?thesis by (intro exI [of _ s1] exI [of _ s']) (cases r; simp)
qed

section \<open>Gauges\<close>

lemma emits_deleteSnapshots_ok: "emits (gauge_call_ok cs) (deleteSnapshots p vs)"
  by (induction vs) (auto intro!: emits_intros)

lemma emits_poll_ok: "emits (gauge_call_ok cs) (pollSnapshot p server strict snapName deadline n)"
  by (induction n) (auto intro!: emits_intros)

lemma emits_groups_ok: "emits (gauge_call_ok cs) (buildGroups p server gs ugs)"
  by (induction ugs arbitrary: gs) (auto intro!: emits_intros simp: groupPassword_def)

lemmas emits_loops_ok = emits_deleteSnapshots_ok emits_poll_ok emits_groups_ok

lemma emits_prepare_ok: "emits (gauge_call_ok cs) (prepareObjects p server)"
  unfolding prepareObjects_def reconcilePVC_def reconcileMetricsSidecarRBAC_def reconcilePDB_def reconcileVPA_def
    applyVPARecommendation_def reconcileNetworkPolicy_def reconcileSidecarServiceAccount_def reconcileSidecarRole_def
    reconcileSidecarRoleBinding_def playersProtected_def inMaintenanceNow_def
  by (intro emits_intros) simp_all

lemma emits_workload_ok: "emits (gauge_call_ok cs) (reconcileWorkload p server hash d)"
  unfolding reconcileWorkload_def reconcileStatefulSet_def reconcileService_def reconcileS3Sidecar_def
    reconcileVolumeSnapshot_def pruneVolumeSnapshots_def snapshotBeforeUpdate_def inMaintenanceNow_def
  by (intro emits_intros emits_loops_ok) simp_all

lemma emits_hash_ok: "emits (gauge_call_ok cs) (annotationHash p server)"
  unfolding annotationHash_def passwordHash_def setPhaseError_def reconcileConfigSecret_def cleanupConfigSecret_def
    buildServerConfigJSON_def
  by (intro emits_intros emits_loops_ok) simp_all

lemma emits_Reconcile_ok: "emits (gauge_call_ok operatorCollectors) (Reconcile p ns n)"
  unfolding Reconcile_def handleDeletion_def deleteClaim_def reconcileLive_def reconcileObjects_def finishObjects_def
    updateStatus_def SetServerMetrics_def DeleteServerMetrics_def playersProtected_def inMaintenanceNow_def
  by (intro emits_intros emits_prepare_ok emits_workload_ok emits_hash_ok) simp_all

lemma emits_scrape_ok: "emits (gauge_call_ok newMetrics) (scrape p net fuel cfg k8s st)"
  unfolding scrape_def scrapeFailed_def scrapeSucceeded_def publishInfo_def patchServerStatus_def
  by (intro emits_intros) simp_all

lemma emits_ticks_ok: "emits (gauge_call_ok newMetrics) (scrapeTicks p net fuel cfg k8s n st)"
  by (induction n arbitrary: st) (auto intro!: emits_intros emits_scrape_ok)

text \<open>
  No gauge call can panic: every call of a reconciliation and of any number of scrapes, whatever
  the answers of the outside world, names a registered gauge and gives as many label values as it
  has labels, and no two registered gauges have the same name.
\<close>

theorem gauge_calls_well_labelled:
  "emits (gauge_call_ok operatorCollectors) (Reconcile p ns n) \<and>
   emits (gauge_call_ok newMetrics) (scrapeTicks p net fuel cfg k8sClient ticks st) \<and>
   distinct (map (fqName \<circ> fst \<circ> snd) operatorCollectors) \<and> distinct (map (fqName \<circ> fst \<circ> snd) newMetrics)"
  by (simp add: emits_Reconcile_ok emits_ticks_ok) (simp add: operatorCollectors_def newMetrics_def fqName_def)

end
